(* ===== verification/Prelude.thy ===== *)
theory Prelude
  imports Main "HOL-Library.Word"
begin

text \<open>
  Shared vocabulary of the development: the Go values every package of the
  repository uses (byte strings, times, durations, 64-bit integers), the
  functions of Go's \<^verbatim>\<open>strings\<close> and \<^verbatim>\<open>strconv\<close> packages that the sources call, and
  the generic lemmas on lists, options and maps that the component theories
  share.

  Conventions. A Go \<^verbatim>\<open>string\<close> and a \<^verbatim>\<open>[]byte\<close> are both a list of bytes, here
  \<^typ>\<open>string\<close> (a list of 8-bit characters). A \<^verbatim>\<open>time.Time\<close> is its instant in
  nanoseconds and a \<^verbatim>\<open>time.Duration\<close> a number of nanoseconds, both \<^typ>\<open>int\<close>;
  where a package computes with 64-bit integers that may overflow the component
  theory uses \<^typ>\<open>64 word\<close>. A Go function that returns \<^verbatim>\<open>(T, error)\<close> with exactly
  one of the two meaningful is a sum, the error on the left.
\<close>

named_theorems go_strings \<open>definitions of the strings package functions\<close>
named_theorems step_defs \<open>operations unfolded in invariant proofs\<close>

type_synonym byte_string = string
type_synonym time = int
type_synonym duration = int
type_synonym int64 = "64 word"

text \<open>
  A Go \<^verbatim>\<open>error\<close> by its message, \<open>None\<close> for nil: the second component where a function
  returns a usable value beside the error or only an error.
\<close>

type_synonym go_error = "string option"

text \<open>
  What a query of the database driver gives back: the error of the query itself, or
  the rows in order, each as scanned or with the error of scanning it, and the
  error the iteration ended with.
\<close>

datatype 'r rows = QueryFailed string | Rows "(string + 'r) list" go_error

text \<open>
  Go leaves the order of \<^verbatim>\<open>range\<close> over a map open. Code that ranges over a map takes the
  order as a parameter, a function that rearranges the keys.
\<close>

definition range_order :: "('a list \<Rightarrow> 'a list) \<Rightarrow> bool" where
  "range_order ord \<longleftrightarrow> (\<forall>ks. distinct ks \<longrightarrow> set (ord ks) = set ks \<and> distinct (ord ks))"

lemma range_order_id [simp]: "range_order (\<lambda>ks. ks)"
  by (simp add: range_order_def)

lemma range_order_rev [simp]: "range_order rev"
  by (simp add: range_order_def)

abbreviation (input) nanosecond :: duration where "nanosecond \<equiv> 1"
abbreviation (input) millisecond :: duration where "millisecond \<equiv> 1000000"
abbreviation (input) second :: duration where "second \<equiv> 1000000000"
abbreviation (input) minute :: duration where "minute \<equiv> 60000000000"

subsection \<open>The strings package\<close>

definition HasPrefix :: "string \<Rightarrow> string \<Rightarrow> bool" where
  [go_strings]: "HasPrefix s p \<longleftrightarrow> take (length p) s = p"

definition HasSuffix :: "string \<Rightarrow> string \<Rightarrow> bool" where
  [go_strings]: "HasSuffix s p \<longleftrightarrow> HasPrefix (rev s) (rev p)"

fun Contains :: "string \<Rightarrow> string \<Rightarrow> bool" where
  "Contains [] sub = (sub = [])"
| "Contains (c # s) sub = (HasPrefix (c # s) sub \<or> Contains s sub)"

text \<open>\<^verbatim>\<open>strings.IndexByte\<close>, \<^verbatim>\<open>strings.LastIndexByte\<close> and \<^verbatim>\<open>strings.Index\<close>: \<open>None\<close> is Go's \<open>-1\<close>.\<close>

fun IndexByte :: "string \<Rightarrow> char \<Rightarrow> nat option" where
  "IndexByte [] b = None"
| "IndexByte (c # s) b = (if c = b then Some 0 else map_option Suc (IndexByte s b))"

fun LastIndexByte :: "string \<Rightarrow> char \<Rightarrow> nat option" where
  "LastIndexByte [] b = None"
| "LastIndexByte (c # s) b =
     (case LastIndexByte s b of
        Some i \<Rightarrow> Some (Suc i)
      | None \<Rightarrow> if c = b then Some 0 else None)"

fun Index :: "string \<Rightarrow> string \<Rightarrow> nat option" where
  "Index [] sub = (if sub = [] then Some 0 else None)"
| "Index (c # s) sub = (if HasPrefix (c # s) sub then Some 0 else map_option Suc (Index s sub))"

text \<open>\<^verbatim>\<open>strings.Split\<close> on a one-byte separator (the sources use no longer one).\<close>

fun Split :: "string \<Rightarrow> char \<Rightarrow> string list" where
  "Split [] sep = [[]]"
| "Split (c # s) sep =
     (if c = sep then [] # Split s sep
      else (case Split s sep of [] \<Rightarrow> [[c]] | p # ps \<Rightarrow> (c # p) # ps))"

fun Join :: "string list \<Rightarrow> string \<Rightarrow> string" where
  "Join [] sep = []"
| "Join [p] sep = p"
| "Join (p # q # ps) sep = p @ sep @ Join (q # ps) sep"

text \<open>
  \<^verbatim>\<open>strings.TrimSpace\<close> removes the Unicode white space at both ends. The encodings
  of \<^verbatim>\<open>unicode.IsSpace\<close> runes in UTF-8 are listed; \<open>space_width\<close> is the width of the
  white-space rune a string starts with, 0 if there is none.
\<close>

definition space_runes :: "string list" where
  "space_runes =
     [[CHR 0x09], [CHR 0x0A], [CHR 0x0B], [CHR 0x0C], [CHR 0x0D], [CHR 0x20],
      [CHR 0xC2, CHR 0x85], [CHR 0xC2, CHR 0xA0], [CHR 0xE1, CHR 0x9A, CHR 0x80]]
     @ map (\<lambda>n. [CHR 0xE2, CHR 0x80, char_of n]) ([128..<139] @ [168::nat, 169, 175])
     @ [[CHR 0xE2, CHR 0x81, CHR 0x9F], [CHR 0xE3, CHR 0x80, CHR 0x80]]"

definition space_width :: "string list \<Rightarrow> string \<Rightarrow> nat" where
  "space_width rs s = (case find (HasPrefix s) rs of None \<Rightarrow> 0 | Some r \<Rightarrow> length r)"

function trim_left :: "string list \<Rightarrow> string \<Rightarrow> string" where
  "trim_left rs s =
     (if space_width rs s = 0 \<or> s = [] then s else trim_left rs (drop (space_width rs s) s))"
  by pat_completeness auto
termination
  by (relation "measure (\<lambda>(rs, s). length s)") auto

declare trim_left.simps [simp del]

definition TrimSpace :: "string \<Rightarrow> string" where
  [go_strings]: "TrimSpace s =
     rev (trim_left (map rev space_runes) (rev (trim_left space_runes s)))"

text \<open>\<^verbatim>\<open>strings.Trim(s, cutset)\<close>.\<close>

definition Trim :: "string \<Rightarrow> char set \<Rightarrow> string" where
  [go_strings]: "Trim s cutset = rev (dropWhile (\<lambda>c. c \<in> cutset) (rev (dropWhile (\<lambda>c. c \<in> cutset) s)))"

text \<open>ASCII case mapping: the part of \<^verbatim>\<open>strings.ToLower\<close> and of header canonicalisation used.\<close>

definition is_upper :: "char \<Rightarrow> bool" where
  "is_upper c \<longleftrightarrow> 65 \<le> (of_char c :: nat) \<and> (of_char c :: nat) \<le> 90"

definition is_lower :: "char \<Rightarrow> bool" where
  "is_lower c \<longleftrightarrow> 97 \<le> (of_char c :: nat) \<and> (of_char c :: nat) \<le> 122"

definition is_digit :: "char \<Rightarrow> bool" where
  "is_digit c \<longleftrightarrow> 48 \<le> (of_char c :: nat) \<and> (of_char c :: nat) \<le> 57"

definition to_lower :: "char \<Rightarrow> char" where
  "to_lower c = (if is_upper c then char_of ((of_char c :: nat) + 32) else c)"

definition to_upper :: "char \<Rightarrow> char" where
  "to_upper c = (if is_lower c then char_of ((of_char c :: nat) - 32) else c)"

definition ToLower :: "string \<Rightarrow> string" where
  [go_strings]: "ToLower s = map to_lower s"

subsection \<open>Decimal conversion (strconv, fmt)\<close>

definition digit_char :: "nat \<Rightarrow> char" where
  "digit_char d = char_of (48 + d)"

fun nat_digits :: "nat \<Rightarrow> string" where
  "nat_digits n = (if n < 10 then [digit_char n] else nat_digits (n div 10) @ [digit_char (n mod 10)])"

declare nat_digits.simps [simp del]

text \<open>\<^verbatim>\<open>strconv.Itoa\<close> and \<^verbatim>\<open>%d\<close>.\<close>

definition Itoa :: "int \<Rightarrow> string" where
  "Itoa n = (if n < 0 then ''-'' @ nat_digits (nat (- n)) else nat_digits (nat n))"

fun digits_value :: "nat \<Rightarrow> string \<Rightarrow> nat option" where
  "digits_value acc [] = Some acc"
| "digits_value acc (c # s) =
     (if is_digit c then digits_value (10 * acc + (of_char c - 48)) s else None)"

text \<open>
  \<^verbatim>\<open>strconv.ParseInt(s, 10, 64)\<close> and \<^verbatim>\<open>strconv.Atoi\<close> (the same function on a 64-bit
  platform): an optional sign, at least one decimal digit and nothing else, and the
  value in the range of \<^verbatim>\<open>int64\<close>; \<open>None\<close> is the error result.
\<close>

definition parse_nat :: "string \<Rightarrow> nat option" where
  "parse_nat s = (if s = [] then None else digits_value 0 s)"

definition ParseInt :: "string \<Rightarrow> int option" where
  "ParseInt s =
     (let (neg, ds) = (case s of
            [] \<Rightarrow> (False, [])
          | c # r \<Rightarrow> if c = CHR ''-'' then (True, r) else if c = CHR ''+'' then (False, r) else (False, s))
      in case parse_nat ds of
           None \<Rightarrow> None
         | Some n \<Rightarrow>
             if neg then (if n \<le> 2 ^ 63 then Some (- int n) else None)
             else (if n < 2 ^ 63 then Some (int n) else None))"

text \<open>
  \<^verbatim>\<open>strconv.Quote\<close>, the verb \<^verbatim>\<open>%q\<close>: quotes, backslashes and control characters are escaped. Bytes
  from 128 on are kept, as Go does for printable text in UTF-8.
\<close>

definition quote_hex :: "nat \<Rightarrow> char" where
  "quote_hex n = ''0123456789abcdef'' ! (n mod 16)"

definition go_escape :: "char \<Rightarrow> string" where
  "go_escape c =
     (if c = CHR 0x22 \<or> c = CHR 0x5C then [CHR 0x5C, c]
      else case map_of (zip [7, 8, 9, 10, 11, 12, 13] ''abtnvfr'') (of_char c :: nat) of
             Some e \<Rightarrow> [CHR 0x5C, e]
           | None \<Rightarrow>
               if of_char c < (32::nat) \<or> of_char c = (127::nat)
               then [CHR 0x5C, CHR ''x'', quote_hex (of_char c div 16), quote_hex (of_char c)] else [c])"

definition go_quote :: "string \<Rightarrow> string" where
  "go_quote s = [CHR 0x22] @ concat (map go_escape s) @ [CHR 0x22]"

text \<open>The text in which Postgres returns a value of type \<^verbatim>\<open>uuid\<close>: lower-case digits in groups of 8, 4, 4, 4 and 12.\<close>

definition canonical_uuid :: "string \<Rightarrow> bool" where
  "canonical_uuid s \<longleftrightarrow> length s = 36 \<and>
     list_all (\<lambda>(i, c). if i \<in> {8, 13, 18, 23} then c = CHR ''-'' else c \<in> set ''0123456789abcdef'') (zip [0..<36] s)"

definition demo_tenant :: string where
  "demo_tenant = ''6f1c2b1e-0000-4000-8000-00000000000a''"

lemma demo_tenant_canonical: "canonical_uuid demo_tenant"
  by code_simp

subsection \<open>Lemmas on strings\<close>

lemma HasPrefix_drop: "HasPrefix s p \<and> drop (length p) s = t \<longleftrightarrow> s = p @ t"
  unfolding HasPrefix_def by (metis append_eq_conv_conj)

lemma HasPrefix_iff: "HasPrefix s p \<longleftrightarrow> (\<exists>t. s = p @ t)"
  using HasPrefix_drop by blast

lemma HasPrefix_append [simp]: "HasPrefix (p @ t) p"
  by (auto simp: HasPrefix_iff)

lemma HasSuffix_iff: "HasSuffix s p \<longleftrightarrow> (\<exists>t. s = t @ p)"
  unfolding HasSuffix_def HasPrefix_iff by (metis rev_append rev_rev_ident)

lemma Contains_iff: "Contains s sub \<longleftrightarrow> (\<exists>a b. s = a @ sub @ b)"
proof (induction s)
  case (Cons c s)
  then show ?case
    by (auto simp: HasPrefix_iff append_eq_Cons_conv Cons_eq_append_conv)
qed simp

text \<open>A separator that the first parts do not contain makes a join unambiguous.\<close>

lemma sep_inject:
  assumes "sep \<notin> set x" and "sep \<notin> set x'"
  shows "x @ sep # y = x' @ sep # y' \<longleftrightarrow> x = x' \<and> y = y'"
  using assms
proof (induction x arbitrary: x')
  case Nil
  then show ?case by (cases x') auto
next
  case (Cons c x)
  then show ?case by (cases x') auto
qed

subsection \<open>Lemmas on decimal numbers\<close>

lemma digit_char_digit: "d < 10 \<Longrightarrow> is_digit (digit_char d) \<and> of_char (digit_char d) = 48 + d"
  by (simp add: digit_char_def is_digit_def)

lemma digits_value_Itoa: "digits_value 0 (nat_digits n @ s) = digits_value n s"
proof (induction n arbitrary: s rule: nat_digits.induct)
  case (1 n)
  show ?case
  proof (cases "n < 10")
    case True
    then show ?thesis using digit_char_digit [of n] by (subst nat_digits.simps) simp
  next
    case False
    then have "digits_value 0 (nat_digits n @ s) = digits_value 0 (nat_digits (n div 10) @ digit_char (n mod 10) # s)"
      by (subst nat_digits.simps) simp
    also have "\<dots> = digits_value (n div 10) (digit_char (n mod 10) # s)" using 1 False by simp
    also have "\<dots> = digits_value n s" using digit_char_digit [of "n mod 10"] by simp
    finally show ?thesis .
  qed
qed

lemma nat_digits_digits: "list_all is_digit (nat_digits n)"
proof (induction n rule: nat_digits.induct)
  case (1 n)
  then show ?case
    using digit_char_digit [of n] digit_char_digit [of "n mod 10"] by (subst nat_digits.simps) simp
qed

lemma nat_digits_Cons:
  "\<exists>d r. nat_digits n = digit_char d # r \<and> d < 10 \<and> (d = 0 \<longrightarrow> r = [])"
proof (induction n rule: nat_digits.induct)
  case (1 n)
  show ?case
  proof (cases "n < 10")
    case True
    then show ?thesis by (auto simp: nat_digits.simps [of n])
  next
    case False
    from 1 [OF False] obtain d r where d: "nat_digits (n div 10) = digit_char d # r" "d < 10" "d = 0 \<longrightarrow> r = []" by blast
    have "d \<noteq> 0"
    proof
      assume "d = 0"
      then have "nat_digits (n div 10) = [digit_char 0]" using d by simp
      then have "digits_value 0 [digit_char 0] = Some (n div 10)" using digits_value_Itoa [of "n div 10" "[]"] by simp
      then show False using False digit_char_digit [of 0] by simp
    qed
    then show ?thesis using d False by (auto simp: nat_digits.simps [of n])
  qed
qed

lemma parse_nat_digits: "parse_nat (nat_digits m) = Some m"
proof -
  have "nat_digits m \<noteq> []" using nat_digits_Cons [of m] by (metis list.distinct(1))
  then show ?thesis using digits_value_Itoa [of m "[]"] by (simp add: parse_nat_def)
qed

lemma ParseInt_Itoa:
  assumes "- (2 ^ 63) \<le> n" and "n < 2 ^ 63"
  shows "ParseInt (Itoa n) = Some n"
proof -
  obtain d r where d: "nat_digits (nat \<bar>n\<bar>) = digit_char d # r" "d < 10"
    using nat_digits_Cons by blast
  have "digit_char d \<noteq> CHR ''-'' \<and> digit_char d \<noteq> CHR ''+''"
    using digit_char_digit [OF d(2)] by (auto simp: is_digit_def)
  then show ?thesis
    using assms d parse_nat_digits [of "nat \<bar>n\<bar>"]
    by (auto simp: ParseInt_def Itoa_def Let_def nat_le_iff nat_less_iff)
qed

subsection \<open>Lemmas on lists\<close>

lemma fold_inv:
  assumes "\<And>x st. P st \<Longrightarrow> P (f x st)" and "P st"
  shows "P (fold f xs st)"
  using assms(2) by (induction xs arbitrary: st) (auto intro: assms(1))

lemma filter_all:
  assumes "length xs \<le> length (filter P xs)"
  shows "filter P xs = xs"
  using assms
proof (induction xs)
  case (Cons x xs)
  have "P x"
  proof (rule ccontr)
    assume "\<not> P x"
    then have "Suc (length xs) \<le> length (filter P xs)" using Cons.prems by simp
    also have "\<dots> \<le> length xs" by (rule length_filter_le)
    finally show False by simp
  qed
  then show ?case using Cons by simp
qed simp

end
