(* ===== verification/Http.thy ===== *)
theory Http
  imports Prelude
begin

text \<open>
  The parts of Go's \<^verbatim>\<open>net/http\<close> and \<^verbatim>\<open>context\<close> packages the repository relies on:
  header maps with canonical keys, the request and the response writer as
  records, contexts as association lists from private key types to values, and
  handlers as functions on the response and a state of the surrounding world.

  The private key types of the packages (\<^verbatim>\<open>type ctxKey struct{}\<close>) are the
  constructors of \<open>ctx_key\<close>: two packages can never collide, as in Go, where keys
  of different types are different keys.
\<close>

subsection \<open>Headers\<close>

type_synonym header = "string \<rightharpoonup> string list"

definition valid_header_byte :: "char \<Rightarrow> bool" where
  "valid_header_byte c \<longleftrightarrow>
     is_upper c \<or> is_lower c \<or> is_digit c \<or> c \<in> set ''!#$%&'' \<or> c = CHR 0x27 \<or> c = CHR 0x60
     \<or> c \<in> set ''*+-.^_|~''"

fun canon_from :: "bool \<Rightarrow> string \<Rightarrow> string" where
  "canon_from up [] = []"
| "canon_from up (c # s) = (if up then to_upper c else to_lower c) # canon_from (c = CHR ''-'') s"

definition CanonicalHeaderKey :: "string \<Rightarrow> string" where
  "CanonicalHeaderKey s = (if list_all valid_header_byte s then canon_from True s else s)"

definition hget :: "header \<Rightarrow> string \<Rightarrow> string" where
  "hget h k = (case h (CanonicalHeaderKey k) of Some (v # _) \<Rightarrow> v | _ \<Rightarrow> [])"

definition hset :: "string \<Rightarrow> string \<Rightarrow> header \<Rightarrow> header" where
  "hset k v h = h(CanonicalHeaderKey k \<mapsto> [v])"

definition hdel :: "string \<Rightarrow> header \<Rightarrow> header" where
  "hdel k h = h(CanonicalHeaderKey k := None)"

lemma hget_hset [simp]:
  "hget (hset k v h) k' = (if CanonicalHeaderKey k = CanonicalHeaderKey k' then v else hget h k')"
  by (simp add: hget_def hset_def)

lemma hget_empty [simp]: "hget Map.empty k = []"
  by (simp add: hget_def)

lemma canonical_names [simp]:
  "CanonicalHeaderKey ''X-Tenant-ID'' = ''X-Tenant-Id''"
  "CanonicalHeaderKey ''X-Service-Token'' = ''X-Service-Token''"
  "CanonicalHeaderKey ''X-Auth-Request-User'' = ''X-Auth-Request-User''"
  "CanonicalHeaderKey ''X-Auth-Request-Email'' = ''X-Auth-Request-Email''"
  "CanonicalHeaderKey ''X-Auth-Request-Groups'' = ''X-Auth-Request-Groups''"
  "CanonicalHeaderKey ''X-Request-ID'' = ''X-Request-Id''"
  "CanonicalHeaderKey ''X-Forwarded-For'' = ''X-Forwarded-For''"
  "CanonicalHeaderKey ''User-Agent'' = ''User-Agent''"
  "CanonicalHeaderKey ''Authorization'' = ''Authorization''"
  "CanonicalHeaderKey ''Content-Type'' = ''Content-Type''"
  "CanonicalHeaderKey ''Content-Length'' = ''Content-Length''"
  "CanonicalHeaderKey ''X-Content-Type-Options'' = ''X-Content-Type-Options''"
  "CanonicalHeaderKey ''Accept'' = ''Accept''"
  "CanonicalHeaderKey ''Origin'' = ''Origin''"
  "CanonicalHeaderKey ''Retry-After'' = ''Retry-After''"
  "CanonicalHeaderKey ''Access-Control-Allow-Origin'' = ''Access-Control-Allow-Origin''"
  "CanonicalHeaderKey ''Access-Control-Allow-Methods'' = ''Access-Control-Allow-Methods''"
  "CanonicalHeaderKey ''Access-Control-Allow-Headers'' = ''Access-Control-Allow-Headers''"
  "CanonicalHeaderKey ''Access-Control-Max-Age'' = ''Access-Control-Max-Age''"
  by code_simp+

subsection \<open>Contexts\<close>

datatype ctx_key = TenantKey | RolesKey | RequestIDKey | JobRequestIDKey

datatype ctx_val = CtxString string | CtxRoles "string list"

type_synonym ctx = "(ctx_key \<times> ctx_val) list"

definition WithValue :: "ctx \<Rightarrow> ctx_key \<Rightarrow> ctx_val \<Rightarrow> ctx" where
  "WithValue c k v = (k, v) # c"

definition ctx_Value :: "ctx \<Rightarrow> ctx_key \<Rightarrow> ctx_val option" where
  "ctx_Value c k = map_of c k"

text \<open>\<^verbatim>\<open>v, ok := ctx.Value(k).(string)\<close>, with the empty string for a failed assertion.\<close>

definition ctx_string :: "ctx \<Rightarrow> ctx_key \<Rightarrow> string" where
  "ctx_string c k = (case ctx_Value c k of Some (CtxString s) \<Rightarrow> s | _ \<Rightarrow> [])"

lemma ctx_Value_WithValue [simp]:
  "ctx_Value (WithValue c k v) k' = (if k = k' then Some v else ctx_Value c k')"
  by (simp add: ctx_Value_def WithValue_def)

lemma ctx_string_WithValue [simp]:
  "ctx_string (WithValue c k (CtxString s)) k' = (if k = k' then s else ctx_string c k')"
  by (simp add: ctx_string_def)

lemma ctx_string_WithRoles [simp]:
  "k \<noteq> k' \<Longrightarrow> ctx_string (WithValue c k v) k' = ctx_string c k'"
  by (simp add: ctx_string_def)

subsection \<open>Requests, responses and handlers\<close>

text \<open>
  \<open>req_cookies\<close> is what \<^verbatim>\<open>r.Cookies()\<close> parses from the request; \<^verbatim>\<open>r.Cookie(name)\<close> is the
  first cookie of that name.
\<close>

record request =
  req_method :: string
  req_path :: string
  req_header :: header
  req_remote :: string
  req_cookies :: "(string \<times> string) list"
  req_ctx :: ctx

definition Cookie :: "request \<Rightarrow> string \<Rightarrow> string option" where
  "Cookie r name = map_of (req_cookies r) name"

abbreviation rget :: "request \<Rightarrow> string \<Rightarrow> string" where
  "rget r k \<equiv> hget (req_header r) k"

text \<open>
  The first \<^verbatim>\<open>WriteHeader\<close> fixes the status; \<^verbatim>\<open>Write\<close> sends 200 if none was sent.
  \<open>rsp_calls\<close> records the codes of the explicit \<^verbatim>\<open>WriteHeader\<close> calls in order: wrappers of the
  response writer see those calls, also the ones without effect, and no others.
\<close>

record response =
  rsp_header :: header
  rsp_status :: "nat option"
  rsp_body :: string
  rsp_calls :: "nat list"

definition new_response :: response where
  "new_response = \<lparr>rsp_header = Map.empty, rsp_status = None, rsp_body = [], rsp_calls = []\<rparr>"

definition set_header :: "string \<Rightarrow> string \<Rightarrow> response \<Rightarrow> response" where
  "set_header k v w = w\<lparr>rsp_header := hset k v (rsp_header w)\<rparr>"

definition send_status :: "nat \<Rightarrow> response \<Rightarrow> response" where
  "send_status code w =
     (case rsp_status w of None \<Rightarrow> w\<lparr>rsp_status := Some code\<rparr> | Some _ \<Rightarrow> w)"

definition write_header :: "nat \<Rightarrow> response \<Rightarrow> response" where
  "write_header code w = (send_status code w)\<lparr>rsp_calls := rsp_calls w @ [code]\<rparr>"

definition write_body :: "string \<Rightarrow> response \<Rightarrow> response" where
  "write_body b w = (send_status 200 w)\<lparr>rsp_body := rsp_body w @ b\<rparr>"

text \<open>\<^verbatim>\<open>http.Error(w, msg, code)\<close>.\<close>

definition http_Error :: "string \<Rightarrow> nat \<Rightarrow> response \<Rightarrow> response" where
  "http_Error msg code w =
     write_body (msg @ [CHR 0x0A])
       (write_header code
         (set_header ''X-Content-Type-Options'' ''nosniff''
           (set_header ''Content-Type'' ''text/plain; charset=utf-8''
             (w\<lparr>rsp_header := hdel ''Content-Length'' (rsp_header w)\<rparr>))))"

type_synonym 's handler = "request \<Rightarrow> response \<Rightarrow> 's \<Rightarrow> response \<times> 's"

definition with_ctx :: "ctx \<Rightarrow> request \<Rightarrow> request" where
  "with_ctx c r = r\<lparr>req_ctx := c\<rparr>"

lemma with_ctx_sel [simp]:
  "req_ctx (with_ctx c r) = c" "req_header (with_ctx c r) = req_header r"
  "req_method (with_ctx c r) = req_method r" "req_path (with_ctx c r) = req_path r"
  "req_remote (with_ctx c r) = req_remote r" "req_cookies (with_ctx c r) = req_cookies r"
  by (simp_all add: with_ctx_def)

lemma rsp_status_simps [simp]:
  "rsp_status (set_header k v w) = rsp_status w"
  "rsp_status (write_header c w) = (case rsp_status w of None \<Rightarrow> Some c | Some s \<Rightarrow> Some s)"
  "rsp_status (write_body b w) = (case rsp_status w of None \<Rightarrow> Some 200 | Some s \<Rightarrow> Some s)"
  "rsp_status (http_Error m c w) = (case rsp_status w of None \<Rightarrow> Some c | Some s \<Rightarrow> Some s)"
  by (simp_all add: set_header_def send_status_def write_header_def write_body_def http_Error_def split: option.splits)

lemma rsp_header_simps [simp]:
  "rsp_header (set_header k v w) = hset k v (rsp_header w)"
  "rsp_header (write_header c w) = rsp_header w"
  "rsp_header (write_body b w) = rsp_header w"
  by (simp_all add: set_header_def send_status_def write_header_def write_body_def split: option.splits)

lemma rsp_calls_simps [simp]:
  "rsp_calls (set_header k v w) = rsp_calls w"
  "rsp_calls (write_header c w) = rsp_calls w @ [c]"
  "rsp_calls (write_body b w) = rsp_calls w"
  "rsp_calls (http_Error m c w) = rsp_calls w @ [c]"
  by (simp_all add: set_header_def send_status_def write_header_def write_body_def http_Error_def
      split: option.splits)

lemma new_response_sel [simp]:
  "rsp_header new_response = Map.empty" "rsp_status new_response = None"
  "rsp_body new_response = []" "rsp_calls new_response = []"
  by (simp_all add: new_response_def)

lemma rsp_body_simps [simp]:
  "rsp_body (set_header k v w) = rsp_body w"
  "rsp_body (write_header c w) = rsp_body w"
  "rsp_body (write_body b w) = rsp_body w @ b"
  by (simp_all add: set_header_def send_status_def write_header_def write_body_def split: option.splits)

end
