(* ===== verification/Json.thy ===== *)
theory Json
  imports Prelude
begin

text \<open>
  The part of Go's \<^verbatim>\<open>encoding/json\<close> the repository's wire formats rest on: JSON
  values, the compact printer of \<^verbatim>\<open>json.Marshal\<close> (with its HTML-safe escaping and
  its treatment of invalid UTF-8), a parser with the acceptance rules of
  \<^verbatim>\<open>json.Unmarshal\<close>, and the helpers that decode objects into struct fields.

  Numbers are kept as their literal, which is what the decoder hands to
  \<^verbatim>\<open>strconv\<close>. The parser is structurally recursive in a fuel argument; \<open>json_parse\<close>
  supplies more than any input can use (lemma \<open>parse_fuel_enough\<close>). Go's nesting limit
  of 10000 is not modelled. The result that carries the components is
  \<open>parse_print\<close>: parsing what the printer wrote gives the value back.
\<close>

section \<open>UTF-8\<close>

abbreviation byte :: "char \<Rightarrow> nat" where "byte c \<equiv> of_char c"

definition cont :: "nat \<Rightarrow> nat \<Rightarrow> char \<Rightarrow> bool" where
  "cont lo hi c \<longleftrightarrow> lo \<le> byte c \<and> byte c \<le> hi"

abbreviation tail_byte :: "char \<Rightarrow> bool" where "tail_byte c \<equiv> cont 128 191 c"

text \<open>The width of the valid UTF-8 sequence a string starts with; 0 if there is none.\<close>

fun utf8_width :: "string \<Rightarrow> nat" where
  "utf8_width [] = 0"
| "utf8_width (a # s) =
     (if byte a < 128 then 1
      else case s of
        [] \<Rightarrow> 0
      | b # s2 \<Rightarrow>
          if cont 194 223 a then (if tail_byte b then 2 else 0)
          else case s2 of
            [] \<Rightarrow> 0
          | c # s3 \<Rightarrow>
              if (byte a = 224 \<and> cont 160 191 b \<or> cont 225 236 a \<and> tail_byte b
                  \<or> byte a = 237 \<and> cont 128 159 b \<or> cont 238 239 a \<and> tail_byte b) \<and> tail_byte c
              then 3
              else case s3 of
                [] \<Rightarrow> 0
              | d # _ \<Rightarrow>
                  if (byte a = 240 \<and> cont 144 191 b \<or> cont 241 243 a \<and> tail_byte b
                      \<or> byte a = 244 \<and> cont 128 143 b) \<and> tail_byte c \<and> tail_byte d
                  then 4 else 0)"

lemma utf8_width_le: "utf8_width s \<le> length s"
  by (induction s rule: utf8_width.induct) (auto split: list.splits)

function valid_utf8 :: "string \<Rightarrow> bool" where
  "valid_utf8 s =
     (if s = [] then True else if utf8_width s = 0 then False else valid_utf8 (drop (utf8_width s) s))"
  by pat_completeness auto
termination
  by (relation "measure length") auto

declare valid_utf8.simps [simp del]

lemma valid_utf8_ascii [simp]:
  "valid_utf8 []" "byte c < 128 \<Longrightarrow> valid_utf8 (c # s) = valid_utf8 s"
  by (simp_all add: valid_utf8.simps [of "[]"] valid_utf8.simps [of "c # s"])

lemma ascii_valid: "(\<And>c. c \<in> set s \<Longrightarrow> byte c < 128) \<Longrightarrow> valid_utf8 s"
  by (induction s) simp_all

definition replacement :: string where
  "replacement = [CHR 0xEF, CHR 0xBF, CHR 0xBD]"

definition utf8_encode :: "nat \<Rightarrow> string" where
  "utf8_encode r =
     (if r < 128 then [char_of r]
      else if r < 2048 then [char_of (192 + r div 64), char_of (128 + r mod 64)]
      else if 55296 \<le> r \<and> r \<le> 57343 \<or> 1114111 < r then replacement
      else if r < 65536
      then [char_of (224 + r div 4096), char_of (128 + r div 64 mod 64), char_of (128 + r mod 64)]
      else [char_of (240 + r div 262144), char_of (128 + r div 4096 mod 64),
            char_of (128 + r div 64 mod 64), char_of (128 + r mod 64)])"

section \<open>Values and the printer\<close>

datatype json =
    JNull
  | JBool bool
  | JNum string
  | JStr string
  | JArr "json list"
  | JObj "(string \<times> json) list"

abbreviation quote_char :: char where "quote_char \<equiv> CHR 0x22"
abbreviation backslash :: char where "backslash \<equiv> CHR 0x5C"

definition hex_digit :: "nat \<Rightarrow> char" where
  "hex_digit d = (if d < 10 then char_of (48 + d) else char_of (87 + d))"

definition u00 :: "char \<Rightarrow> string" where
  "u00 c = [backslash, CHR ''u'', CHR ''0'', CHR ''0'', hex_digit (byte c div 16), hex_digit (byte c mod 16)]"

definition html_safe :: "char \<Rightarrow> bool" where
  "html_safe c \<longleftrightarrow> 32 \<le> byte c \<and> byte c < 128 \<and> c \<noteq> quote_char \<and> c \<noteq> backslash
     \<and> c \<noteq> CHR ''<'' \<and> c \<noteq> CHR ''>'' \<and> c \<noteq> CHR ''&''"

definition escape_ascii :: "char \<Rightarrow> string" where
  "escape_ascii c =
     (if html_safe c then [c]
      else if c = quote_char \<or> c = backslash then [backslash, c]
      else if c = CHR 0x08 then [backslash, CHR ''b'']
      else if c = CHR 0x0C then [backslash, CHR ''f'']
      else if c = CHR 0x0A then [backslash, CHR ''n'']
      else if c = CHR 0x0D then [backslash, CHR ''r'']
      else if c = CHR 0x09 then [backslash, CHR ''t'']
      else u00 c)"

text \<open>U+2028 and U+2029 are escaped, other valid sequences copied, invalid bytes replaced.\<close>

definition escape_rune :: "string \<Rightarrow> string" where
  "escape_rune s =
     (if s = [CHR 0xE2, CHR 0x80, CHR 0xA8] then backslash # ''u2028''
      else if s = [CHR 0xE2, CHR 0x80, CHR 0xA9] then backslash # ''u2029''
      else s)"

function quote_body :: "string \<Rightarrow> string" where
  "quote_body s =
     (case s of
        [] \<Rightarrow> []
      | c # r \<Rightarrow>
          if byte c < 128 then escape_ascii c @ quote_body r
          else if utf8_width s = 0 then (backslash # ''ufffd'') @ quote_body r
          else escape_rune (take (utf8_width s) s) @ quote_body (drop (utf8_width s) s))"
  by pat_completeness auto
termination
  by (relation "measure length") auto

declare quote_body.simps [simp del]

lemma quote_body_ascii:
  "quote_body [] = []" "byte c < 128 \<Longrightarrow> quote_body (c # r) = escape_ascii c @ quote_body r"
  by (simp_all add: quote_body.simps [of "[]"] quote_body.simps [of "c # r"])

lemma quote_body_plain:
  "(\<And>c. c \<in> set s \<Longrightarrow> byte c < 128 \<and> escape_ascii c = [c]) \<Longrightarrow> quote_body s = s"
  by (induction s) (simp_all add: quote_body_ascii)

definition json_quote :: "string \<Rightarrow> string" where
  "json_quote s = quote_char # quote_body s @ [quote_char]"

fun json_print :: "json \<Rightarrow> string" where
  "json_print JNull = ''null''"
| "json_print (JBool b) = (if b then ''true'' else ''false'')"
| "json_print (JNum l) = l"
| "json_print (JStr s) = json_quote s"
| "json_print (JArr vs) = ''['' @ Join (map json_print vs) '','' @ '']''"
| "json_print (JObj ms) = ''{'' @ Join (map (\<lambda>(k, v). json_quote k @ '':'' @ json_print v) ms) '','' @ ''}''"

text \<open>Names of lower-case letters and underscores are written as they are.\<close>

definition name_chars :: string where
  "name_chars = ''abcdefghijklmnopqrstuvwxyz_''"

lemma name_char: "c \<in> set name_chars \<Longrightarrow> byte c < 128 \<and> escape_ascii c = [c]"
proof -
  have "list_all (\<lambda>c. byte c < 128 \<and> escape_ascii c = [c]) name_chars" by code_simp
  then show "c \<in> set name_chars \<Longrightarrow> byte c < 128 \<and> escape_ascii c = [c]" by (simp add: list_all_iff)
qed

lemma quote_name: "set s \<subseteq> set name_chars \<Longrightarrow> quote_body s = s"
  by (rule quote_body_plain) (auto dest: name_char)

section \<open>The parser\<close>

definition is_ws :: "char \<Rightarrow> bool" where
  "is_ws c \<longleftrightarrow> c = CHR 0x20 \<or> c = CHR 0x09 \<or> c = CHR 0x0A \<or> c = CHR 0x0D"

definition skip_ws :: "string \<Rightarrow> string" where
  "skip_ws = dropWhile is_ws"

definition hex_value :: "char \<Rightarrow> nat option" where
  "hex_value c =
     (if is_digit c then Some (byte c - 48)
      else if 97 \<le> byte c \<and> byte c \<le> 102 then Some (byte c - 87)
      else if 65 \<le> byte c \<and> byte c \<le> 70 then Some (byte c - 55)
      else None)"

fun hex4 :: "string \<Rightarrow> nat option" where
  "hex4 (a # b # c # d # _) =
     (case (hex_value a, hex_value b, hex_value c, hex_value d) of
        (Some w, Some x, Some y, Some z) \<Rightarrow> Some (4096 * w + 256 * x + 16 * y + z)
      | _ \<Rightarrow> None)"
| "hex4 _ = None"

definition simple_escape :: "char \<Rightarrow> char option" where
  "simple_escape e =
     (if e = quote_char \<or> e = backslash \<or> e = CHR ''/'' then Some e
      else if e = CHR ''b'' then Some (CHR 0x08)
      else if e = CHR ''f'' then Some (CHR 0x0C)
      else if e = CHR ''n'' then Some (CHR 0x0A)
      else if e = CHR ''r'' then Some (CHR 0x0D)
      else if e = CHR ''t'' then Some (CHR 0x09)
      else None)"

text \<open>
  \<open>u_escape s\<close> reads what follows \<open>\u\<close>: the decoded bytes and how many input bytes they
  took, joining a surrogate pair and replacing a lone surrogate.
\<close>

definition u_escape :: "string \<Rightarrow> (string \<times> nat) option" where
  "u_escape s =
     (case hex4 s of
        None \<Rightarrow> None
      | Some r \<Rightarrow>
          if 55296 \<le> r \<and> r \<le> 57343 then
            (case drop 4 s of
               x # y # rest \<Rightarrow>
                 if x = backslash \<and> y = CHR ''u'' \<and> r < 56320 then
                   (case hex4 rest of
                      Some r2 \<Rightarrow>
                        if 56320 \<le> r2 \<and> r2 \<le> 57343
                        then Some (utf8_encode (65536 + (r - 55296) * 1024 + (r2 - 56320)), 10)
                        else Some (replacement, 4)
                    | None \<Rightarrow> Some (replacement, 4))
                 else Some (replacement, 4)
             | _ \<Rightarrow> Some (replacement, 4))
          else Some (utf8_encode r, 4))"

definition prepend :: "string \<Rightarrow> (string \<times> string) option \<Rightarrow> (string \<times> string) option" where
  "prepend p r = (case r of None \<Rightarrow> None | Some (s, rest) \<Rightarrow> Some (p @ s, rest))"

text \<open>The body of a string literal after its opening quote: the decoded bytes and the rest.\<close>

function parse_str :: "string \<Rightarrow> (string \<times> string) option" where
  "parse_str s =
     (case s of
        [] \<Rightarrow> None
      | c # r \<Rightarrow>
          if c = quote_char then Some ([], r)
          else if c = backslash then
            (case r of
               [] \<Rightarrow> None
             | e # r2 \<Rightarrow>
                 if e = CHR ''u'' then
                   (case u_escape r2 of
                      None \<Rightarrow> None
                    | Some (bs, n) \<Rightarrow> prepend bs (parse_str (drop n r2)))
                 else (case simple_escape e of
                         None \<Rightarrow> None
                       | Some b \<Rightarrow> prepend [b] (parse_str r2)))
          else if byte c < 32 then None
          else if byte c < 128 then prepend [c] (parse_str r)
          else if utf8_width s = 0 then prepend replacement (parse_str r)
          else prepend (take (utf8_width s) s) (parse_str (drop (utf8_width s) s)))"
  by pat_completeness auto
termination
  by (relation "measure length") auto

declare parse_str.simps [simp del]

text \<open>Number literals: the longest prefix of the JSON number grammar.\<close>

definition take_digits :: "string \<Rightarrow> string" where
  "take_digits = takeWhile is_digit"

definition int_part :: "string \<Rightarrow> string option" where
  "int_part s =
     (case s of
        [] \<Rightarrow> None
      | c # _ \<Rightarrow> if c = CHR ''0'' then Some [c] else if is_digit c then Some (take_digits s) else None)"

definition frac_part :: "string \<Rightarrow> string option" where
  "frac_part s =
     (case s of
        c # r \<Rightarrow> if c = CHR ''.'' then (if take_digits r = [] then None else Some (c # take_digits r)) else Some []
      | [] \<Rightarrow> Some [])"

definition exp_part :: "string \<Rightarrow> string option" where
  "exp_part s =
     (case s of
        c # r \<Rightarrow>
          if c = CHR ''e'' \<or> c = CHR ''E'' then
            (let sign = (case r of x # _ \<Rightarrow> if x = CHR ''+'' \<or> x = CHR ''-'' then [x] else [] | [] \<Rightarrow> []);
                 ds = take_digits (drop (length sign) r)
             in if ds = [] then None else Some (c # sign @ ds))
          else Some []
      | [] \<Rightarrow> Some [])"

definition num_prefix :: "string \<Rightarrow> string option" where
  "num_prefix s =
     (let sign = (case s of c # _ \<Rightarrow> if c = CHR ''-'' then [c] else [] | [] \<Rightarrow> []);
          s1 = drop (length sign) s
      in case int_part s1 of
           None \<Rightarrow> None
         | Some i \<Rightarrow>
             (case frac_part (drop (length i) s1) of
                None \<Rightarrow> None
              | Some f \<Rightarrow>
                  (case exp_part (drop (length i + length f) s1) of
                     None \<Rightarrow> None
                   | Some e \<Rightarrow> Some (sign @ i @ f @ e))))"

definition parse_lit :: "string \<Rightarrow> json \<Rightarrow> string \<Rightarrow> (json \<times> string) option" where
  "parse_lit lit v s = (if HasPrefix s lit then Some (v, drop (length lit) s) else None)"

definition parse_num :: "string \<Rightarrow> (json \<times> string) option" where
  "parse_num s = (case num_prefix s of None \<Rightarrow> None | Some l \<Rightarrow> Some (JNum l, drop (length l) s))"

fun parse_value :: "nat \<Rightarrow> string \<Rightarrow> (json \<times> string) option"
  and parse_elems :: "nat \<Rightarrow> string \<Rightarrow> (json list \<times> string) option"
  and parse_members :: "nat \<Rightarrow> string \<Rightarrow> ((string \<times> json) list \<times> string) option" where
  "parse_value 0 s = None"
| "parse_value (Suc n) s =
     (case skip_ws s of
        [] \<Rightarrow> None
      | c # r \<Rightarrow>
          if c = quote_char then map_option (\<lambda>(v, q). (JStr v, q)) (parse_str r)
          else if c = CHR ''['' then
            (if skip_ws r \<noteq> [] \<and> hd (skip_ws r) = CHR '']'' then Some (JArr [], tl (skip_ws r))
             else map_option (\<lambda>(v, q). (JArr v, q)) (parse_elems n r))
          else if c = CHR ''{'' then
            (if skip_ws r \<noteq> [] \<and> hd (skip_ws r) = CHR ''}'' then Some (JObj [], tl (skip_ws r))
             else map_option (\<lambda>(v, q). (JObj v, q)) (parse_members n r))
          else if c = CHR ''t'' then parse_lit ''true'' (JBool True) (c # r)
          else if c = CHR ''f'' then parse_lit ''false'' (JBool False) (c # r)
          else if c = CHR ''n'' then parse_lit ''null'' JNull (c # r)
          else parse_num (c # r))"
| "parse_elems 0 s = None"
| "parse_elems (Suc n) s =
     (case parse_value n s of
        None \<Rightarrow> None
      | Some (v, r) \<Rightarrow>
          (case skip_ws r of
             [] \<Rightarrow> None
           | c # q \<Rightarrow>
               if c = CHR '','' then map_option (\<lambda>(vs, q'). (v # vs, q')) (parse_elems n q)
               else if c = CHR '']'' then Some ([v], q) else None))"
| "parse_members 0 s = None"
| "parse_members (Suc n) s =
     (case skip_ws s of
        [] \<Rightarrow> None
      | c # r \<Rightarrow>
          if c \<noteq> quote_char then None
          else (case parse_str r of
                  None \<Rightarrow> None
                | Some (k, r2) \<Rightarrow>
                    (case skip_ws r2 of
                       [] \<Rightarrow> None
                     | d # r3 \<Rightarrow>
                         if d \<noteq> CHR '':'' then None
                         else (case parse_value n r3 of
                                 None \<Rightarrow> None
                               | Some (v, r4) \<Rightarrow>
                                   (case skip_ws r4 of
                                      [] \<Rightarrow> None
                                    | e # q \<Rightarrow>
                                        if e = CHR '','' then
                                          map_option (\<lambda>(ms, q'). ((k, v) # ms, q')) (parse_members n q)
                                        else if e = CHR ''}'' then Some ([(k, v)], q) else None)))))"

definition parse_fuel :: "string \<Rightarrow> nat" where
  "parse_fuel s = 2 * length s + 2"

definition json_parse :: "string \<Rightarrow> json option" where
  "json_parse s =
     (case parse_value (parse_fuel s) s of
        Some (v, r) \<Rightarrow> if skip_ws r = [] then Some v else None
      | None \<Rightarrow> None)"

text \<open>
  The members of a top-level object with the source text of each value, for the
  fields of type \<^verbatim>\<open>json.RawMessage\<close>, which keep the bytes they were decoded from. A
  top-level null decodes into a struct or map without setting anything.
\<close>

fun raw_members :: "nat \<Rightarrow> string \<Rightarrow> ((string \<times> string \<times> json) list \<times> string) option" where
  "raw_members 0 s = None"
| "raw_members (Suc n) s =
     (case skip_ws s of
        [] \<Rightarrow> None
      | c # r \<Rightarrow>
          if c \<noteq> quote_char then None
          else (case parse_str r of
                  None \<Rightarrow> None
                | Some (k, r2) \<Rightarrow>
                    (case skip_ws r2 of
                       [] \<Rightarrow> None
                     | d # r3 \<Rightarrow>
                         if d \<noteq> CHR '':'' then None
                         else (case parse_value (parse_fuel r3) r3 of
                                 None \<Rightarrow> None
                               | Some (v, r4) \<Rightarrow>
                                   (let raw = take (length (skip_ws r3) - length r4) (skip_ws r3)
                                    in case skip_ws r4 of
                                      [] \<Rightarrow> None
                                    | e # q \<Rightarrow>
                                        if e = CHR '','' then
                                          map_option (\<lambda>(ms, q'). ((k, raw, v) # ms, q')) (raw_members n q)
                                        else if e = CHR ''}'' then Some ([(k, raw, v)], q) else None)))))"

definition parse_object :: "string \<Rightarrow> (string \<times> string \<times> json) list option" where
  "parse_object s =
     (case skip_ws s of
        [] \<Rightarrow> None
      | c # r \<Rightarrow>
          if c \<noteq> CHR ''{'' then (if json_parse s = Some JNull then Some [] else None)
          else if skip_ws r \<noteq> [] \<and> hd (skip_ws r) = CHR ''}''
          then (if skip_ws (tl (skip_ws r)) = [] then Some [] else None)
          else (case raw_members (length r) r of
                  Some (ms, q) \<Rightarrow> if skip_ws q = [] then Some ms else None
                | None \<Rightarrow> None))"

section \<open>Decoding into struct fields\<close>

text \<open>
  A member sets the field with its exact name or, failing that, one equal to it up
  to case (folded as in \<^verbatim>\<open>encoding/json\<close>, which also maps the Kelvin sign and the
  long s). A null leaves the field; a value of another type is an error.
\<close>

fun fold_name :: "string \<Rightarrow> string" where
  "fold_name [] = []"
| "fold_name (c # s) =
     (if c = CHR 0xE2 \<and> take 2 s = [CHR 0x84, CHR 0xAA] then CHR ''k'' # fold_name (drop 2 s)
      else if c = CHR 0xC5 \<and> take 1 s = [CHR 0xBF] then CHR ''s'' # fold_name (drop 1 s)
      else to_lower c # fold_name s)"

definition match_field :: "string list \<Rightarrow> string \<Rightarrow> string option" where
  "match_field fields k =
     (if k \<in> set fields then Some k else find (\<lambda>f. fold_name f = fold_name k) fields)"

text \<open>The last member for a field, in the order of the object, ignoring nulls.\<close>

definition field_values :: "string list \<Rightarrow> string \<Rightarrow> (string \<times> json) list \<Rightarrow> json list" where
  "field_values fields f ms = map snd (filter (\<lambda>(k, v). match_field fields k = Some f) ms)"

fun set_string :: "string \<Rightarrow> json list \<Rightarrow> string option" where
  "set_string cur [] = Some cur"
| "set_string cur (JNull # vs) = set_string cur vs"
| "set_string cur (JStr s # vs) = set_string s vs"
| "set_string cur (v # vs) = None"

fun set_bool :: "bool \<Rightarrow> json list \<Rightarrow> bool option" where
  "set_bool cur [] = Some cur"
| "set_bool cur (JNull # vs) = set_bool cur vs"
| "set_bool cur (JBool b # vs) = set_bool b vs"
| "set_bool cur (v # vs) = None"

fun set_int :: "int \<Rightarrow> json list \<Rightarrow> int option" where
  "set_int cur [] = Some cur"
| "set_int cur (JNull # vs) = set_int cur vs"
| "set_int cur (JNum l # vs) = (case ParseInt l of None \<Rightarrow> None | Some n \<Rightarrow> set_int n vs)"
| "set_int cur (v # vs) = None"

text \<open>
  A slice of strings is decoded into the backing array \<open>b\<close> of the current slice: a null
  element keeps what the array holds there, a null or empty list drops the array.
  The result is the backing array and the length of the slice.
\<close>

fun dec_strings :: "string list \<Rightarrow> json list \<Rightarrow> string list option" where
  "dec_strings b [] = Some []"
| "dec_strings b (JStr s # vs) = map_option (\<lambda>r. s # r) (dec_strings (tl b) vs)"
| "dec_strings b (JNull # vs) =
     map_option (\<lambda>r. (if b = [] then [] else hd b) # r) (dec_strings (tl b) vs)"
| "dec_strings b (v # vs) = None"

fun set_strings :: "string list \<times> nat \<Rightarrow> json list \<Rightarrow> (string list \<times> nat) option" where
  "set_strings cur [] = Some cur"
| "set_strings cur (JNull # vs) = set_strings ([], 0) vs"
| "set_strings (b, n) (JArr es # vs) =
     (if es = [] then set_strings ([], 0) vs
      else (case dec_strings b es of
              None \<Rightarrow> None
            | Some r \<Rightarrow> set_strings (r @ drop (length es) b, length es) vs))"
| "set_strings cur (v # vs) = None"

text \<open>A struct inside a struct is decoded into its current value.\<close>

fun set_struct :: "('a \<Rightarrow> (string \<times> json) list \<Rightarrow> 'a option) \<Rightarrow> 'a \<Rightarrow> json list \<Rightarrow> 'a option" where
  "set_struct dec cur [] = Some cur"
| "set_struct dec cur (JNull # vs) = set_struct dec cur vs"
| "set_struct dec cur (JObj ms # vs) =
     (case dec cur ms of None \<Rightarrow> None | Some x \<Rightarrow> set_struct dec x vs)"
| "set_struct dec cur (v # vs) = None"

text \<open>A slice is its backing array and its length, as in \<open>set_strings\<close>; \<open>z\<close> is the zero element.\<close>

type_synonym 'a slice = "'a list \<times> nat"

definition slice_list :: "'a slice \<Rightarrow> 'a list" where
  "slice_list s = take (snd s) (fst s)"

fun dec_elems :: "('a \<Rightarrow> json \<Rightarrow> 'a option) \<Rightarrow> 'a \<Rightarrow> 'a list \<Rightarrow> json list \<Rightarrow> 'a list option" where
  "dec_elems dec z b [] = Some []"
| "dec_elems dec z b (v # vs) =
     (case dec (if b = [] then z else hd b) v of
        None \<Rightarrow> None
      | Some x \<Rightarrow> map_option (\<lambda>r. x # r) (dec_elems dec z (tl b) vs))"

fun set_slice :: "('a \<Rightarrow> json \<Rightarrow> 'a option) \<Rightarrow> 'a \<Rightarrow> 'a slice \<Rightarrow> json list \<Rightarrow> 'a slice option" where
  "set_slice dec z cur [] = Some cur"
| "set_slice dec z cur (JNull # vs) = set_slice dec z ([], 0) vs"
| "set_slice dec z (b, n) (JArr es # vs) =
     (if es = [] then set_slice dec z ([], 0) vs
      else (case dec_elems dec z b es of
              None \<Rightarrow> None
            | Some r \<Rightarrow> set_slice dec z (r @ drop (length es) b, length es) vs))"
| "set_slice dec z cur (v # vs) = None"

definition set_int64 :: "int64 \<Rightarrow> json list \<Rightarrow> int64 option" where
  "set_int64 cur vs = map_option word_of_int (set_int (sint cur) vs)"

text \<open>\<^verbatim>\<open>json.NewDecoder(body).Decode(&v)\<close> for a struct: the first value of the text.\<close>

definition decode_first :: "('a \<Rightarrow> (string \<times> json) list \<Rightarrow> 'a option) \<Rightarrow> 'a \<Rightarrow> string \<Rightarrow> 'a option" where
  "decode_first dec z body =
     (case parse_value (parse_fuel body) body of
        None \<Rightarrow> None
      | Some (v, rest) \<Rightarrow> set_struct dec z [v])"

section \<open>String literals round trip\<close>

lemma byte_less [simp]: "byte c < 256"
  by (rule nat_of_char_less_256)

lemma hex_value_digit [simp]: "d < 16 \<Longrightarrow> hex_value (hex_digit d) = Some d"
  by (auto simp: hex_value_def hex_digit_def is_digit_def)

lemma prepend_Some [simp]: "prepend p (Some (a, b)) = Some (p @ a, b)"
  by (simp add: prepend_def)

lemma prepend_prepend [simp]: "prepend p (prepend q r) = prepend (p @ q) r"
  by (auto simp: prepend_def split: option.splits)

lemma u_escape_u00:
  assumes "byte c < 128"
  shows "u_escape (CHR ''0'' # CHR ''0'' # hex_digit (byte c div 16) # hex_digit (byte c mod 16) # t) = Some ([c], 4)"
proof -
  have z: "hex_value (CHR ''0'') = Some 0" by (simp add: hex_value_def is_digit_def)
  have "byte c div 16 < 16" "byte c mod 16 < 16" using assms by auto
  then show ?thesis
    using assms by (simp add: u_escape_def z utf8_encode_def)
qed

lemma parse_str_escape_ascii:
  assumes "byte c < 128"
  shows "parse_str (escape_ascii c @ t) = prepend [c] (parse_str t)"
proof -
  have u: "c \<noteq> quote_char \<Longrightarrow> c \<noteq> backslash \<Longrightarrow> parse_str (u00 c @ t) = prepend [c] (parse_str t)"
    using u_escape_u00 [OF assms, of t] by (subst parse_str.simps) (simp add: u00_def)
  show ?thesis
    using assms u
    by (auto simp: escape_ascii_def html_safe_def parse_str.simps [of "_ # _"] simple_escape_def)
qed


lemma utf8_width_append:
  "0 < utf8_width s \<Longrightarrow> utf8_width (take (utf8_width s) s @ t) = utf8_width s"
  by (cases s) (auto split: list.splits if_splits)

lemma utf8_width_ascii [simp]: "byte c < 128 \<Longrightarrow> utf8_width (c # s) = 1"
  by simp

declare utf8_width.simps(2) [simp del]

lemma parse_str_rune:
  assumes "128 \<le> byte c" and "0 < utf8_width (c # s)"
  shows "parse_str (escape_rune (take (utf8_width (c # s)) (c # s)) @ t) =
           prepend (take (utf8_width (c # s)) (c # s)) (parse_str t)"
proof -
  let ?w = "take (utf8_width (c # s)) (c # s)"
  have width: "utf8_width (?w @ t) = utf8_width (c # s)"
    by (rule utf8_width_append [OF assms(2)])
  have len: "length ?w = utf8_width (c # s)"
    using utf8_width_le [of "c # s"] by simp
  obtain w' where w': "?w = c # w'" using assms(2) by (cases "utf8_width (c # s)") auto
  have n: "utf8_width (c # w' @ t) = Suc (length w')"
    using width len unfolding w' by simp
  have copy: "parse_str (?w @ t) = prepend ?w (parse_str t)"
    using assms(1) unfolding w' by (subst parse_str.simps) (auto simp: n)
  have esc: "parse_str (backslash # CHR ''u'' # a # b # d # e # t) = prepend bs (parse_str t)"
    if "u_escape (a # b # d # e # t) = Some (bs, 4)" for a b d e bs
    using that by (subst parse_str.simps) simp
  have "u_escape (''2028'' @ t) = Some ([CHR 0xE2, CHR 0x80, CHR 0xA8], 4)"
    "u_escape (''2029'' @ t) = Some ([CHR 0xE2, CHR 0x80, CHR 0xA9], 4)"
    by (simp_all add: u_escape_def hex_value_def is_digit_def utf8_encode_def) (code_simp, code_simp)
  with copy show ?thesis by (auto simp: escape_rune_def intro!: esc)
qed

lemma parse_str_quote_body:
  "valid_utf8 s \<Longrightarrow> parse_str (quote_body s @ quote_char # t) = Some (s, t)"
proof (induction s rule: quote_body.induct)
  case (1 s)
  show ?case
  proof (cases s)
    case Nil
    then show ?thesis by (simp add: quote_body.simps [of "[]"] parse_str.simps [of "quote_char # t"])
  next
    case (Cons c r)
    have w: "0 < utf8_width s" "valid_utf8 (drop (utf8_width s) s)"
      using "1.prems" Cons by (simp_all add: valid_utf8.simps [of "c # r"] split: if_splits)
    show ?thesis
    proof (cases "byte c < 128")
      case True
      then have "utf8_width s = 1" using Cons by simp
      with w Cons have "valid_utf8 r" by simp
      then show ?thesis
        using 1(1) [OF Cons True] Cons True
        by (simp add: quote_body.simps [of "c # r"] parse_str_escape_ascii)
    next
      case False
      then have "parse_str (quote_body (drop (utf8_width s) s) @ quote_char # t) = Some (drop (utf8_width s) s, t)"
        using 1(3) [OF Cons False] w by simp
      then show ?thesis
        using parse_str_rune [of c r] False w Cons
        by (simp add: quote_body.simps [of "c # r"])
    qed
  qed
qed

lemma parse_str_json_quote:
  "valid_utf8 s \<Longrightarrow> parse_str (tl (json_quote s) @ t) = Some (s, t)"
  by (simp add: json_quote_def parse_str_quote_body)

definition num_stop :: "string \<Rightarrow> bool" where
  "num_stop t \<longleftrightarrow> (case t of [] \<Rightarrow> True | c # _ \<Rightarrow>
     \<not> is_digit c \<and> c \<noteq> CHR ''.'' \<and> c \<noteq> CHR ''e'' \<and> c \<noteq> CHR ''E'' \<and> c \<noteq> CHR ''-'' \<and> c \<noteq> CHR ''+'')"

lemma take_digits_stop: "num_stop t \<Longrightarrow> take_digits (s @ t) = take_digits s"
  by (induction s) (auto simp: take_digits_def num_stop_def split: list.splits)

lemma length_take_digits: "length (take_digits s) \<le> length s"
  by (simp add: take_digits_def length_takeWhile_le)

lemma int_part_stop: "num_stop t \<Longrightarrow> int_part s = Some i \<Longrightarrow> int_part (s @ t) = Some i"
  using take_digits_stop [of t s] by (cases s) (auto simp: int_part_def split: if_splits)

lemma frac_part_stop: "num_stop t \<Longrightarrow> frac_part s = Some f \<Longrightarrow> frac_part (s @ t) = Some f"
  using take_digits_stop [of t "tl s"]
  by (cases s) (auto simp: frac_part_def num_stop_def split: if_splits list.splits)

lemma exp_part_stop: "num_stop t \<Longrightarrow> exp_part s = Some e \<Longrightarrow> exp_part (s @ t) = Some e"
proof (cases s)
  case Nil
  assume "num_stop t" "exp_part s = Some e"
  then show ?thesis using Nil by (auto simp: exp_part_def num_stop_def split: list.splits)
next
  case (Cons c r)
  assume t: "num_stop t" and e: "exp_part s = Some e"
  have d: "take_digits (r @ t) = take_digits r" "take_digits (tl r @ t) = take_digits (tl r)"
    using t by (auto intro: take_digits_stop)
  show ?thesis
    using e d Cons t
    by (cases r) (auto simp: exp_part_def Let_def num_stop_def take_digits_def split: if_splits list.splits)
qed

lemma num_prefix_stop:
  assumes "num_prefix l = Some l" and t: "num_stop t"
  shows "num_prefix (l @ t) = Some l"
proof -
  define sign where "sign = (case l of c # _ \<Rightarrow> if c = CHR ''-'' then [c] else [] | [] \<Rightarrow> [])"
  define l1 where "l1 = drop (length sign) l"
  obtain i f e where i: "int_part l1 = Some i" and f: "frac_part (drop (length i) l1) = Some f"
    and e: "exp_part (drop (length i + length f) l1) = Some e" and l: "l = sign @ i @ f @ e"
    using assms(1) unfolding num_prefix_def sign_def [symmetric] l1_def
    by (auto simp: Let_def split: option.splits)
  have ne: "l \<noteq> []" using i unfolding l1_def int_part_def by (auto split: list.splits)
  have len: "length i \<le> length l1" "length i + length f \<le> length l1"
    using l by (simp_all add: l1_def)
  have sg: "(case l @ t of c # _ \<Rightarrow> if c = CHR ''-'' then [c] else [] | [] \<Rightarrow> []) = sign"
    using ne by (cases l) (auto simp: sign_def)
  have "drop (length sign) (l @ t) = l1 @ t"
    using ne by (cases l) (auto simp: l1_def sign_def)
  then show ?thesis
    unfolding num_prefix_def sg Let_def
    using int_part_stop [OF t i] frac_part_stop [OF t f] exp_part_stop [OF t e] l len
    by simp
qed


section \<open>Values round trip\<close>

fun json_wf :: "json \<Rightarrow> bool" where
  "json_wf (JNum l) = (num_prefix l = Some l)"
| "json_wf (JStr s) = valid_utf8 s"
| "json_wf (JArr vs) = list_all json_wf vs"
| "json_wf (JObj ms) = list_all (\<lambda>(k, v). valid_utf8 k \<and> json_wf v) ms"
| "json_wf _ = True"

fun need :: "json \<Rightarrow> nat" where
  "need (JArr vs) = Suc (sum_list (map (\<lambda>v. Suc (need v)) vs))"
| "need (JObj ms) = Suc (sum_list (map (\<lambda>(k, v). Suc (need v)) ms))"
| "need _ = 1"

lemma skip_ws_simps [simp]:
  "skip_ws [] = []" "\<not> is_ws c \<Longrightarrow> skip_ws (c # s) = c # s"
  by (simp_all add: skip_ws_def)

lemma not_ws [simp]:
  "\<not> is_ws quote_char" "\<not> is_ws (CHR ''['')" "\<not> is_ws (CHR '']'')" "\<not> is_ws (CHR ''{'')" "\<not> is_ws (CHR ''}'')"
  "\<not> is_ws (CHR '','')" "\<not> is_ws (CHR '':'')" "\<not> is_ws (CHR ''t'')" "\<not> is_ws (CHR ''f'')" "\<not> is_ws (CHR ''n'')"
  by (simp_all add: is_ws_def)

lemma num_head:
  assumes "num_prefix l = Some l"
  obtains c r where "l = c # r" and "c = CHR ''-'' \<or> is_digit c"
proof (cases l)
  case Nil
  with assms show ?thesis by (simp add: num_prefix_def int_part_def)
next
  case (Cons c r)
  with assms have "c = CHR ''-'' \<or> is_digit c"
    by (auto simp: num_prefix_def int_part_def Let_def is_digit_def split: if_splits option.splits)
  with Cons that show ?thesis by blast
qed

lemma json_print_head:
  assumes "json_wf j"
  obtains c r where "json_print j = c # r" and "\<not> is_ws c" and "c \<noteq> CHR '']''" and "c \<noteq> CHR ''}''"
proof (cases j)
  case (JNum l)
  with assms have "num_prefix l = Some l" by simp
  then obtain c r where l: "l = c # r" and c: "c = CHR ''-'' \<or> is_digit c" by (rule num_head)
  have "\<not> is_ws c" "c \<noteq> CHR '']''" "c \<noteq> CHR ''}''" using c by (auto simp: is_ws_def is_digit_def)
  with JNum l that show ?thesis by simp
next
  case (JBool b)
  with that show ?thesis by (cases b) simp_all
qed (use that in \<open>auto simp: json_quote_def split: if_splits\<close>)

lemma num_stop_simps [simp]:
  "num_stop []" "num_stop (CHR '','' # t)" "num_stop (CHR '']'' # t)" "num_stop (CHR ''}'' # t)"
  by (simp_all add: num_stop_def is_digit_def)

abbreviation reads :: "json \<Rightarrow> bool" where
  "reads j \<equiv> (\<forall>n t. need j \<le> n \<longrightarrow> num_stop t \<longrightarrow> parse_value n (json_print j @ t) = Some (j, t))"

lemma parse_elems_print:
  assumes "vs \<noteq> []" and "\<forall>v\<in>set vs. reads v" and "sum_list (map (\<lambda>v. Suc (need v)) vs) \<le> n"
  shows "parse_elems n (Join (map json_print vs) '','' @ CHR '']'' # t) = Some (vs, t)"
  using assms
proof (induction vs arbitrary: n)
  case (Cons v vs)
  then obtain m where n: "n = Suc m" by (cases n) auto
  show ?case
  proof (cases vs)
    case Nil
    then show ?thesis using Cons.prems n by simp
  next
    case (Cons w ws)
    have "parse_elems m (Join (map json_print vs) '','' @ CHR '']'' # t) = Some (vs, t)"
      using Cons.prems n Cons by (intro Cons.IH) auto
    then show ?thesis using Cons.prems n Cons by simp
  qed
qed simp

lemma parse_members_print:
  assumes "ms \<noteq> []" and "\<forall>(k, v)\<in>set ms. valid_utf8 k \<and> reads v"
    and "sum_list (map (\<lambda>(k, v). Suc (need v)) ms) \<le> n"
  shows "parse_members n (Join (map (\<lambda>(k, v). json_quote k @ '':'' @ json_print v) ms) '','' @ CHR ''}'' # t)
           = Some (ms, t)"
  using assms
proof (induction ms arbitrary: n)
  case (Cons m ms)
  then obtain n' where n: "n = Suc n'" by (cases n) auto
  obtain k v where m: "m = (k, v)" by (cases m)
  have k: "parse_str (quote_body k @ quote_char # u) = Some (k, u)" for u
    using Cons.prems m by (auto intro: parse_str_quote_body)
  show ?case
  proof (cases ms)
    case Nil
    then show ?thesis using Cons.prems n m k by (simp add: json_quote_def)
  next
    case (Cons w ws)
    have "parse_members n' (Join (map (\<lambda>(k, v). json_quote k @ '':'' @ json_print v) ms) '','' @ CHR ''}'' # t)
        = Some (ms, t)"
      using Cons.prems n Cons by (intro Cons.IH) auto
    then show ?thesis using Cons.prems n m k Cons by (simp add: json_quote_def)
  qed
qed simp


lemma reads_scalar:
  assumes "json_wf j" and "\<And>vs. j \<noteq> JArr vs" and "\<And>ms. j \<noteq> JObj ms"
  shows "reads j"
proof (intro allI impI)
  fix n t assume "need j \<le> n" and t: "num_stop t"
  then obtain m where n: "n = Suc m" by (cases n; cases j) auto
  show "parse_value n (json_print j @ t) = Some (j, t)"
  proof (cases j)
    case (JNum l)
    with assms(1) have l: "num_prefix l = Some l" by simp
    then obtain c r where c: "l = c # r" "c = CHR ''-'' \<or> is_digit c" by (rule num_head)
    have "\<not> is_ws c" "c \<noteq> quote_char" "c \<noteq> CHR ''[''" "c \<noteq> CHR ''{''" "c \<noteq> CHR ''t''" "c \<noteq> CHR ''f''" "c \<noteq> CHR ''n''"
      using c(2) by (auto simp: is_ws_def is_digit_def)
    then show ?thesis
      using num_prefix_stop [OF l t] JNum n c(1) by (simp add: parse_num_def)
  next
    case (JStr s)
    then show ?thesis using assms(1) n by (simp add: json_quote_def parse_str_quote_body)
  next
    case (JBool b)
    then show ?thesis using n by (cases b) (simp_all add: parse_lit_def HasPrefix_def)
  next
    case JNull
    then show ?thesis using n by (simp add: parse_lit_def HasPrefix_def)
  qed (use assms in auto)
qed

lemma Join_head:
  assumes "vs \<noteq> []" and "json_wf (hd vs)"
  shows "skip_ws (Join (map json_print vs) '','' @ t) \<noteq> [] \<and>
         hd (skip_ws (Join (map json_print vs) '','' @ t)) \<noteq> CHR '']''"
proof -
  obtain v vs' where vs: "vs = v # vs'" using assms(1) by (cases vs) auto
  obtain c r where "json_print v = c # r" "\<not> is_ws c" "c \<noteq> CHR '']''" "c \<noteq> CHR ''}''"
    using assms(2) vs by (auto elim: json_print_head)
  then show ?thesis using vs by (cases vs') auto
qed

lemma json_reads: "json_wf j \<Longrightarrow> reads j"
proof (induction j)
  case (JArr vs)
  show ?case
  proof (intro allI impI)
    fix n t assume "need (JArr vs) \<le> n" and "num_stop t"
    then obtain m where n: "n = Suc m" "sum_list (map (\<lambda>v. Suc (need v)) vs) \<le> m" by (cases n) auto
    show "parse_value n (json_print (JArr vs) @ t) = Some (JArr vs, t)"
    proof (cases "vs = []")
      case True
      then show ?thesis using n by simp
    next
      case False
      have "\<forall>v\<in>set vs. reads v" using JArr by (auto simp: list_all_iff)
      from parse_elems_print [OF False this n(2)] show ?thesis
        using Join_head [OF False, of "CHR '']'' # t"] JArr.prems False n(1)
        by (cases vs) auto
    qed
  qed
next
  case (JObj ms)
  show ?case
  proof (intro allI impI)
    fix n t assume "need (JObj ms) \<le> n" and "num_stop t"
    then obtain m where n: "n = Suc m" "sum_list (map (\<lambda>(k, v). Suc (need v)) ms) \<le> m" by (cases n) auto
    show "parse_value n (json_print (JObj ms) @ t) = Some (JObj ms, t)"
    proof (cases "ms = []")
      case True
      then show ?thesis using n by simp
    next
      case False
      have "\<forall>(k, v)\<in>set ms. valid_utf8 k \<and> reads v" using JObj by (fastforce simp: list_all_iff)
      from parse_members_print [OF False this n(2)] show ?thesis
        using False n(1) by (cases ms; cases "tl ms") (auto simp: json_quote_def)
    qed
  qed
qed (rule reads_scalar; simp)+

lemma length_Join: "length (Join ps '','') = sum_list (map length ps) + (length ps - 1)"
  by (induction ps "'',''" rule: Join.induct) auto

lemma sum_list_need:
  "\<forall>x\<in>set xs. f x \<le> 2 * g x \<Longrightarrow>
   sum_list (map (\<lambda>x. Suc (f x)) xs) \<le> 2 * sum_list (map g xs) + length xs"
  by (induction xs) auto

lemma need_le: "json_wf j \<Longrightarrow> need j \<le> 2 * length (json_print j)"
proof (induction j)
  case (JArr vs)
  then have "\<forall>v\<in>set vs. need v \<le> 2 * length (json_print v)" by (auto simp: list_all_iff)
  from sum_list_need [OF this] show ?case by (simp add: length_Join comp_def)
next
  case (JObj ms)
  then have "\<forall>m\<in>set ms. need (snd m) \<le> 2 * length (json_quote (fst m) @ '':'' @ json_print (snd m))"
    by (fastforce simp: list_all_iff)
  from sum_list_need [OF this] show ?case by (simp add: length_Join comp_def case_prod_unfold)
next
  case (JNum l)
  then obtain c r where "l = c # r" by (auto elim: num_head)
  then show ?case by simp
qed (auto simp: json_quote_def)

lemma parse_print_value:
  assumes "json_wf j" and "num_stop t" and "2 * length (json_print j) \<le> n"
  shows "parse_value n (json_print j @ t) = Some (j, t)"
  using json_reads [OF assms(1)] need_le [OF assms(1)] assms(2,3) by simp

lemma parse_print_fuel:
  "json_wf j \<Longrightarrow> num_stop t \<Longrightarrow> parse_value (parse_fuel (json_print j @ t)) (json_print j @ t) = Some (j, t)"
  by (rule parse_print_value) (simp_all add: parse_fuel_def)

lemma parse_print: "json_wf j \<Longrightarrow> json_parse (json_print j) = Some j"
  using parse_print_fuel [of j "[]"] by (simp add: json_parse_def)

lemma skip_ws_print: "json_wf v \<Longrightarrow> skip_ws (json_print v @ t) = json_print v @ t"
  by (erule json_print_head) simp

definition with_raw :: "(string \<times> json) list \<Rightarrow> (string \<times> string \<times> json) list" where
  "with_raw = map (\<lambda>(k, v). (k, json_print v, v))"

lemma raw_members_print:
  assumes "ms \<noteq> []" and "json_wf (JObj ms)" and "length ms \<le> n"
  shows "raw_members n (Join (map (\<lambda>(k, v). json_quote k @ '':'' @ json_print v) ms) '','' @ CHR ''}'' # t)
           = Some (with_raw ms, t)"
  using assms
proof (induction ms arbitrary: n)
  case (Cons m ms)
  then obtain n' where n: "n = Suc n'" "length ms \<le> n'" by (cases n) auto
  obtain k v where m: "m = (k, v)" by (cases m)
  have wf: "json_wf v" "json_wf (JObj ms)" "valid_utf8 k" using Cons.prems m by simp_all
  have k: "parse_str (quote_body k @ quote_char # u) = Some (k, u)" for u
    by (rule parse_str_quote_body [OF wf(3)])
  note steps = skip_ws_print [OF wf(1)] k with_raw_def json_quote_def
  show ?case
  proof (cases ms)
    case Nil
    then show ?thesis using n m parse_print_fuel [OF wf(1), of "CHR ''}'' # t"] by (simp add: steps)
  next
    case (Cons w ws)
    have "raw_members n' (Join (map (\<lambda>(k, v). json_quote k @ '':'' @ json_print v) ms) '','' @ CHR ''}'' # t)
        = Some (with_raw ms, t)"
      using Cons n wf by (intro Cons.IH) auto
    then show ?thesis
      using n m Cons parse_print_fuel [OF wf(1), of "'','' @ Join (map (\<lambda>(k, v). json_quote k @ '':'' @ json_print v) ms) '','' @ CHR ''}'' # t"]
      by (simp add: steps)
  qed
qed simp

lemma parse_object_print:
  assumes "json_wf (JObj ms)"
  shows "parse_object (json_print (JObj ms)) = Some (with_raw ms)"
proof (cases "ms = []")
  case True
  then show ?thesis by (simp add: parse_object_def with_raw_def)
next
  case False
  let ?b = "Join (map (\<lambda>(k, v). json_quote k @ '':'' @ json_print v) ms) '','' @ [CHR ''}'']"
  have len: "length ms \<le> length ?b" using False by (cases ms) (auto simp: length_Join)
  have hd: "skip_ws ?b \<noteq> [] \<and> hd (skip_ws ?b) \<noteq> CHR ''}''"
    using False by (cases ms; cases "tl ms") (auto simp: json_quote_def)
  show ?thesis
    using raw_members_print [OF False assms len, of "[]"] hd by (simp add: parse_object_def)
qed

section \<open>The fuel is enough\<close>

lemma skip_ws_length: "length (skip_ws s) \<le> length s"
  by (simp add: skip_ws_def length_dropWhile_le)

lemma skip_ws_Cons_length: "skip_ws s = c # r \<Longrightarrow> length r < length s"
  using skip_ws_length [of s] by simp

lemma prepend_SomeD: "prepend p r = Some (x, y) \<Longrightarrow> \<exists>z. r = Some (z, y)"
  by (auto simp: prepend_def split: option.splits)

lemma parse_str_call:
  assumes "parse_str s = Some (x, r)"
  shows "s \<noteq> [] \<and> (r = tl s \<or> (\<exists>s' z. length s' < length s \<and> parse_str s' = Some (z, r)))"
proof (cases s)
  case Nil
  with assms show ?thesis by (simp add: parse_str.simps [of "[]"])
next
  case (Cons c q)
  have call: ?thesis if "prepend p (parse_str s') = Some (x, r)" "length s' < length s" for p s'
    using prepend_SomeD [OF that(1)] that(2) Cons by blast
  have u: ?thesis if "q = e # q2" "prepend bs (parse_str (drop n q2)) = Some (x, r)" for e q2 bs n
    using that Cons by (intro call) auto
  have w: ?thesis if "prepend p (parse_str (drop (utf8_width s) s)) = Some (x, r)" "utf8_width s \<noteq> 0" for p
    using that Cons by (intro call) auto
  from assms [unfolded parse_str.simps [of s]] show ?thesis
    using Cons call [of _ q] call [of _ "tl q"] u w
    by (simp split: if_splits list.splits option.splits prod.splits)
qed

lemma parse_str_shorter: "parse_str s = Some (x, r) \<Longrightarrow> length r < length s"
proof (induction "length s" arbitrary: s x rule: less_induct)
  case less
  then consider "s \<noteq> []" "r = tl s" | s' z where "length s' < length s" "parse_str s' = Some (z, r)"
    using parse_str_call by blast
  then show ?case
  proof cases
    case 1
    then show ?thesis by simp
  next
    case 2
    then show ?thesis using less.hyps [OF 2] by simp
  qed
qed

lemma parse_lit_shorter: "parse_lit (a # l) v s = Some (w, r) \<Longrightarrow> length r < length s"
  by (cases s) (auto simp: parse_lit_def HasPrefix_def split: if_splits)

lemma parse_num_shorter: "parse_num s = Some (w, r) \<Longrightarrow> length r < length s"
  by (cases s) (auto simp: parse_num_def num_prefix_def int_part_def Let_def take_digits_def
        split: if_splits option.splits list.splits)

lemma parse_value_shorter:
  shows "parse_value n s = Some (v, r) \<Longrightarrow> length r < length s"
    and "parse_elems n s = Some (vs, r) \<Longrightarrow> length r < length s"
    and "parse_members n s = Some (ms, r) \<Longrightarrow> length r < length s"
proof (induction n s and n s and n s arbitrary: v r and vs r and ms r
    rule: parse_value_parse_elems_parse_members.induct)
  case (2 n s)
  then show ?case
    using skip_ws_length [of s] skip_ws_length [of "tl (skip_ws s)"]
    by (fastforce split: list.splits if_splits dest: parse_str_shorter parse_lit_shorter parse_num_shorter)
next
  case (4 n s)
  then show ?case
    by (fastforce split: list.splits if_splits option.splits dest: skip_ws_Cons_length)
next
  case (6 n s)
  then show ?case
    by (fastforce split: list.splits if_splits option.splits dest: skip_ws_Cons_length parse_str_shorter)
qed simp_all

text \<open>
  Fuel \<open>k\<close> gives a value what fuel \<open>m\<close> gives it, if it does so for the elements of the
  array or the members of the object that the value opens.
\<close>

lemma parse_value_fuel_step:
  assumes "parse_value (Suc m) s = Some x"
    and "\<And>r y. \<lbrakk>skip_ws s = CHR ''['' # r; \<not> (skip_ws r \<noteq> [] \<and> hd (skip_ws r) = CHR '']''); parse_elems m r = Some y\<rbrakk>
           \<Longrightarrow> parse_elems k r = Some y"
    and "\<And>r z. \<lbrakk>skip_ws s = CHR ''{'' # r; \<not> (skip_ws r \<noteq> [] \<and> hd (skip_ws r) = CHR ''}''); parse_members m r = Some z\<rbrakk>
           \<Longrightarrow> parse_members k r = Some z"
  shows "parse_value (Suc k) s = Some x"
proof -
  from assms(1) obtain c r where c: "skip_ws s = c # r" by (auto split: list.splits)
  let ?closed = "\<lambda>b. skip_ws r \<noteq> [] \<and> hd (skip_ws r) = b"
  consider (arr) "c = CHR ''[''" "\<not> ?closed (CHR '']'')" | (obj) "c = CHR ''{''" "\<not> ?closed (CHR ''}'')"
    | (other) "c = CHR ''['' \<longrightarrow> ?closed (CHR '']'')" "c = CHR ''{'' \<longrightarrow> ?closed (CHR ''}'')"
    by blast
  then show ?thesis
  proof cases
    case arr
    with assms(1) c obtain y where y: "parse_elems m r = Some y" by (cases "parse_elems m r") simp_all
    show ?thesis using assms(1) unfolding parse_value.simps
      by (simp add: c arr(1) if_not_P [OF arr(2)] y assms(2) [OF c [unfolded arr(1)] arr(2) y])
  next
    case obj
    with assms(1) c obtain z where z: "parse_members m r = Some z" by (cases "parse_members m r") simp_all
    show ?thesis using assms(1) unfolding parse_value.simps
      by (simp add: c obj(1) if_not_P [OF obj(2)] z assms(3) [OF c [unfolded obj(1)] obj(2) z])
  next
    case other
    then have "parse_value (Suc k) s = parse_value (Suc m) s" using c by simp
    then show ?thesis using assms(1) by simp
  qed
qed

lemma parse_any_fuel:
  shows "parse_value m s = Some x \<Longrightarrow> 2 * length s < n \<Longrightarrow> parse_value n s = Some x"
    and "parse_elems m s = Some y \<Longrightarrow> Suc (2 * length s) < n \<Longrightarrow> parse_elems n s = Some y"
    and "parse_members m s = Some z \<Longrightarrow> Suc (2 * length s) < n \<Longrightarrow> parse_members n s = Some z"
proof (induction m s and m s and m s arbitrary: n x and n y and n z
    rule: parse_value_parse_elems_parse_members.induct)
  case (2 m s)
  from "2.prems"(2) obtain k where n: "n = Suc k" "2 * length s \<le> k" by (cases n) auto
  have len: "Suc (2 * length r) < k" if "skip_ws s = c # r" for c r using skip_ws_Cons_length [OF that] n by simp
  show ?case
    unfolding n(1)
  proof (rule parse_value_fuel_step [OF "2.prems"(1)])
    fix r y assume "skip_ws s = CHR ''['' # r" "\<not> (skip_ws r \<noteq> [] \<and> hd (skip_ws r) = CHR '']'')" "parse_elems m r = Some y"
    then show "parse_elems k r = Some y" using "2.IH"(1) [OF _ _ refl _ _ len] by simp
  next
    fix r z assume "skip_ws s = CHR ''{'' # r" "\<not> (skip_ws r \<noteq> [] \<and> hd (skip_ws r) = CHR ''}'')" "parse_members m r = Some z"
    then show "parse_members k r = Some z" using "2.IH"(2) [OF _ _ _ refl _ _ len] by simp
  qed
next
  case (4 m s)
  from "4.prems"(2) obtain k where n: "n = Suc k" "2 * length s < k" by (cases n) auto
  from "4.prems"(1) obtain v r c q where v: "parse_value m s = Some (v, r)" and c: "skip_ws r = c # q"
    by (auto split: option.splits list.splits)
  have q: "Suc (2 * length q) < k"
    using skip_ws_Cons_length [OF c] parse_value_shorter(1) [OF v] n by simp
  have v': "parse_value k s = Some (v, r)" by (rule "4.IH"(1) [OF v n(2)])
  have el: "parse_elems k q = Some y" if "c = CHR '',''" "parse_elems m q = Some y" for y
    using "4.IH"(2) [OF v _ c that(1,2) q] by simp
  show ?case
    using "4.prems"(1) unfolding n(1) parse_elems.simps
    by (auto simp: v v' c el split: if_splits)
next
  case (6 m s)
  from "6.prems"(2) obtain k where n: "n = Suc k" "2 * length s < k" by (cases n) auto
  from "6.prems"(1) obtain r k' r2 r3 v r4 e q where c: "skip_ws s = quote_char # r"
    and k': "parse_str r = Some (k', r2)" and d: "skip_ws r2 = CHR '':'' # r3"
    and v: "parse_value m r3 = Some (v, r4)" and e: "skip_ws r4 = e # q"
    by (auto split: option.splits list.splits if_splits)
  have len: "2 * length r3 < k" "Suc (2 * length q) < k"
    using skip_ws_Cons_length [OF c] skip_ws_Cons_length [OF d] skip_ws_Cons_length [OF e]
      parse_str_shorter [OF k'] parse_value_shorter(1) [OF v] n by simp_all
  have v': "parse_value k r3 = Some (v, r4)"
    using "6.IH"(1) [OF c _ k' _ d _ v len(1)] by simp
  have me: "parse_members k q = Some y" if "e = CHR '',''" "parse_members m q = Some y" for y
    using "6.IH"(2) [OF c _ k' _ d _ v _ e that(1,2) len(2)] by simp
  show ?case
    using "6.prems"(1) unfolding n(1) parse_members.simps
    by (auto simp: c k' d v v' e me split: if_splits)
qed simp_all

text \<open>A text that parses with any amount of fuel parses with the amount \<open>json_parse\<close> supplies.\<close>

lemma parse_fuel_enough: "parse_value m s = Some x \<Longrightarrow> parse_value (parse_fuel s) s = Some x"
  by (rule parse_any_fuel(1)) (simp_all add: parse_fuel_def)

lemma raw_members_fuel: "raw_members m s = Some x \<Longrightarrow> length s \<le> n \<Longrightarrow> raw_members n s = Some x"
proof (induction m s arbitrary: n x rule: raw_members.induct)
  case (2 m s)
  from "2.prems"(1) obtain r k' r2 r3 v r4 e q where c: "skip_ws s = quote_char # r"
    and k': "parse_str r = Some (k', r2)" and d: "skip_ws r2 = CHR '':'' # r3"
    and v: "parse_value (parse_fuel r3) r3 = Some (v, r4)" and e: "skip_ws r4 = e # q"
    by (auto split: option.splits list.splits if_splits simp: Let_def)
  have q: "length q < length s"
    using skip_ws_Cons_length [OF c] skip_ws_Cons_length [OF d] skip_ws_Cons_length [OF e]
      parse_str_shorter [OF k'] parse_value_shorter(1) [OF v] by simp
  with "2.prems"(2) obtain n' where n: "n = Suc n'" "length q \<le> n'" by (cases n) auto
  have rest: "raw_members n' q = Some y" if "e = CHR '',''" "raw_members m q = Some y" for y
    using "2.IH" [OF c _ k' _ d _ v _ _ e that(1,2) n(2)] by simp
  show ?case
    using "2.prems"(1) c k' d v e n by (auto simp: Let_def rest split: if_splits)
qed simp

section \<open>Printed numbers are numbers\<close>

lemma num_prefix_Itoa: "num_prefix (Itoa n) = Some (Itoa n)"
proof -
  have ip: "int_part (nat_digits m) = Some (nat_digits m)" for m
  proof -
    obtain d r where d: "nat_digits m = digit_char d # r" "d < 10" "d = 0 \<longrightarrow> r = []"
      using nat_digits_Cons by blast
    have "digit_char d = CHR ''0'' \<longleftrightarrow> d = 0"
      using digit_char_digit [OF d(2)] of_char_eq_iff [where 'a = nat, of "digit_char d" "CHR ''0''"] by simp
    moreover have "take_digits (nat_digits m) = nat_digits m"
      using nat_digits_digits [of m] by (simp add: take_digits_def list_all_iff takeWhile_eq_all_conv)
    ultimately show ?thesis using d digit_char_digit [OF d(2)] by (auto simp: int_part_def)
  qed
  obtain d r where d: "nat_digits (nat \<bar>n\<bar>) = digit_char d # r" "d < 10"
    using nat_digits_Cons by blast
  have "digit_char d \<noteq> CHR ''-''" using digit_char_digit [OF d(2)] by (auto simp: is_digit_def)
  then show ?thesis
    using d ip [of "nat n"] ip [of "nat (- n)"]
    by (auto simp: num_prefix_def Itoa_def Let_def frac_part_def exp_part_def)
qed

section \<open>Joining and splitting UTF-8\<close>

lemma utf8_width_stop:
  assumes "a \<noteq> []" and "byte c < 128"
  shows "utf8_width (a @ c # b) \<le> length a"
proof -
  obtain x r where a: "a = x # r" using assms(1) by (cases a) auto
  have c: "\<not> tail_byte c" "\<not> cont 128 143 c" "\<not> cont 128 159 c" "\<not> cont 144 191 c" "\<not> cont 160 191 c"
    using assms(2) by (auto simp: cont_def)
  show ?thesis
  proof (cases r)
    case Nil
    then show ?thesis using a c by (simp add: utf8_width.simps(2) split: list.splits)
  next
    case (Cons y r2)
    show ?thesis
    proof (cases r2)
      case Nil
      then show ?thesis using a c Cons by (simp add: utf8_width.simps(2) split: list.splits)
    next
      case (Cons z r3)
      then show ?thesis using a c \<open>r = y # r2\<close> by (cases r3) (simp_all add: utf8_width.simps(2) split: list.splits)
    qed
  qed
qed

lemma valid_utf8_split:
  assumes "valid_utf8 (a @ c # b)" and "byte c < 128"
  shows "valid_utf8 b"
  using assms(1)
proof (induction a rule: length_induct)
  case (1 a)
  show ?case
  proof (cases "a = []")
    case False
    let ?s = "a @ c # b" and ?w = "utf8_width (a @ c # b)"
    have w: "?w \<noteq> 0" "valid_utf8 (drop ?w ?s)"
      using 1(2) valid_utf8.simps [of ?s] by (auto split: if_splits)
    moreover have "?w \<le> length a" by (rule utf8_width_stop [OF False assms(2)])
    ultimately have "length (drop ?w a) < length a" "valid_utf8 (drop ?w a @ c # b)" using False by simp_all
    then show ?thesis using 1(1) by blast
  qed (use 1(2) assms(2) in simp)
qed

lemma valid_utf8_append:
  "valid_utf8 a \<Longrightarrow> valid_utf8 b \<Longrightarrow> valid_utf8 (a @ b)"
proof (induction a rule: length_induct)
  case (1 a)
  show ?case
  proof (cases "a = []")
    case False
    let ?w = "utf8_width a"
    have w: "?w \<noteq> 0" "valid_utf8 (drop ?w a)" "?w \<le> length a"
      using 1(2) False valid_utf8.simps [of a] utf8_width_le by (auto split: if_splits)
    then have "utf8_width (a @ b) = ?w" using utf8_width_append [of a "drop ?w a @ b"] by (simp flip: append_assoc)
    moreover have "valid_utf8 (drop ?w a @ b)" using 1 w False by simp
    ultimately show ?thesis using False w valid_utf8.simps [of "a @ b"] by simp
  qed (use 1 in simp)
qed

section \<open>Slices round trip\<close>

lemma dec_elems_map:
  assumes "\<And>x. x \<in> set xs \<Longrightarrow> dec z (f x) = Some x"
  shows "dec_elems dec z [] (map f xs) = Some xs"
  using assms by (induction xs) simp_all

lemma set_slice_map:
  assumes "\<And>x. x \<in> set xs \<Longrightarrow> dec z (f x) = Some x"
  shows "map_option slice_list (set_slice dec z ([], 0) [JArr (map f xs)]) = Some xs"
  using dec_elems_map [of xs dec z f] assms by (simp add: slice_list_def)

lemma decode_first_print:
  "json_wf v \<Longrightarrow> num_stop t \<Longrightarrow> decode_first dec z (json_print v @ t) = set_struct dec z [v]"
  by (simp add: decode_first_def parse_print_fuel)

lemma set_int64_print [simp]: "set_int64 cur [JNum (Itoa (sint (n :: int64)))] = Some n"
proof -
  have "ParseInt (Itoa (sint n)) = Some (sint n)"
    by (rule ParseInt_Itoa) (use sint_greater_eq [of n] sint_lt [of n] in simp_all)
  then show ?thesis by (simp add: set_int64_def)
qed

lemma set_int64_none [simp]: "set_int64 cur [] = Some cur"
  by (simp add: set_int64_def)

end
