(* ===== verification/Request_Id.thy ===== *)
theory Request_Id
  imports Http
begin

text \<open>
  Package \<^verbatim>\<open>requestid\<close> (\<^verbatim>\<open>src/requestid/requestid.go\<close>): the correlation id in the
  context and its propagation onto outbound requests. A nil request is \<open>None\<close>;
  a nil header map is the empty map.
\<close>

definition HeaderName :: string where
  "HeaderName = ''X-Request-ID''"

definition requestid_NewContext :: "ctx \<Rightarrow> string \<Rightarrow> ctx" where
  "requestid_NewContext c i = (if i = [] then c else WithValue c RequestIDKey (CtxString i))"

definition requestid_FromContext :: "ctx \<Rightarrow> string" where
  "requestid_FromContext c = ctx_string c RequestIDKey"

definition WithRequestIDPropagation :: "ctx \<Rightarrow> request option \<Rightarrow> request option" where
  "WithRequestIDPropagation c req =
     (case req of
        None \<Rightarrow> None
      | Some r \<Rightarrow>
          if rget r HeaderName \<noteq> [] then Some r
          else if requestid_FromContext c \<noteq> []
               then Some (r\<lparr>req_header := hset HeaderName (requestid_FromContext c) (req_header r)\<rparr>)
               else Some r)"

lemma requestid_context_roundtrip [simp]:
  "requestid_FromContext (requestid_NewContext c i) = (if i = [] then requestid_FromContext c else i)"
  by (simp add: requestid_NewContext_def requestid_FromContext_def)

lemma propagated_header:
  assumes "WithRequestIDPropagation c (Some r) = Some r'"
  shows "rget r' HeaderName =
           (if rget r HeaderName \<noteq> [] then rget r HeaderName else requestid_FromContext c)"
    and "CanonicalHeaderKey k \<noteq> CanonicalHeaderKey HeaderName \<Longrightarrow> rget r' k = rget r k"
  using assms by (auto simp: WithRequestIDPropagation_def split: if_splits)

end
