(* ===== verification/Tenant.thy ===== *)
theory Tenant
  imports Http
begin

text \<open>
  Package \<^verbatim>\<open>tenant\<close> (\<^verbatim>\<open>src/tenant/tenant.go\<close>, \<^verbatim>\<open>src/tenant/tenant_with_id.go\<close>): resolution of
  the tenant of a request, the TTL cache of resolved identities, the middleware
  and \<^verbatim>\<open>Require\<close>.

  The callbacks of \<^verbatim>\<open>MiddlewareConfig\<close> are supplied by the services and are
  parameters: functions from their arguments to the Go pair of a result and an
  error (\<open>None\<close> is nil); a nil callback is \<open>None\<close>. Each is called at most once per
  request, so a callback with state is a different function per request.
  Readings of the clock during one request are \<open>now 0\<close>, \<open>now 1\<close> and so on. The
  warnings logged with \<^verbatim>\<open>slog\<close> are part of the result.
\<close>

section \<open>Model\<close>

record AuthDetails =
  ad_Source :: string
  ad_AuthUID :: string
  ad_Email :: string

record MiddlewareConfig =
  ResolveV2 :: "(ctx \<Rightarrow> string \<Rightarrow> string \<Rightarrow> string \<times> go_error) option"
  AutoProvisionV2 :: "(ctx \<Rightarrow> AuthDetails \<Rightarrow> string \<times> go_error) option"
  ServiceToken :: string
  CacheTTL :: duration
  SessionResolver :: "(ctx \<Rightarrow> string \<Rightarrow> string \<times> go_error) option"

datatype tenant_log =
    XTenantIDWithoutServiceToken string string
  | ServiceTokenMissing string string
  | ResolveFailed string string string
  | AutoProvisionFailed string string string

subsection \<open>The identity cache\<close>

record uidCacheEntry =
  ce_tenantID :: string
  ce_expires :: time

record uidCache =
  uc_m :: "string \<rightharpoonup> uidCacheEntry"
  uc_ttl :: duration

definition newUIDCache :: "duration \<Rightarrow> uidCache" where
  "newUIDCache ttl = \<lparr>uc_m = Map.empty, uc_ttl = (if ttl \<le> 0 then 5 * minute else ttl)\<rparr>"

definition uid_key :: "string \<Rightarrow> string \<Rightarrow> string" where
  "uid_key source authUID = source @ '':'' @ authUID"

text \<open>
  \<^verbatim>\<open>get\<close> has two critical sections: the read under the read lock and, when the entry
  read was expired, the deletion under the write lock, which checks the entry
  again. They are separate operations, so that other goroutines can run between
  them; \<open>uid_get\<close> is their composition.
\<close>

definition uid_read :: "time \<Rightarrow> uidCache \<Rightarrow> string \<Rightarrow> string \<times> bool" where
  "uid_read t c k =
     (case uc_m c k of
        None \<Rightarrow> ([], False)
      | Some e \<Rightarrow> if ce_expires e < t then ([], True) else (ce_tenantID e, False))"

definition uid_evict :: "time \<Rightarrow> string \<Rightarrow> uidCache \<Rightarrow> uidCache" where
  "uid_evict t k c =
     (case uc_m c k of
        None \<Rightarrow> c
      | Some e \<Rightarrow> if ce_expires e < t then c\<lparr>uc_m := (uc_m c)(k := None)\<rparr> else c)"

definition uid_get :: "time \<Rightarrow> time \<Rightarrow> string \<Rightarrow> string \<Rightarrow> uidCache \<Rightarrow> string \<times> uidCache" where
  "uid_get t t' source authUID c =
     (let k = uid_key source authUID; (tid, expired) = uid_read t c k
      in (tid, if expired then uid_evict t' k c else c))"

definition uid_set :: "time \<Rightarrow> string \<Rightarrow> string \<Rightarrow> string \<Rightarrow> uidCache \<Rightarrow> uidCache" where
  "uid_set t source authUID tid c =
     c\<lparr>uc_m := (uc_m c)(uid_key source authUID \<mapsto> \<lparr>ce_tenantID = tid, ce_expires = t + uc_ttl c\<rparr>)\<rparr>"

subsection \<open>Resolution\<close>

text \<open>Step 2: the session cookie.\<close>

definition session_tenant :: "request \<Rightarrow> MiddlewareConfig \<Rightarrow> string" where
  "session_tenant r cfg =
     (case SessionResolver cfg of
        None \<Rightarrow> []
      | Some res \<Rightarrow>
          (case Cookie r ''omur_session'' of
             None \<Rightarrow> []
           | Some v \<Rightarrow>
               if v = [] then []
               else (case res (req_ctx r) v of
                       (tid, None) \<Rightarrow> tid
                     | (tid, Some e) \<Rightarrow> [])))"

text \<open>
  The lookups of step 3 after a cache miss. \<open>err\<close> is one variable for both calls in
  the source: when the auto-provisioner is nil it still holds the resolver's error.
\<close>

definition resolve_uncached ::
  "request \<Rightarrow> MiddlewareConfig \<Rightarrow> string \<Rightarrow> string \<Rightarrow> string \<times> tenant_log list" where
  "resolve_uncached r cfg source authUID =
     (let (tid, err) = (case ResolveV2 cfg of
                          Some res \<Rightarrow> res (req_ctx r) source authUID
                        | None \<Rightarrow> ([], None));
          logs = (case err of Some e \<Rightarrow> [ResolveFailed source authUID e] | None \<Rightarrow> [])
      in if tid = [] then
           (let (tid, err) = (case AutoProvisionV2 cfg of
                 Some prov \<Rightarrow> prov (req_ctx r)
                   \<lparr>ad_Source = source, ad_AuthUID = authUID, ad_Email = rget r ''X-Auth-Request-Email''\<rparr>
               | None \<Rightarrow> (tid, err))
            in (tid, logs @ (case err of Some e \<Rightarrow> [AutoProvisionFailed source authUID e] | None \<Rightarrow> [])))
         else (tid, logs))"

definition browser_tenant ::
  "(nat \<Rightarrow> time) \<Rightarrow> request \<Rightarrow> MiddlewareConfig \<Rightarrow> uidCache \<Rightarrow> string \<times> uidCache \<times> tenant_log list" where
  "browser_tenant now r cfg c =
     (let authUID = rget r ''X-Auth-Request-User'' in
      if authUID = [] then ([], c, [])
      else if ServiceToken cfg \<noteq> [] \<and> rget r ''X-Service-Token'' \<noteq> ServiceToken cfg
      then ([], c, [ServiceTokenMissing ''X-Auth-Request-User'' (req_remote r)])
      else
        (let source = ''zitadel''; (cached, c) = uid_get (now 0) (now 1) source authUID c in
         if cached \<noteq> [] then (cached, c, [])
         else
           (let (tid, logs) = resolve_uncached r cfg source authUID
            in (tid, if tid \<noteq> [] then uid_set (now 2) source authUID tid c else c, logs))))"

definition resolveTenant ::
  "(nat \<Rightarrow> time) \<Rightarrow> request \<Rightarrow> MiddlewareConfig \<Rightarrow> uidCache \<Rightarrow> string \<times> uidCache \<times> tenant_log list" where
  "resolveTenant now r cfg c =
     (let tid = rget r ''X-Tenant-ID'' in
      if tid \<noteq> [] then
        (if ServiceToken cfg = [] \<or> rget r ''X-Service-Token'' = ServiceToken cfg
         then (tid, c, [])
         else ([], c, [XTenantIDWithoutServiceToken tid (req_remote r)]))
      else if session_tenant r cfg \<noteq> [] then (session_tenant r cfg, c, [])
      else browser_tenant now r cfg c)"

subsection \<open>Context access, the middleware and Require\<close>

definition tenant_WithID :: "ctx \<Rightarrow> string \<Rightarrow> ctx" where
  "tenant_WithID c i = WithValue c TenantKey (CtxString i)"

definition WithIDRequest :: "request \<Rightarrow> string \<Rightarrow> request" where
  "WithIDRequest r i = with_ctx (tenant_WithID (req_ctx r) i) r"

definition NewContextForTest :: "ctx \<Rightarrow> string \<Rightarrow> ctx" where
  "NewContextForTest c i = WithValue c TenantKey (CtxString i)"

definition tenant_FromContext :: "ctx \<Rightarrow> string" where
  "tenant_FromContext c = ctx_string c TenantKey"

definition tenant_FromRequest :: "request \<Rightarrow> string" where
  "tenant_FromRequest r = tenant_FromContext (req_ctx r)"

definition tenant_Middleware ::
  "(nat \<Rightarrow> time) \<Rightarrow> MiddlewareConfig \<Rightarrow> 's handler \<Rightarrow> request \<Rightarrow> response \<Rightarrow> uidCache \<times> 's
     \<Rightarrow> response \<times> (uidCache \<times> 's)" where
  "tenant_Middleware now cfg nxt r w st =
     (let (c, s) = st; (tid, c', logs) = resolveTenant now r cfg c;
          r' = (if tid \<noteq> [] then with_ctx (WithValue (req_ctx r) TenantKey (CtxString tid)) r else r);
          (w', s') = nxt r' w s
      in (w', (c', s')))"

definition require_body :: string where
  "require_body =
     ''{'' @ [CHR 0x22] @ ''error'' @ [CHR 0x22, CHR 0x3A, CHR 0x22] @ ''tenant_id required ''
     @ [CHR 0xE2, CHR 0x80, CHR 0x94] @ '' authenticate via Zitadel or pass X-Tenant-ID''
     @ [CHR 0x22] @ ''}''"

definition tenant_Require :: "request \<Rightarrow> response \<Rightarrow> string \<times> response" where
  "tenant_Require r w =
     (let tid = tenant_FromRequest r in
      if tid = []
      then (tid, write_body require_body (write_header 401 (set_header ''Content-Type'' ''application/json'' w)))
      else (tid, w))"

section \<open>The cache interface and its implementation\<close>

text \<open>
  What the resolution relies on of a cache: a hit is a value that was stored,
  evictions are not visible to later reads, and a store changes one key only. The
  client's lemma is that caching a resolver whose answers the cache agrees with
  does not change any result.
\<close>

locale identity_cache =
  fixes seen :: "time \<Rightarrow> 'c \<Rightarrow> 'k \<Rightarrow> string"
    and get :: "time \<Rightarrow> time \<Rightarrow> 'k \<Rightarrow> 'c \<Rightarrow> string \<times> 'c"
    and put :: "time \<Rightarrow> 'k \<Rightarrow> string \<Rightarrow> 'c \<Rightarrow> 'c"
  assumes get_value: "fst (get t t' k c) = seen t c k"
    and get_keeps: "t' \<le> u \<Longrightarrow> seen u (snd (get t t' k c)) k' = seen u c k'"
    and put_other: "k \<noteq> k' \<Longrightarrow> seen u (put t k v c) k' = seen u c k'"
    and put_same: "seen u (put t k v c) k = v \<or> seen u (put t k v c) k = []"
begin

definition agrees :: "('k \<Rightarrow> string) \<Rightarrow> time \<Rightarrow> 'c \<Rightarrow> bool" where
  "agrees f t c \<longleftrightarrow> (\<forall>u k. t \<le> u \<longrightarrow> seen u c k = [] \<or> seen u c k = f k)"

lemma agrees_get:
  assumes "agrees f t c" and "t \<le> t'"
  shows "agrees f t' (snd (get t t' k c))"
  using assms by (auto simp: agrees_def get_keeps)

lemma agrees_put:
  assumes "agrees f t c"
  shows "agrees f t (put u k (f k) c)"
  unfolding agrees_def
proof (intro allI impI)
  fix v k' assume "t \<le> v"
  show "seen v (put u k (f k) c) k' = [] \<or> seen v (put u k (f k) c) k' = f k'"
    using assms \<open>t \<le> v\<close> put_same [of v u k "f k" c] put_other [of k k' v u "f k" c]
    by (cases "k = k'") (auto simp: agrees_def)
qed

lemma hit_or_resolve:
  assumes "agrees f t c"
  shows "(if fst (get t t' k c) \<noteq> [] then fst (get t t' k c) else f k) = f k"
  using assms by (auto simp: agrees_def get_value)

end

lemmas uid_defs = uid_read_def uid_evict_def uid_get_def uid_set_def uid_key_def

lemma uid_key_inject [simp]: "uid_key s u = uid_key s u' \<longleftrightarrow> u = u'"
  by (simp add: uid_key_def)

lemma uid_evict_read: "t' \<le> u \<Longrightarrow> fst (uid_read u (uid_evict t' k c) k') = fst (uid_read u c k')"
  by (auto simp: uid_read_def uid_evict_def split: option.splits)

interpretation uidcache: identity_cache
  "\<lambda>t c u. fst (uid_read t c (uid_key ''zitadel'' u))"
  "\<lambda>t t' u c. uid_get t t' ''zitadel'' u c"
  "\<lambda>t u v c. uid_set t ''zitadel'' u v c"
proof unfold_locales
  fix t t' k c
  show "fst (uid_get t t' ''zitadel'' k c) = fst (uid_read t c (uid_key ''zitadel'' k))"
    by (simp add: uid_get_def Let_def split: prod.splits)
next
  fix t' u t :: time and k k' c assume "t' \<le> u"
  then show "fst (uid_read u (snd (uid_get t t' ''zitadel'' k c)) (uid_key ''zitadel'' k')) =
        fst (uid_read u c (uid_key ''zitadel'' k'))"
    by (simp add: uid_get_def Let_def uid_evict_read split: prod.splits)
next
  fix k k' u t v c assume "(k::string) \<noteq> k'"
  then show "fst (uid_read u (uid_set t ''zitadel'' k v c) (uid_key ''zitadel'' k')) =
        fst (uid_read u c (uid_key ''zitadel'' k'))"
    by (simp add: uid_read_def uid_set_def)
next
  fix u t k v c
  show "fst (uid_read u (uid_set t ''zitadel'' k v c) (uid_key ''zitadel'' k)) = v
      \<or> fst (uid_read u (uid_set t ''zitadel'' k v c) (uid_key ''zitadel'' k)) = []"
    by (simp add: uid_read_def uid_set_def)
qed

text \<open>
  The cache agrees with the configured lookups for a request from time \<open>t\<close> on: every
  entry still live then is what the uncached lookup returns.
\<close>

definition cache_coherent :: "time \<Rightarrow> request \<Rightarrow> MiddlewareConfig \<Rightarrow> uidCache \<Rightarrow> bool" where
  "cache_coherent t r cfg c =
     uidcache.agrees (\<lambda>u. fst (resolve_uncached r cfg ''zitadel'' u)) t c"

lemma empty_coherent [simp]: "cache_coherent t r cfg (newUIDCache ttl)"
  unfolding cache_coherent_def uidcache.agrees_def by (simp add: newUIDCache_def uid_read_def)

lemma browser_tenant_transparent:
  assumes "cache_coherent (now 0) r cfg c"
  shows "fst (browser_tenant now r cfg c) = fst (browser_tenant now r cfg (newUIDCache ttl))"
proof -
  have hit: "fst (uid_get (now 0) (now 1) ''zitadel'' u c) \<noteq> [] \<Longrightarrow>
      fst (uid_get (now 0) (now 1) ''zitadel'' u c) = fst (resolve_uncached r cfg ''zitadel'' u)" for u
    using uidcache.hit_or_resolve [OF assms [unfolded cache_coherent_def], of "now 1" u] by auto
  have miss: "fst (uid_get (now 0) (now 1) ''zitadel'' u (newUIDCache ttl)) = []" for u
    by (simp add: uid_get_def uid_read_def newUIDCache_def)
  show ?thesis
    using hit [of "rget r ''X-Auth-Request-User''"] miss [of "rget r ''X-Auth-Request-User''"]
    by (auto simp: browser_tenant_def Let_def split: prod.splits)
qed

lemma browser_tenant_coherent:
  assumes "cache_coherent (now 0) r cfg c" and "now 0 \<le> now 1"
  shows "cache_coherent (now 1) r cfg (fst (snd (browser_tenant now r cfg c)))"
proof -
  let ?f = "\<lambda>u. fst (resolve_uncached r cfg ''zitadel'' u)"
  have ag: "uidcache.agrees ?f (now 0) c"
    using assms(1) by (simp add: cache_coherent_def)
  have kept: "uidcache.agrees ?f (now 1) c"
    using ag assms(2) by (auto simp: uidcache.agrees_def)
  have got: "uidcache.agrees ?f (now 1) (snd (uid_get (now 0) (now 1) ''zitadel'' u c))" for u
    by (rule uidcache.agrees_get [OF ag assms(2)])
  have put: "uidcache.agrees ?f (now 1)
      (uid_set (now 2) ''zitadel'' u (?f u) (snd (uid_get (now 0) (now 1) ''zitadel'' u c)))" for u
    by (rule uidcache.agrees_put [OF got])
  show ?thesis
    using kept got [of "rget r ''X-Auth-Request-User''"] put [of "rget r ''X-Auth-Request-User''"]
    by (auto simp: browser_tenant_def Let_def cache_coherent_def split: prod.splits)
qed

section \<open>The cache over time\<close>

text \<open>
  The states any interleaving of goroutines can reach: the clock advances, \<^verbatim>\<open>set\<close>
  stores, and the deletion section of some \<^verbatim>\<open>get\<close> runs for some key. \<open>g\<close> is a
  history variable: for every key the last tenant stored and when.
\<close>

inductive cache_reach ::
  "duration \<Rightarrow> uidCache \<Rightarrow> (string \<rightharpoonup> string \<times> time) \<Rightarrow> time \<Rightarrow> bool" for ttl where
  start: "cache_reach ttl (newUIDCache ttl) Map.empty t"
| tick: "cache_reach ttl c g t \<Longrightarrow> t \<le> t' \<Longrightarrow> cache_reach ttl c g t'"
| store: "cache_reach ttl c g t \<Longrightarrow>
     cache_reach ttl (uid_set t source u tid c) (g(uid_key source u \<mapsto> (tid, t))) t"
| evict: "cache_reach ttl c g t \<Longrightarrow> cache_reach ttl (uid_evict t k c) g t"

definition last_stored :: "(string \<rightharpoonup> string \<times> time) \<Rightarrow> duration \<Rightarrow> time \<Rightarrow> string \<Rightarrow> string" where
  "last_stored g ttl t k =
     (case g k of None \<Rightarrow> [] | Some (tid, s) \<Rightarrow> if s + ttl < t then [] else tid)"

fun entry_inv ::
  "duration \<Rightarrow> time \<Rightarrow> uidCacheEntry option \<Rightarrow> (string \<times> time) option \<Rightarrow> bool" where
  "entry_inv ttl t None None = True"
| "entry_inv ttl t None (Some (tid, s)) = (s + ttl < t)"
| "entry_inv ttl t (Some e) None = False"
| "entry_inv ttl t (Some e) (Some (tid, s)) = (ce_tenantID e = tid \<and> ce_expires e = s + ttl)"

definition cache_inv :: "uidCache \<Rightarrow> (string \<rightharpoonup> string \<times> time) \<Rightarrow> time \<Rightarrow> bool" where
  "cache_inv c g t \<longleftrightarrow> (\<forall>k. entry_inv (uc_ttl c) t (uc_m c k) (g k))"

lemma uid_set_sel [simp]:
  "uc_ttl (uid_set t s u tid c) = uc_ttl c"
  "uc_m (uid_set t s u tid c) =
     (uc_m c)(uid_key s u \<mapsto> \<lparr>ce_tenantID = tid, ce_expires = t + uc_ttl c\<rparr>)"
  by (simp_all add: uid_set_def)

lemma uid_evict_sel [simp]:
  "uc_ttl (uid_evict t k c) = uc_ttl c"
  "uc_m (uid_evict t k c) k' =
     (if k' = k then (case uc_m c k of None \<Rightarrow> None | Some e \<Rightarrow> if ce_expires e < t then None else Some e)
      else uc_m c k')"
  by (auto simp: uid_evict_def split: option.splits)

lemma entry_inv_tick: "entry_inv ttl t e h \<Longrightarrow> t \<le> t' \<Longrightarrow> entry_inv ttl t' e h"
  by (induction ttl t e h rule: entry_inv.induct) auto

lemma cache_inv_tick: "cache_inv c g t \<Longrightarrow> t \<le> t' \<Longrightarrow> cache_inv c g t'"
  by (auto simp: cache_inv_def intro: entry_inv_tick)

lemma cache_inv_store: "cache_inv c g t \<Longrightarrow> cache_inv (uid_set t s u tid c) (g(uid_key s u \<mapsto> (tid, t))) t"
  by (simp add: cache_inv_def)

lemma entry_inv_evict:
  "entry_inv ttl t (Some e) h \<Longrightarrow> entry_inv ttl t (if ce_expires e < t then None else Some e) h"
  by (induction ttl t "Some e" h rule: entry_inv.induct) auto

lemma cache_inv_evict:
  assumes "cache_inv c g t"
  shows "cache_inv (uid_evict t k c) g t"
  unfolding cache_inv_def
proof
  fix k'
  have "entry_inv (uc_ttl c) t (uc_m c k') (g k')"
    using assms by (simp add: cache_inv_def)
  then show "entry_inv (uc_ttl (uid_evict t k c)) t (uc_m (uid_evict t k c) k') (g k')"
    by (cases "uc_m c k'") (auto dest: entry_inv_evict)
qed

lemma cache_reach_inv:
  "cache_reach ttl c g t \<Longrightarrow> cache_inv c g t \<and> uc_ttl c = uc_ttl (newUIDCache ttl)"
proof (induction rule: cache_reach.induct)
  case (start t)
  show ?case by (simp add: cache_inv_def newUIDCache_def)
next
  case (tick c g t t')
  then show ?case by (blast intro: cache_inv_tick)
next
  case (store c g t source u tid)
  then show ?case by (intro conjI cache_inv_store) simp_all
next
  case (evict c g t k)
  then show ?case by (auto intro: cache_inv_evict)
qed

section \<open>Properties\<close>

text \<open>
  C1. With a service token configured, a request that does not present it gets a
  tenant only from the session cookie: the X-Tenant-ID header and the browser-auth
  header are both refused, the session resolver has accepted the cookie without an
  error, and the cache is not touched.
\<close>

theorem tenant_requires_service_token:
  assumes "ServiceToken cfg \<noteq> []" and "rget r ''X-Service-Token'' \<noteq> ServiceToken cfg"
    and "resolveTenant now r cfg c = (tid, c', logs)" and "tid \<noteq> []"
  shows "c' = c \<and> rget r ''X-Tenant-ID'' = [] \<and>
         (\<exists>res sid. SessionResolver cfg = Some res \<and> Cookie r ''omur_session'' = Some sid \<and>
                    sid \<noteq> [] \<and> res (req_ctx r) sid = (tid, None))"
  using assms
  by (auto simp: resolveTenant_def browser_tenant_def session_tenant_def Let_def
           split: if_splits option.splits prod.splits)

text \<open>
  C14. Caching does not change which tenant a request resolves to: with a cache
  whose live entries agree with the configured lookups, the tenant is the one
  resolved with an empty cache, and the cache after the request still agrees.
\<close>

theorem resolve_cache_transparent:
  assumes "cache_coherent (now 0) r cfg c" and "now 0 \<le> now 1"
  shows "fst (resolveTenant now r cfg c) = fst (resolveTenant now r cfg (newUIDCache ttl)) \<and>
         cache_coherent (now 1) r cfg (fst (snd (resolveTenant now r cfg c)))"
proof -
  have kept: "cache_coherent (now 1) r cfg c"
    using assms by (auto simp: cache_coherent_def uidcache.agrees_def)
  show ?thesis
    using browser_tenant_transparent [of now r cfg c ttl] browser_tenant_coherent [of now r cfg c] assms kept
    by (simp add: resolveTenant_def Let_def)
qed

definition demo_cfg :: MiddlewareConfig where
  "demo_cfg = \<lparr>ResolveV2 = Some (\<lambda>c s u. (u @ ''-tenant'', None)), AutoProvisionV2 = None,
     ServiceToken = ''svc'', CacheTTL = 0,
     SessionResolver = Some (\<lambda>c s. if s = ''good'' then (''t1'', None) else ([], Some ''no session''))\<rparr>"

definition demo_request :: "(string \<times> string) list \<Rightarrow> (string \<times> string) list \<Rightarrow> request" where
  "demo_request hs cs = \<lparr>req_method = ''GET'', req_path = ''/x'',
     req_header = fold (\<lambda>(k, v). hset k v) hs Map.empty, req_remote = ''10.0.0.1:443'',
     req_cookies = cs, req_ctx = []\<rparr>"

theorem tenant_requires_service_token_witness:
  "resolveTenant (\<lambda>_. 0) (demo_request [] [(''omur_session'', ''good'')]) demo_cfg (newUIDCache 0)
     = (''t1'', newUIDCache 0, []) \<and>
   (\<exists>res sid. SessionResolver demo_cfg = Some res \<and>
      Cookie (demo_request [] [(''omur_session'', ''good'')]) ''omur_session'' = Some sid \<and>
      sid \<noteq> [] \<and> res [] sid = (''t1'', None))"
proof -
  let ?r = "demo_request [] [(''omur_session'', ''good'')]"
  have run: "resolveTenant (\<lambda>_. 0) ?r demo_cfg (newUIDCache 0) = (''t1'', newUIDCache 0, [])"
    by (simp add: resolveTenant_def session_tenant_def demo_cfg_def demo_request_def Cookie_def)
  have tok: "ServiceToken demo_cfg \<noteq> []" "rget ?r ''X-Service-Token'' \<noteq> ServiceToken demo_cfg"
    by (simp_all add: demo_cfg_def demo_request_def)
  have "req_ctx ?r = []" by (simp add: demo_request_def)
  with tenant_requires_service_token [OF tok run] run show ?thesis by simp
qed

definition demo_cache :: uidCache where
  "demo_cache = uid_set 5 ''zitadel'' ''bob'' ''bob-tenant'' (newUIDCache 0)"

theorem resolve_cache_transparent_witness:
  "let r = demo_request [(''X-Auth-Request-User'', ''bob''), (''X-Service-Token'', ''svc'')] [] in
   fst (resolveTenant (\<lambda>_. 7) r demo_cfg demo_cache) = ''bob-tenant'' \<and>
   cache_coherent 7 r demo_cfg (fst (snd (resolveTenant (\<lambda>_. 7) r demo_cfg demo_cache)))"
proof -
  let ?r = "demo_request [(''X-Auth-Request-User'', ''bob''), (''X-Service-Token'', ''svc'')] []"
  have key: "resolve_uncached ?r demo_cfg ''zitadel'' u = (u @ ''-tenant'', [])" for u
    by (simp add: resolve_uncached_def demo_cfg_def)
  have co: "cache_coherent ((\<lambda>_. 7) (0::nat)) ?r demo_cfg demo_cache"
    unfolding cache_coherent_def uidcache.agrees_def key
    by (simp add: demo_cache_def uid_read_def newUIDCache_def)
  have "fst (resolveTenant (\<lambda>_. 7) ?r demo_cfg (newUIDCache 0)) = ''bob-tenant''"
    by (simp add: resolveTenant_def browser_tenant_def session_tenant_def key uid_get_def
          uid_read_def newUIDCache_def Let_def) (simp add: demo_request_def demo_cfg_def Cookie_def)
  then show ?thesis
    using resolve_cache_transparent [of "\<lambda>_. 7" ?r demo_cfg demo_cache 0] co by (simp add: Let_def)
qed

text \<open>
  C31. In every state an interleaving of lookups, deletions and stores can reach, a
  lookup returns exactly the tenant last stored for the key if that store is at
  most one TTL ago, and nothing otherwise: expired identities are never served,
  and the deletion of an expired entry never loses a newer one.
\<close>

theorem uid_cache_refines_last_stored:
  assumes "cache_reach ttl c g t" and "t \<le> t'"
  shows "fst (uid_read t' c k) = last_stored g (if ttl \<le> 0 then 5 * minute else ttl) t' k"
proof -
  note reach = cache_reach_inv [OF assms(1)]
  have inv: "entry_inv (uc_ttl c) t' (uc_m c k) (g k)"
    using cache_inv_tick [OF conjunct1 [OF reach] assms(2)] unfolding cache_inv_def by blast
  have ttl: "uc_ttl c = (if ttl \<le> 0 then 5 * minute else ttl)"
    using reach by (simp add: newUIDCache_def)
  show ?thesis
    using inv unfolding ttl [symmetric]
    by (cases "uc_m c k"; cases "g k") (auto simp: uid_read_def last_stored_def)
qed

theorem uid_cache_refines_last_stored_witness:
  "cache_reach 10 (uid_evict 11 ''zitadel:bob'' (uid_set 0 ''zitadel'' ''bob'' ''t1'' (newUIDCache 10)))
     [uid_key ''zitadel'' ''bob'' \<mapsto> (''t1'', 0)] 11 \<and>
   fst (uid_read 11 (uid_evict 11 ''zitadel:bob'' (uid_set 0 ''zitadel'' ''bob'' ''t1'' (newUIDCache 10)))
     ''zitadel:bob'') = []"
proof -
  have r: "cache_reach 10 (uid_evict 11 ''zitadel:bob'' (uid_set 0 ''zitadel'' ''bob'' ''t1'' (newUIDCache 10)))
     [uid_key ''zitadel'' ''bob'' \<mapsto> (''t1'', 0)] 11"
    by (rule cache_reach.evict, rule cache_reach.tick, rule cache_reach.store, rule cache_reach.start) simp
  show ?thesis
    using r uid_cache_refines_last_stored [OF r order_refl, of "''zitadel:bob''"]
    by (simp add: last_stored_def uid_key_def)
qed

text \<open>
  Behind the middleware, \<^verbatim>\<open>Require\<close> returns the tenant the request resolved to, or,
  when none resolved, the tenant already in the context; it answers 401 exactly when
  both are missing and leaves the response alone otherwise.
\<close>

lemma require_behind_middleware:
  "tenant_Middleware now cfg (\<lambda>r w s. let (t, w') = tenant_Require r w in (w', t)) r new_response (c, s) =
     (let (tid, c', logs) = resolveTenant now r cfg c;
          got = (if tid \<noteq> [] then tid else tenant_FromRequest r)
      in (if got = []
          then write_body require_body (write_header 401 (set_header ''Content-Type'' ''application/json'' new_response))
          else new_response, (c', got)))"
  by (simp add: tenant_Middleware_def tenant_Require_def tenant_FromRequest_def tenant_FromContext_def
        Let_def split: prod.splits)

text \<open>
  When no auto-provisioner is configured and the resolver fails, its error is
  reported a second time as an auto-provisioning failure, although nothing was
  provisioned.
\<close>

lemma resolver_error_logged_as_provisioning:
  assumes "ResolveV2 cfg = Some res" and "res (req_ctx r) source u = ([], Some e)"
    and "AutoProvisionV2 cfg = None"
  shows "resolve_uncached r cfg source u = ([], [ResolveFailed source u e, AutoProvisionFailed source u e])"
  using assms by (simp add: resolve_uncached_def)

lemma resolver_error_logged_as_provisioning_witness:
  "resolve_uncached (demo_request [] []) (demo_cfg\<lparr>ResolveV2 := Some (\<lambda>c s u. ([], Some ''db down''))\<rparr>)
     ''zitadel'' ''bob''
   = ([], [ResolveFailed ''zitadel'' ''bob'' ''db down'', AutoProvisionFailed ''zitadel'' ''bob'' ''db down''])"
  by (rule resolver_error_logged_as_provisioning [where res = "\<lambda>c s u. ([], Some ''db down'')"])
     (simp_all add: demo_cfg_def)

end
