(* ===== verification/Auth.thy ===== *)
theory Auth
  imports Http Json
begin

text \<open>
  Package \<^verbatim>\<open>auth\<close> (\<^verbatim>\<open>src/auth/roles.go\<close>, \<^verbatim>\<open>src/auth/audit.go\<close>): the roles granted by group
  membership, the role gate of the handlers and the audit log.

  The database pool and the tracing library are not part of the repository. The
  pool is a function that inserts a row into the audit table of some database
  state and returns the error of the statement; a nil pool is \<open>None\<close>. The span
  lookup gives the trace id of a context with a valid span.
\<close>

section \<open>Roles\<close>

type_synonym Role = string

definition RoleAdmin :: Role where "RoleAdmin = ''admin''"
definition RoleSupport :: Role where "RoleSupport = ''support''"
definition RoleUser :: Role where "RoleUser = ''user''"

definition groupToRoles :: "string \<Rightarrow> Role list" where
  "groupToRoles g =
     (if g = ''omur-admin'' then [RoleAdmin]
      else if g = ''omur-support'' then [RoleSupport]
      else if g = ''omur-user'' then [RoleUser]
      else [])"

text \<open>The two nested loops with the set \<^verbatim>\<open>seen\<close> and the slice \<^verbatim>\<open>out\<close>.\<close>

fun add_roles :: "Role list \<Rightarrow> Role set \<times> Role list \<Rightarrow> Role set \<times> Role list" where
  "add_roles [] st = st"
| "add_roles (r # rs) (seen, out) =
     (if r \<in> seen then add_roles rs (seen, out) else add_roles rs (insert r seen, out @ [r]))"

fun add_groups :: "string list \<Rightarrow> Role set \<times> Role list \<Rightarrow> Role set \<times> Role list" where
  "add_groups [] st = st"
| "add_groups (g # gs) st = add_groups gs (add_roles (groupToRoles g) st)"

definition RolesFromGroups :: "string list \<Rightarrow> Role list" where
  "RolesFromGroups groups = (if groups = [] then [] else snd (add_groups groups ({}, [])))"

definition WithRoles :: "ctx \<Rightarrow> Role list \<Rightarrow> ctx" where
  "WithRoles c roles = WithValue c RolesKey (CtxRoles roles)"

definition RolesFromContext :: "ctx \<Rightarrow> Role list" where
  "RolesFromContext c = (case ctx_Value c RolesKey of Some (CtxRoles rs) \<Rightarrow> rs | _ \<Rightarrow> [])"

definition HasRole :: "ctx \<Rightarrow> Role \<Rightarrow> bool" where
  "HasRole c want \<longleftrightarrow> list_ex (\<lambda>r. r = want) (RolesFromContext c)"

definition forbidden_body :: string where
  "forbidden_body =
     ''{'' @ [CHR 0x22] @ ''error'' @ [CHR 0x22, CHR 0x3A, CHR 0x22] @ ''forbidden: missing required role''
     @ [CHR 0x22] @ ''}''"

definition RequireRole :: "response \<Rightarrow> request \<Rightarrow> Role \<Rightarrow> bool \<times> response" where
  "RequireRole w r want =
     (if HasRole (req_ctx r) want then (True, w)
      else (False, write_body forbidden_body
              (write_header 403 (set_header ''Content-Type'' ''application/json'' w))))"

section \<open>The audit log\<close>

text \<open>
  \<^verbatim>\<open>Diff\<close> is an \<^verbatim>\<open>any\<close>: nil, a value \<^verbatim>\<open>json.Marshal\<close> encodes, or one it refuses (a channel, a
  function) with an error.
\<close>

datatype go_any = GoNil | GoValue json | GoUnsupported string

record AuditEntry =
  ae_Role :: Role
  ae_Action :: string
  ae_TargetKind :: string
  ae_TargetID :: string
  ae_Diff :: go_any

record audit_row =
  ar_actor_uid :: string
  ar_actor_email :: "string option"
  ar_actor_groups :: "string option"
  ar_role :: string
  ar_action :: string
  ar_target_kind :: "string option"
  ar_target_id :: "string option"
  ar_diff :: "string option"
  ar_request_id :: "string option"
  ar_ip :: "string option"
  ar_user_agent :: "string option"

definition nullableString :: "string \<Rightarrow> string option" where
  "nullableString v = (if v = [] then None else Some v)"

definition nullableHeader :: "request \<Rightarrow> string \<Rightarrow> string option" where
  "nullableHeader r name = (let v = rget r name in if v = [] then None else Some v)"

definition traceID :: "(ctx \<Rightarrow> string option) \<Rightarrow> ctx \<Rightarrow> string" where
  "traceID span c = (case span c of None \<Rightarrow> [] | Some t \<Rightarrow> t)"

definition audit_clientIP :: "request \<Rightarrow> string" where
  "audit_clientIP r =
     (let xff = rget r ''X-Forwarded-For'' in
      if xff \<noteq> [] then
        (case IndexByte xff (CHR '','') of
           Some i \<Rightarrow> TrimSpace (take i xff)
         | None \<Rightarrow> TrimSpace xff)
      else
        (let addr = req_remote r;
             addr = (case LastIndexByte addr (CHR '':'') of
                       Some i \<Rightarrow> if i > 0 then take i addr else addr
                     | None \<Rightarrow> addr)
         in Trim addr {CHR ''['', CHR '']''}))"

definition marshal_any :: "go_any \<Rightarrow> string + string option" where
  "marshal_any d =
     (case d of
        GoNil \<Rightarrow> Inr None
      | GoValue j \<Rightarrow> Inr (Some (json_print j))
      | GoUnsupported e \<Rightarrow> Inl e)"

definition audit_entry_row ::
  "(ctx \<Rightarrow> string option) \<Rightarrow> ctx \<Rightarrow> request \<Rightarrow> AuditEntry \<Rightarrow> string option \<Rightarrow> audit_row" where
  "audit_entry_row span c r e diff =
     (let actorUID = rget r ''X-Auth-Request-User''
      in \<lparr>ar_actor_uid = (if actorUID = [] then ''service'' else actorUID),
          ar_actor_email = nullableHeader r ''X-Auth-Request-Email'',
          ar_actor_groups = nullableHeader r ''X-Auth-Request-Groups'',
          ar_role = ae_Role e, ar_action = ae_Action e,
          ar_target_kind = nullableString (ae_TargetKind e),
          ar_target_id = nullableString (ae_TargetID e),
          ar_diff = diff,
          ar_request_id = nullableString (traceID span c),
          ar_ip = nullableString (audit_clientIP r),
          ar_user_agent = nullableHeader r ''User-Agent''\<rparr>)"

definition WriteAuditEntry ::
  "(ctx \<Rightarrow> string option) \<Rightarrow> ctx \<Rightarrow> (audit_row \<Rightarrow> 'db \<Rightarrow> go_error \<times> 'db) option \<Rightarrow> request
     \<Rightarrow> AuditEntry \<Rightarrow> 'db \<Rightarrow> go_error \<times> 'db" where
  "WriteAuditEntry span c pool r e db =
     (case pool of
        None \<Rightarrow> (Some ''audit: nil pool'', db)
      | Some exec \<Rightarrow>
          if ae_Action e = [] then (Some ''audit: action required'', db)
          else if ae_Role e = [] then (Some ''audit: role required'', db)
          else (case marshal_any (ae_Diff e) of
                  Inl err \<Rightarrow> (Some (''audit: marshal diff: '' @ err), db)
                | Inr diff \<Rightarrow> exec (audit_entry_row span c r e diff) db))"

section \<open>Lemmas\<close>

lemma add_roles_spec:
  assumes "set out = seen" and "distinct out" and "add_roles rs (seen, out) = (seen', out')"
  shows "set out' = seen' \<and> distinct out' \<and> seen' = seen \<union> set rs"
  using assms
proof (induction rs arbitrary: seen out)
  case (Cons r rs)
  then show ?case
    using Cons.IH [of out seen] Cons.IH [of "out @ [r]" "insert r seen"]
    by (cases "r \<in> seen") auto
qed simp

lemma add_groups_spec:
  assumes "set out = seen" and "distinct out" and "add_groups gs (seen, out) = (seen', out')"
  shows "set out' = seen' \<and> distinct out' \<and> seen' = seen \<union> (\<Union>g \<in> set gs. set (groupToRoles g))"
  using assms
proof (induction gs arbitrary: seen out)
  case (Cons g gs)
  obtain s o' where st: "add_roles (groupToRoles g) (seen, out) = (s, o')" by fastforce
  with add_roles_spec [OF Cons.prems(1,2) st] Cons.IH [of o' s] Cons.prems(3) show ?case by auto
qed simp

lemma RolesFromGroups_set: "set (RolesFromGroups gs) = (\<Union>g \<in> set gs. set (groupToRoles g))"
  and RolesFromGroups_distinct: "distinct (RolesFromGroups gs)"
proof -
  obtain s o' where st: "add_groups gs ({}, []) = (s, o')" by fastforce
  from add_groups_spec [OF _ _ st]
  show "set (RolesFromGroups gs) = (\<Union>g \<in> set gs. set (groupToRoles g))" "distinct (RolesFromGroups gs)"
    by (auto simp: RolesFromGroups_def st)
qed

lemma RolesFromContext_WithRoles [simp]: "RolesFromContext (WithRoles c rs) = rs"
  by (simp add: RolesFromContext_def WithRoles_def)

lemma HasRole_WithRoles [simp]: "HasRole (WithRoles c rs) want \<longleftrightarrow> want \<in> set rs"
  by (auto simp: HasRole_def list_ex_iff)

lemma role_in_group:
  "RoleAdmin \<in> set (groupToRoles g) \<longleftrightarrow> g = ''omur-admin''"
  "RoleSupport \<in> set (groupToRoles g) \<longleftrightarrow> g = ''omur-support''"
  "RoleUser \<in> set (groupToRoles g) \<longleftrightarrow> g = ''omur-user''"
  by (simp_all add: groupToRoles_def RoleAdmin_def RoleSupport_def RoleUser_def)

lemma role_in_groups:
  "RoleAdmin \<in> set (RolesFromGroups gs) \<longleftrightarrow> ''omur-admin'' \<in> set gs"
  "RoleSupport \<in> set (RolesFromGroups gs) \<longleftrightarrow> ''omur-support'' \<in> set gs"
  "RoleUser \<in> set (RolesFromGroups gs) \<longleftrightarrow> ''omur-user'' \<in> set gs"
  by (simp_all add: RolesFromGroups_set role_in_group)

lemma nullable_eq_Some [simp]:
  "nullableString v = Some x \<longleftrightarrow> v = x \<and> x \<noteq> []"
  "nullableHeader r n = Some x \<longleftrightarrow> rget r n = x \<and> x \<noteq> []"
  by (auto simp: nullableString_def nullableHeader_def Let_def)

section \<open>Properties\<close>

text \<open>
  C27. The roles of a list of groups are exactly the roles the table grants to some
  group of the list, each once; unknown groups, repetitions and the order of the
  groups do not matter for membership.
\<close>

theorem roles_from_groups_exact:
  "distinct (RolesFromGroups gs) \<and>
   set (RolesFromGroups gs) = (\<Union>g \<in> set gs. set (groupToRoles g)) \<and>
   length (RolesFromGroups gs) \<le> 3"
proof -
  have "set (RolesFromGroups gs) \<subseteq> {RoleAdmin, RoleSupport, RoleUser}"
    by (auto simp: RolesFromGroups_set groupToRoles_def split: if_splits)
  then have "card (set (RolesFromGroups gs)) \<le> card {RoleAdmin, RoleSupport, RoleUser}"
    by (intro card_mono) simp_all
  also have "\<dots> \<le> 3" by (simp add: card_insert_if)
  finally have "length (RolesFromGroups gs) \<le> 3"
    by (simp add: distinct_card [OF RolesFromGroups_distinct])
  then show ?thesis by (simp add: RolesFromGroups_set RolesFromGroups_distinct)
qed

text \<open>
  C32. An audit entry reaches the database only when it has a role and an action, a
  pool is given and the diff can be encoded; then exactly one row is inserted,
  with the actor of the request (or \<^verbatim>\<open>service\<close>) and a diff that decodes to the value
  passed; on every other path the database is untouched and an error is returned.
\<close>

theorem audit_entry_written_or_refused:
  assumes "WriteAuditEntry span c pool r e db = (err, db')"
    and "\<And>j. ae_Diff e = GoValue j \<Longrightarrow> json_wf j"
  shows "(db' = db \<and> err \<noteq> None \<and>
            (pool = None \<or> ae_Action e = [] \<or> ae_Role e = [] \<or> (\<exists>m. ae_Diff e = GoUnsupported m))) \<or>
         (\<exists>exec row. pool = Some exec \<and> ae_Action e \<noteq> [] \<and> ae_Role e \<noteq> [] \<and>
            exec row db = (err, db') \<and> ar_role row = ae_Role e \<and> ar_action row = ae_Action e \<and>
            ar_actor_uid row \<noteq> [] \<and>
            (rget r ''X-Auth-Request-User'' \<noteq> [] \<longrightarrow> ar_actor_uid row = rget r ''X-Auth-Request-User'') \<and>
            (case ar_diff row of
               None \<Rightarrow> ae_Diff e = GoNil
             | Some text \<Rightarrow> \<exists>j. json_parse text = Some j \<and> ae_Diff e = GoValue j))"
proof (cases "\<exists>exec d. pool = Some exec \<and> ae_Action e \<noteq> [] \<and> ae_Role e \<noteq> [] \<and> marshal_any (ae_Diff e) = Inr d")
  case True
  then obtain exec d where ok: "pool = Some exec" "ae_Action e \<noteq> []" "ae_Role e \<noteq> []"
      "marshal_any (ae_Diff e) = Inr d" by blast
  let ?row = "audit_entry_row span c r e d"
  have "exec ?row db = (err, db')" using assms(1) ok by (simp add: WriteAuditEntry_def)
  moreover have "case d of None \<Rightarrow> ae_Diff e = GoNil
      | Some text \<Rightarrow> \<exists>j. json_parse text = Some j \<and> ae_Diff e = GoValue j"
    using ok(4) assms(2) by (cases "ae_Diff e") (auto simp: marshal_any_def parse_print)
  ultimately show ?thesis
    using ok by (intro disjI2 exI [of _ exec] exI [of _ ?row]) (simp add: audit_entry_row_def Let_def)
next
  case False
  then show ?thesis using assms(1)
    by (cases "ae_Diff e") (auto simp: WriteAuditEntry_def marshal_any_def split: option.splits if_splits)
qed

definition audit_demo_entry :: AuditEntry where
  "audit_demo_entry = \<lparr>ae_Role = ''admin'', ae_Action = ''key.put'', ae_TargetKind = [], ae_TargetID = [],
     ae_Diff = GoValue (JObj [(''n'', JNum ''1'')])\<rparr>"

theorem audit_entry_written_or_refused_witness:
  "\<exists>row. WriteAuditEntry (\<lambda>_. None) [] (Some (\<lambda>row db. (None, row # db)))
      \<lparr>req_method = [], req_path = [], req_header = Map.empty, req_remote = ''10.0.0.1:80'',
       req_cookies = [], req_ctx = []\<rparr> audit_demo_entry [] = (None, [row]) \<and> ar_role row = ''admin''"
proof -
  let ?r = "\<lparr>req_method = [], req_path = [], req_header = Map.empty, req_remote = ''10.0.0.1:80'',
       req_cookies = [], req_ctx = []\<rparr>"
  let ?exec = "\<lambda>row db. (None :: go_error, row # db :: audit_row list)"
  have run: "WriteAuditEntry (\<lambda>_. None) [] (Some ?exec) ?r audit_demo_entry []
      = (None, [audit_entry_row (\<lambda>_. None) [] ?r audit_demo_entry (Some (json_print (JObj [(''n'', JNum ''1'')])))])"
    by (simp add: WriteAuditEntry_def audit_demo_entry_def marshal_any_def del: json_print.simps)
  have wf: "json_wf (JObj [(''n'', JNum ''1'')])" by code_simp
  have *: "json_wf j" if "ae_Diff audit_demo_entry = GoValue j" for j
    using that wf by (simp add: audit_demo_entry_def del: json_wf.simps)
  from audit_entry_written_or_refused [OF run *] obtain row where
    "[row] = [audit_entry_row (\<lambda>_. None) [] ?r audit_demo_entry (Some (json_print (JObj [(''n'', JNum ''1'')])))]"
    "ar_role row = ''admin''"
    by (auto simp: audit_demo_entry_def)
  with run show ?thesis by metis
qed

end
