(* ===== verification/Middleware.thy ===== *)
theory Middleware
  imports Auth Request_Id
begin

text \<open>
  Package \<^verbatim>\<open>middleware\<close> (\<^verbatim>\<open>src/middleware/\<close>): CORS, bearer authentication, the request
  log, the role-mapping admin middleware and the per-IP rate limiter.

  A middleware is a function on handlers. A handler changes the response and a
  state \<open>'s\<close> of the world behind it, so that a handler that is not called is one
  that leaves both alone. \<^verbatim>\<open>net.SplitHostPort\<close> of the standard library is modelled.
\<close>

section \<open>CORS and bearer authentication\<close>

definition matchWildcard :: "string list \<Rightarrow> string \<Rightarrow> bool" where
  "matchWildcard patterns origin \<longleftrightarrow>
     list_ex (\<lambda>p. HasPrefix p ''*.'' \<and>
        (let suffix = drop 1 p in HasSuffix origin suffix \<or> Contains origin (''://'' @ drop 2 p))) patterns"

definition cors_allowed :: "string list \<Rightarrow> string \<Rightarrow> bool" where
  "cors_allowed origins origin \<longleftrightarrow>
     ''*'' \<in> set origins \<or> origin \<in> set origins \<or> matchWildcard origins origin"

definition CORS :: "string list \<Rightarrow> 's handler \<Rightarrow> 's handler" where
  "CORS origins nxt r w s =
     (let origin = rget r ''Origin'';
          w = (if cors_allowed origins origin
               then set_header ''Access-Control-Max-Age'' ''3600''
                     (set_header ''Access-Control-Allow-Headers''
                        ''Content-Type, Authorization, X-Request-ID, X-Tenant-ID, X-Service-Token''
                     (set_header ''Access-Control-Allow-Methods'' ''GET, POST, PUT, DELETE, OPTIONS''
                     (set_header ''Access-Control-Allow-Origin'' origin w)))
               else w)
      in if req_method r = ''OPTIONS'' then (write_header 204 w, s) else nxt r w s)"

definition unauthorized_body :: string where
  "unauthorized_body =
     ''{'' @ [CHR 0x22] @ ''error'' @ [CHR 0x22, CHR 0x3A, CHR 0x22] @ ''unauthorized'' @ [CHR 0x22] @ ''}''"

definition BearerAuth :: "string \<Rightarrow> 's handler \<Rightarrow> 's handler" where
  "BearerAuth token nxt =
     (if token = [] then nxt
      else (\<lambda>r w s.
        let path = req_path r; auth = rget r ''Authorization''; svcToken = rget r ''X-Service-Token'' in
        if path = ''/health'' \<or> path = ''/healthz'' \<or> path = ''/ready'' \<or> path = ''/readyz'' then nxt r w s
        else if HasPrefix auth ''Bearer '' \<and> drop 7 auth = token then nxt r w s
        else if svcToken \<noteq> [] \<and> svcToken = token then nxt r w s
        else (http_Error unauthorized_body 401 w, s)))"

text \<open>A panic is \<open>Inl\<close> of its message.\<close>

definition MustBearerAuth :: "string \<Rightarrow> 's handler \<Rightarrow> string + 's handler" where
  "MustBearerAuth token nxt =
     (if token = []
      then Inl ''middleware: MustBearerAuth requires a non-empty token (set TENANT_TOKEN)''
      else Inr (BearerAuth token nxt))"

section \<open>The request log\<close>

text \<open>
  \<^verbatim>\<open>statusWriter\<close> starts with 200 and takes the code of every \<^verbatim>\<open>WriteHeader\<close> call the handler
  makes on it. \<open>t0\<close> and \<open>t1\<close> are the clock before and after the handler.
\<close>

record http_log =
  hl_method :: string
  hl_path :: string
  hl_status :: nat
  hl_duration_ms :: int
  hl_request_id :: string

definition sw_status :: "response \<Rightarrow> response \<Rightarrow> nat" where
  "sw_status before after =
     (let calls = drop (length (rsp_calls before)) (rsp_calls after)
      in if calls = [] then 200 else last calls)"

definition RequestLog ::
  "time \<Rightarrow> time \<Rightarrow> 's handler \<Rightarrow> request \<Rightarrow> response \<Rightarrow> 's \<times> http_log list \<Rightarrow> response \<times> ('s \<times> http_log list)" where
  "RequestLog t0 t1 nxt r w st =
     (let (s, logs) = st; (w', s') = nxt r w s;
          reqID = requestid_FromContext (req_ctx r);
          reqID = (if reqID = [] then rget r HeaderName else reqID)
      in (w', (s', logs @ [\<lparr>hl_method = req_method r, hl_path = req_path r, hl_status = sw_status w w',
                 hl_duration_ms = (t1 - t0) div millisecond, hl_request_id = reqID\<rparr>])))"

section \<open>The admin middleware\<close>

text \<open>
  The keys of a JSON object are collected into a map and then listed in an
  unspecified order \<open>ord\<close>.
\<close>

definition parse_pipe_groups :: "string \<Rightarrow> string list" where
  "parse_pipe_groups raw = filter (\<lambda>p. p \<noteq> []) (map TrimSpace (Split raw (CHR ''|'')))"

definition parseGroups :: "(string list \<Rightarrow> string list) \<Rightarrow> string \<Rightarrow> string list" where
  "parseGroups ord raw =
     (if raw = [] then []
      else
        (let trimmed = TrimSpace raw in
         if HasPrefix trimmed ''{'' then
           (case parse_object trimmed of
              Some ms \<Rightarrow> filter (\<lambda>p. p \<noteq> []) (map TrimSpace (ord (remdups (map fst ms))))
            | None \<Rightarrow> parse_pipe_groups raw)
         else parse_pipe_groups raw))"

record AdminConfig =
  ac_ServiceToken :: string

definition computeRoles :: "(string list \<Rightarrow> string list) \<Rightarrow> request \<Rightarrow> AdminConfig \<Rightarrow> Role list" where
  "computeRoles ord r cfg =
     (if ac_ServiceToken cfg \<noteq> [] \<and> rget r ''X-Service-Token'' = ac_ServiceToken cfg \<and>
         rget r ''X-Auth-Request-User'' = []
      then [RoleAdmin, RoleSupport]
      else RolesFromGroups (parseGroups ord (rget r ''X-Auth-Request-Groups'')))"

definition AdminMiddleware ::
  "(string list \<Rightarrow> string list) \<Rightarrow> AdminConfig \<Rightarrow> 's handler \<Rightarrow> 's handler" where
  "AdminMiddleware ord cfg nxt r w s =
     (let roles = computeRoles ord r cfg;
          r = (if roles \<noteq> [] then with_ctx (WithRoles (req_ctx r) roles) r else r)
      in nxt r w s)"

section \<open>The client address\<close>

definition SplitHostPort :: "string \<Rightarrow> string + string \<times> string" where
  "SplitHostPort hp =
     (case LastIndexByte hp (CHR '':'') of
        None \<Rightarrow> Inl ''missing port in address''
      | Some i \<Rightarrow>
          if hd hp = CHR ''['' then
            (case IndexByte hp (CHR '']'') of
               None \<Rightarrow> Inl ''missing ']' in address''
             | Some e \<Rightarrow>
                 if Suc e = length hp then Inl ''missing port in address''
                 else if Suc e \<noteq> i
                 then Inl (if hp ! Suc e = CHR '':'' then ''too many colons in address''
                           else ''missing port in address'')
                 else if CHR ''['' \<in> set (drop 1 hp) then Inl ''unexpected '[' in address''
                 else if CHR '']'' \<in> set (drop (Suc e) hp) then Inl ''unexpected ']' in address''
                 else Inr (take (e - 1) (drop 1 hp), drop (Suc i) hp))
          else if CHR '':'' \<in> set (take i hp) then Inl ''too many colons in address''
          else if CHR ''['' \<in> set hp then Inl ''unexpected '[' in address''
          else if CHR '']'' \<in> set hp then Inl ''unexpected ']' in address''
          else Inr (take i hp, drop (Suc i) hp))"

definition mw_clientIP :: "request \<Rightarrow> string" where
  "mw_clientIP r =
     (let xff = rget r ''X-Forwarded-For'' in
      if xff \<noteq> [] then
        (case IndexByte xff (CHR '','') of
           Some comma \<Rightarrow> TrimSpace (take comma xff)
         | None \<Rightarrow> TrimSpace xff)
      else (case SplitHostPort (req_remote r) of Inl _ \<Rightarrow> req_remote r | Inr (host, _) \<Rightarrow> host))"

section \<open>The rate limiter\<close>

record bucket =
  b_tokens :: int
  b_resetAt :: time

record IPRateLimiter =
  rl_capacity :: int
  rl_window :: duration
  rl_buckets :: "string \<rightharpoonup> bucket"

definition NewIPRateLimiter :: "int \<Rightarrow> duration \<Rightarrow> IPRateLimiter" where
  "NewIPRateLimiter capacity window =
     \<lparr>rl_capacity = capacity, rl_window = window, rl_buckets = Map.empty\<rparr>"

definition rl_allow :: "time \<Rightarrow> string \<Rightarrow> IPRateLimiter \<Rightarrow> bool \<times> IPRateLimiter" where
  "rl_allow now ip l =
     (let fresh = \<lparr>b_tokens = rl_capacity l - 1, b_resetAt = now + rl_window l\<rparr>;
          put = (\<lambda>b. l\<lparr>rl_buckets := (rl_buckets l)(ip \<mapsto> b)\<rparr>)
      in case rl_buckets l ip of
           None \<Rightarrow> (True, put fresh)
         | Some b \<Rightarrow>
             if b_resetAt b < now then (True, put fresh)
             else if b_tokens b \<le> 0 then (False, l)
             else (True, put (b\<lparr>b_tokens := b_tokens b - 1\<rparr>)))"

text \<open>\<^verbatim>\<open>int(window.Seconds())\<close>: the whole seconds, truncated toward zero.\<close>

definition whole_seconds :: "duration \<Rightarrow> int" where
  "whole_seconds d = (if d < 0 then - ((- d) div second) else d div second)"

definition rl_Wrap ::
  "time \<Rightarrow> 's handler \<Rightarrow> request \<Rightarrow> response \<Rightarrow> IPRateLimiter \<times> 's \<Rightarrow> response \<times> (IPRateLimiter \<times> 's)" where
  "rl_Wrap now nxt r w st =
     (let (l, s) = st; (ok, l') = rl_allow now (mw_clientIP r) l in
      if \<not> ok
      then (http_Error ''rate_limited'' 429
              (set_header ''Retry-After'' (Itoa (whole_seconds (rl_window l))) w), (l', s))
      else (let (w', s') = nxt r w s in (w', (l', s'))))"

section \<open>Lemmas on the client address\<close>

lemma LastIndexByte_take:
  "LastIndexByte s b = Some i \<Longrightarrow> i < length s \<and> s ! i = b \<and> b \<notin> set (drop (Suc i) s)"
proof (induction s arbitrary: i)
  case (Cons c s)
  have none: "LastIndexByte s b = None \<Longrightarrow> b \<notin> set s" for s
    by (induction s) (auto split: option.splits if_splits)
  from Cons show ?case by (auto split: option.splits if_splits dest: none)
qed simp

lemma IndexByte_Some: "IndexByte s b = Some i \<Longrightarrow> i < length s \<and> s ! i = b \<and> b \<notin> set (take i s)"
  by (induction s arbitrary: i) (auto split: if_splits)

lemma Trim_clean: "set s \<inter> cs = {} \<Longrightarrow> Trim s cs = s"
proof -
  assume a: "set s \<inter> cs = {}"
  have "dropWhile (\<lambda>c. c \<in> cs) x = x" if "set x \<inter> cs = {}" for x
    using that by (cases x) auto
  with a show ?thesis by (simp add: Trim_def)
qed

lemma Trim_wrapped:
  assumes "set s \<inter> cs = {}" and "a \<in> cs" and "b \<in> cs"
  shows "Trim (a # s @ [b]) cs = s"
proof (cases s)
  case Nil
  then show ?thesis using assms by (simp add: Trim_def)
next
  case (Cons c t)
  then have "dropWhile (\<lambda>c. c \<in> cs) (a # s @ [b]) = s @ [b]" using assms by simp
  moreover have "dropWhile (\<lambda>c. c \<in> cs) (rev s) = rev s"
    using assms(1) by (cases "rev s") (auto simp: rev_eq_Cons_iff)
  ultimately show ?thesis using assms(3) by (simp add: Trim_def)
qed

lemma SplitHostPort_host:
  assumes "SplitHostPort hp = Inr (host, port)" and "host \<noteq> []"
  shows "Trim (case LastIndexByte hp (CHR '':'') of Some i \<Rightarrow> if i > 0 then take i hp else hp | None \<Rightarrow> hp)
           {CHR ''['', CHR '']''} = host"
proof -
  from assms(1) obtain i where i: "LastIndexByte hp (CHR '':'') = Some i"
    by (auto simp: SplitHostPort_def split: option.splits)
  note li = LastIndexByte_take [OF i]
  show ?thesis
  proof (cases "hd hp = CHR ''[''")
    case True
    then obtain e where e: "IndexByte hp (CHR '']'') = Some e" "Suc e = i"
        "CHR ''['' \<notin> set (drop 1 hp)" "host = take (e - 1) (drop 1 hp)"
      using assms(1) i by (auto simp: SplitHostPort_def split: option.splits if_splits)
    note ie = IndexByte_Some [OF e(1)]
    have e0: "e \<noteq> 0" using ie True by (cases hp; cases e) auto
    have front: "take e hp = CHR ''['' # host"
      using True e0 li e(4) by (cases hp; cases e) auto
    then have shape: "take i hp = CHR ''['' # host @ [CHR '']'']"
      using ie e(2) take_Suc_conv_app_nth [of e hp] by simp
    have "CHR '']'' \<notin> set host" using ie front by auto
    moreover have "CHR ''['' \<notin> set host" using e(3,4) by (auto dest: in_set_takeD)
    ultimately have "set host \<inter> {CHR ''['', CHR '']''} = {}" by auto
    then show ?thesis using i e(2) shape Trim_wrapped [of host] by simp
  next
    case False
    then have h: "host = take i hp" "CHR ''['' \<notin> set hp" "CHR '']'' \<notin> set hp"
      using assms(1) i by (auto simp: SplitHostPort_def split: option.splits if_splits)
    have "i > 0" using h(1) assms(2) by (cases i) auto
    moreover have "Trim host {CHR ''['', CHR '']''} = host"
      using h by (intro Trim_clean) (auto dest: in_set_takeD)
    ultimately show ?thesis using i h by simp
  qed
qed

section \<open>Lemmas on the rate limiter\<close>

text \<open>The hits a limiter admits of a sequence of hits, each a time and an address.\<close>

fun rl_admitted :: "(time \<times> string) list \<Rightarrow> IPRateLimiter \<Rightarrow> (time \<times> string) list" where
  "rl_admitted [] l = []"
| "rl_admitted ((t, ip) # hs) l =
     (case rl_allow t ip l of
        (True, l') \<Rightarrow> (t, ip) # rl_admitted hs l'
      | (False, l') \<Rightarrow> rl_admitted hs l')"

text \<open>One address alone: a bucket that may be missing.\<close>

definition bucket_hit :: "int \<Rightarrow> duration \<Rightarrow> time \<Rightarrow> bucket option \<Rightarrow> bool \<times> bucket option" where
  "bucket_hit cap win t bo =
     (case bo of
        None \<Rightarrow> (True, Some \<lparr>b_tokens = cap - 1, b_resetAt = t + win\<rparr>)
      | Some b \<Rightarrow>
          if b_resetAt b < t then (True, Some \<lparr>b_tokens = cap - 1, b_resetAt = t + win\<rparr>)
          else if b_tokens b \<le> 0 then (False, Some b)
          else (True, Some (b\<lparr>b_tokens := b_tokens b - 1\<rparr>)))"

fun bucket_run :: "int \<Rightarrow> duration \<Rightarrow> time list \<Rightarrow> bucket option \<Rightarrow> time list" where
  "bucket_run cap win [] bo = []"
| "bucket_run cap win (t # ts) bo =
     (case bucket_hit cap win t bo of
        (True, bo') \<Rightarrow> t # bucket_run cap win ts bo'
      | (False, bo') \<Rightarrow> bucket_run cap win ts bo')"

lemma rl_allow_bucket:
  assumes "rl_allow t ip l = (ok, l')"
  shows "bucket_hit (rl_capacity l) (rl_window l) t (rl_buckets l ip) = (ok, rl_buckets l' ip)"
    and "ip' \<noteq> ip \<Longrightarrow> rl_buckets l' ip' = rl_buckets l ip'"
    and "rl_capacity l' = rl_capacity l" and "rl_window l' = rl_window l"
  using assms by (auto simp: rl_allow_def bucket_hit_def Let_def split: option.splits if_splits)

abbreviation of_ip :: "string \<Rightarrow> (time \<times> string) list \<Rightarrow> (time \<times> string) list" where
  "of_ip ip \<equiv> filter (\<lambda>h. snd h = ip)"

lemma rl_admitted_bucket:
  "map fst (of_ip ip (rl_admitted hs l)) =
     bucket_run (rl_capacity l) (rl_window l) (map fst (of_ip ip hs)) (rl_buckets l ip)"
proof (induction hs arbitrary: l)
  case (Cons h hs)
  obtain t i where h: "h = (t, i)" by (cases h)
  obtain ok l' where step: "rl_allow t i l = (ok, l')" by fastforce
  show ?case
    using Cons.IH [of l'] rl_allow_bucket [OF step] h step
    by (cases ok; cases "i = ip") auto
qed simp

lemma of_ip_times: "of_ip ip xs = map (\<lambda>t. (t, ip)) (map fst (of_ip ip xs))"
  by (induction xs) auto

lemma of_ip_eqI: "map fst (of_ip ip xs) = map fst (of_ip ip ys) \<Longrightarrow> of_ip ip xs = of_ip ip ys"
  using of_ip_times [of ip xs] of_ip_times [of ip ys] by simp

abbreviation (input) hits_in :: "time \<Rightarrow> time \<Rightarrow> time list \<Rightarrow> int" where
  "hits_in a b ts \<equiv> int (length (filter (\<lambda>t. a \<le> t \<and> t \<le> b) ts))"

lemma bucket_run_subset: "set (bucket_run cap win ts bo) \<subseteq> set ts"
  by (induction ts arbitrary: bo) (auto split: prod.splits bool.splits)

lemma hits_in_late: "(\<And>t. t \<in> set ts \<Longrightarrow> u < t) \<Longrightarrow> hits_in a u ts = 0"
  by (induction ts) fastforce+

lemma hits_in_run_late: "(\<And>t. t \<in> set ts \<Longrightarrow> u < t) \<Longrightarrow> hits_in a u (bucket_run cap win ts bo) = 0"
  using bucket_run_subset [of cap win ts bo] by (intro hits_in_late) auto

text \<open>Up to the end of its window a bucket admits no more hits than it has tokens.\<close>

lemma bucket_run_same_window:
  assumes "u \<le> b_resetAt b" and "sorted ts"
  shows "hits_in a u (bucket_run cap win ts (Some b)) \<le> max 0 (b_tokens b)"
  using assms
proof (induction ts arbitrary: b)
  case (Cons t ts)
  show ?case
  proof (cases "b_resetAt b < t")
    case True
    then have "\<And>t'. t' \<in> set (t # ts) \<Longrightarrow> u < t'" using Cons.prems by auto
    then show ?thesis by (subst hits_in_run_late) auto
  next
    case False
    then show ?thesis
      using Cons.IH [of b] Cons.IH [of "b\<lparr>b_tokens := b_tokens b - 1\<rparr>"] Cons.prems
      by (auto simp: bucket_hit_def)
  qed
qed simp

text \<open>Up to a window later at most one more bucket is opened.\<close>

lemma bucket_run_next_window:
  assumes "u \<le> b_resetAt b + win" and "sorted ts"
  shows "hits_in a u (bucket_run cap win ts (Some b)) \<le> max 0 (b_tokens b) + max 1 cap"
  using assms
proof (induction ts arbitrary: b)
  case (Cons t ts)
  show ?case
  proof (cases "b_resetAt b < t")
    case True
    then have "u \<le> t + win" using Cons.prems by simp
    then have "hits_in a u (bucket_run cap win ts (Some \<lparr>b_tokens = cap - 1, b_resetAt = t + win\<rparr>)) \<le> max 0 (cap - 1)"
      using bucket_run_same_window [of u "\<lparr>b_tokens = cap - 1, b_resetAt = t + win\<rparr>" ts a cap win] Cons.prems by simp
    then show ?thesis using True by (auto simp: bucket_hit_def)
  next
    case False
    then show ?thesis
      using Cons.IH [of b] Cons.IH [of "b\<lparr>b_tokens := b_tokens b - 1\<rparr>"] Cons.prems
      by (auto simp: bucket_hit_def)
  qed
qed simp

lemma bucket_run_bound:
  assumes "sorted ts" and "\<And>b. bo = Some b \<Longrightarrow> b_tokens b \<le> cap - 1" and "0 \<le> win"
  shows "hits_in a (a + win) (bucket_run cap win ts bo) \<le> 2 * max 1 cap"
  using assms(1,2)
proof (induction ts arbitrary: bo)
  case (Cons t ts)
  let ?fresh = "\<lparr>b_tokens = cap - 1, b_resetAt = t + win\<rparr>"
  obtain ok bo' where hit: "bucket_hit cap win t bo = (ok, bo')" by fastforce
  then obtain b where b: "bo' = Some b" "b_tokens b \<le> cap - 1"
    using Cons.prems(2) by (fastforce simp: bucket_hit_def split: option.splits if_splits)
  have ih: "hits_in a (a + win) (bucket_run cap win ts bo') \<le> 2 * max 1 cap"
    using Cons.IH [of bo'] Cons.prems(1) b by simp
  show ?case
  proof (cases "a \<le> t \<and> ok")
    case False
    then show ?thesis using ih hit by (auto split: bool.splits)
  next
    case True
    have reset: "b = ?fresh \<or> (\<exists>b0. bo = Some b0 \<and> t \<le> b_resetAt b0 \<and> b = b0\<lparr>b_tokens := b_tokens b0 - 1\<rparr>)"
      using hit b(1) True by (auto simp: bucket_hit_def split: option.splits if_splits)
    then show ?thesis
    proof
      assume "b = ?fresh"
      then have "hits_in a (a + win) (bucket_run cap win ts bo') \<le> max 0 (cap - 1)"
        using bucket_run_same_window [of "a + win" b ts a cap win] True Cons.prems(1) b by simp
      then show ?thesis using hit True by auto
    next
      assume "\<exists>b0. bo = Some b0 \<and> t \<le> b_resetAt b0 \<and> b = b0\<lparr>b_tokens := b_tokens b0 - 1\<rparr>"
      then obtain b0 where b0: "bo = Some b0" "t \<le> b_resetAt b0" "b = b0\<lparr>b_tokens := b_tokens b0 - 1\<rparr>" by blast
      then have "hits_in a (a + win) (bucket_run cap win ts bo') \<le> max 0 (b_tokens b) + max 1 cap"
        using bucket_run_next_window [of "a + win" b win ts a cap] True Cons.prems(1) b by simp
      moreover have "b_tokens b \<le> cap - 2" using b0 Cons.prems(2) by auto
      ultimately show ?thesis using hit True b by auto
    qed
  qed
qed simp

text \<open>Within the window of a bucket the first hits are admitted, as many as there are tokens.\<close>

lemma bucket_run_in_window:
  assumes "\<And>t. t \<in> set ts \<Longrightarrow> t \<le> b_resetAt b"
  shows "bucket_run cap win ts (Some b) = take (nat (b_tokens b)) ts"
  using assms
proof (induction ts arbitrary: b)
  case (Cons t ts)
  then have t: "\<not> b_resetAt b < t" by (simp add: not_less)
  show ?case
  proof (cases "b_tokens b \<le> 0")
    case True
    then show ?thesis using Cons.IH [of b] Cons.prems t by (simp add: bucket_hit_def)
  next
    case False
    then have "nat (b_tokens b) = Suc (nat (b_tokens b - 1))" by simp
    then show ?thesis
      using Cons.IH [of "b\<lparr>b_tokens := b_tokens b - 1\<rparr>"] Cons.prems t False by (simp add: bucket_hit_def)
  qed
qed simp

section \<open>Properties\<close>

text \<open>
  The rate limiter treats addresses independently: which hits of an address it
  admits is what it would admit if that address were the only client.
\<close>

lemma rate_limit_isolated: "of_ip ip (rl_admitted hs l) = rl_admitted (of_ip ip hs) l"
proof -
  have only: "of_ip ip (rl_admitted (of_ip ip hs) l) = rl_admitted (of_ip ip hs) l"
  proof (induction hs arbitrary: l)
    case (Cons h hs)
    then show ?case by (cases h) (auto split: prod.splits bool.splits)
  qed simp
  have "of_ip ip (rl_admitted hs l) = of_ip ip (rl_admitted (of_ip ip hs) l)"
    by (rule of_ip_eqI) (simp add: rl_admitted_bucket)
  then show ?thesis by (simp only: only)
qed

text \<open>
  C13. Whatever other clients do, an address never gets more than twice the capacity
  in any time span of the length of the window (a capacity below one counts as
  one).
\<close>

theorem rate_limit_bound:
  assumes "sorted (map fst hs)" and "0 \<le> win"
  shows "int (length (filter (\<lambda>(t, i). i = ip \<and> a \<le> t \<and> t \<le> a + win) (rl_admitted hs (NewIPRateLimiter cap win))))
           \<le> 2 * max 1 cap"
proof -
  let ?l = "NewIPRateLimiter cap win"
  have "filter (\<lambda>(t, i). i = ip \<and> a \<le> t \<and> t \<le> a + win) (rl_admitted hs ?l)
      = filter (\<lambda>h. a \<le> fst h \<and> fst h \<le> a + win) (of_ip ip (rl_admitted hs ?l))"
    by (auto simp: filter_filter intro: filter_cong)
  then have "int (length (filter (\<lambda>(t, i). i = ip \<and> a \<le> t \<and> t \<le> a + win) (rl_admitted hs ?l)))
      = hits_in a (a + win) (map fst (of_ip ip (rl_admitted hs ?l)))"
    by (simp add: filter_map comp_def)
  also have "\<dots> \<le> 2 * max 1 cap"
    using bucket_run_bound [OF sorted_filter [OF assms(1)] _ assms(2), of None]
    by (simp add: rl_admitted_bucket NewIPRateLimiter_def)
  finally show ?thesis .
qed

theorem rate_limit_bound_witness:
  "int (length (filter (\<lambda>(t, i). i = ''a'' \<and> 5 \<le> t \<and> t \<le> 5 + 10)
     (rl_admitted [(0, ''a''), (5, ''b''), (9, ''a''), (11, ''a'')] (NewIPRateLimiter 2 10)))) \<le> 4"
  using rate_limit_bound [of "[(0, ''a''), (5, ''b''), (9, ''a''), (11, ''a'')]" 10 "''a''" 5 2] by simp

text \<open>
  From a client's first hit, or its first after the window has elapsed, exactly
  the first \<^verbatim>\<open>capacity\<close> of its hits within the window are admitted, interleaved hits of
  other clients notwithstanding; a capacity of zero or less still admits one.
\<close>

lemma rate_limit_first_window:
  assumes "of_ip ip hs = (t0, ip) # rest"
    and "\<And>t i. (t, i) \<in> set rest \<Longrightarrow> t \<le> t0 + rl_window l"
    and "rl_buckets l ip = None \<or> b_resetAt (the (rl_buckets l ip)) < t0"
  shows "of_ip ip (rl_admitted hs l) = take (nat (max 1 (rl_capacity l))) (of_ip ip hs)"
proof -
  let ?fresh = "\<lparr>b_tokens = rl_capacity l - 1, b_resetAt = t0 + rl_window l\<rparr>"
  have n: "nat (max 1 (rl_capacity l)) = Suc (nat (rl_capacity l - 1))" by simp
  have "bucket_hit (rl_capacity l) (rl_window l) t0 (rl_buckets l ip) = (True, Some ?fresh)"
    using assms(3) by (auto simp: bucket_hit_def split: option.splits)
  moreover have "bucket_run (rl_capacity l) (rl_window l) (map fst rest) (Some ?fresh)
      = take (nat (rl_capacity l - 1)) (map fst rest)"
    using assms(2) by (subst bucket_run_in_window) auto
  ultimately have times: "map fst (of_ip ip (rl_admitted hs l)) = take (nat (max 1 (rl_capacity l))) (map fst (of_ip ip hs))"
    by (simp add: rl_admitted_bucket assms(1) n)
  have "of_ip ip (rl_admitted hs l) = map (\<lambda>t. (t, ip)) (map fst (of_ip ip (rl_admitted hs l)))"
    by (rule of_ip_times)
  also have "\<dots> = take (nat (max 1 (rl_capacity l))) (map (\<lambda>t. (t, ip)) (map fst (of_ip ip hs)))"
    by (simp only: times take_map)
  also have "map (\<lambda>t. (t, ip)) (map fst (of_ip ip hs)) = of_ip ip hs"
    by (rule of_ip_times [symmetric])
  finally show ?thesis .
qed

lemma rate_limit_first_window_witness:
  "of_ip ''a'' (rl_admitted [(0, ''a''), (1, ''b''), (3, ''a''), (5, ''a'')] (NewIPRateLimiter 2 10))
     = [(0, ''a''), (3, ''a'')]"
proof -
  have "of_ip ''a'' (rl_admitted [(0, ''a''), (1, ''b''), (3, ''a''), (5, ''a'')] (NewIPRateLimiter 2 10))
      = take (nat (max 1 (rl_capacity (NewIPRateLimiter 2 10))))
          (of_ip ''a'' [(0, ''a''), (1, ''b''), (3, ''a''), (5, ''a'')])"
    by (rule rate_limit_first_window [where ?t0.0 = 0 and rest = "[(3, ''a''), (5, ''a'')]"])
       (auto simp: NewIPRateLimiter_def)
  then show ?thesis by (simp add: NewIPRateLimiter_def)
qed

text \<open>
  For every remote address of the form host:port that \<^verbatim>\<open>net.SplitHostPort\<close> accepts
  with a host, bracketed IPv6 included, the audit log and the rate limiter agree on
  the client's address, whatever the forwarding header says.
\<close>

lemma client_ip_agreement:
  assumes "SplitHostPort (req_remote r) = Inr (host, port)" and "host \<noteq> []"
  shows "audit_clientIP r = mw_clientIP r \<and> (rget r ''X-Forwarded-For'' = [] \<longrightarrow> mw_clientIP r = host)"
  using SplitHostPort_host [OF assms] assms(1)
  by (simp add: audit_clientIP_def mw_clientIP_def Let_def)

lemma client_ip_agreement_witness:
  "audit_clientIP \<lparr>req_method = [], req_path = [], req_header = Map.empty, req_remote = ''[::1]:8080'',
     req_cookies = [], req_ctx = []\<rparr> = ''::1''"
proof -
  let ?r = "\<lparr>req_method = [], req_path = [], req_header = Map.empty, req_remote = ''[::1]:8080'',
     req_cookies = [], req_ctx = []\<rparr>"
  have "SplitHostPort (req_remote ?r) = Inr (''::1'', ''8080'')" by code_simp
  from client_ip_agreement [OF this] show ?thesis by simp
qed

text \<open>
  C28. With a token configured, a request to any path but the four health paths
  reaches the handler only with exactly that bearer token or service token; every
  other request is answered 401 and the handler does not run. \<^verbatim>\<open>MustBearerAuth\<close>
  refuses the empty token, with which the check would be off.
\<close>

theorem bearer_auth_gate:
  assumes "MustBearerAuth token nxt = Inr h"
    and "req_path r \<notin> {''/health'', ''/healthz'', ''/ready'', ''/readyz''}"
  shows "h r w s =
     (if rget r ''Authorization'' = ''Bearer '' @ token \<or> rget r ''X-Service-Token'' = token
      then nxt r w s else (http_Error unauthorized_body 401 w, s))"
proof -
  have tok: "token \<noteq> []" and h: "h = BearerAuth token nxt"
    using assms(1) by (auto simp: MustBearerAuth_def split: if_splits)
  have bearer: "HasPrefix a ''Bearer '' \<and> drop 7 a = token \<longleftrightarrow> a = ''Bearer '' @ token" for a
    using HasPrefix_drop [of a "''Bearer ''" token] by (simp add: numeral_eq_Suc)
  show ?thesis
    using tok assms(2) bearer [of "rget r ''Authorization''"] unfolding h BearerAuth_def Let_def by auto
qed

theorem bearer_auth_gate_witness:
  "\<exists>h. MustBearerAuth ''tok'' (\<lambda>r w s. (w, Suc s)) = Inr h \<and>
     h \<lparr>req_method = ''GET'', req_path = ''/x'', req_header = hset ''Authorization'' ''Bearer to'' Map.empty,
        req_remote = [], req_cookies = [], req_ctx = []\<rparr> new_response (0::nat)
     = (http_Error unauthorized_body 401 new_response, 0)"
proof -
  let ?n = "\<lambda>r w s. (w, Suc s)"
  let ?r = "\<lparr>req_method = ''GET'', req_path = ''/x'', req_header = hset ''Authorization'' ''Bearer to'' Map.empty,
        req_remote = [], req_cookies = [], req_ctx = []\<rparr>"
  have m: "MustBearerAuth ''tok'' ?n = Inr (BearerAuth ''tok'' ?n)" by (simp add: MustBearerAuth_def)
  have "BearerAuth ''tok'' ?n ?r new_response 0 = (http_Error unauthorized_body 401 new_response, 0)"
    using bearer_auth_gate [OF m, of ?r new_response 0] by simp
  with m show ?thesis by blast
qed

lemma parseGroups_order:
  assumes "range_order ord"
  shows "set (parseGroups ord raw) = set (parseGroups (\<lambda>ks. ks) raw)"
proof -
  have "set (ord (remdups ks)) = set ks" for ks
    using assms by (simp add: range_order_def)
  then show ?thesis by (auto simp: parseGroups_def Let_def split: option.splits)
qed

text \<open>
  C33. Behind the admin middleware, a handler gated on the admin role runs exactly for
  service calls (the configured token and no user header) and for users with the
  group \<^verbatim>\<open>omur-admin\<close>, whatever order the groups of a JSON claim are visited in; all
  others get 403 and the handler's state is untouched.
\<close>

theorem admin_gate:
  assumes "range_order ord" and "RolesFromContext (req_ctx r) = []"
  shows "AdminMiddleware ord cfg
           (\<lambda>r w s. case RequireRole w r RoleAdmin of (True, w') \<Rightarrow> h r w' s | (False, w') \<Rightarrow> (w', s)) r w s =
     (if (ac_ServiceToken cfg \<noteq> [] \<and> rget r ''X-Service-Token'' = ac_ServiceToken cfg \<and>
            rget r ''X-Auth-Request-User'' = []) \<or>
         ''omur-admin'' \<in> set (parseGroups (\<lambda>ks. ks) (rget r ''X-Auth-Request-Groups''))
      then h (with_ctx (WithRoles (req_ctx r) (computeRoles ord r cfg)) r) w s
      else (write_body forbidden_body (write_header 403 (set_header ''Content-Type'' ''application/json'' w)), s))"
proof -
  let ?roles = "computeRoles ord r cfg"
  have "RoleAdmin \<in> set ?roles \<longleftrightarrow>
      (ac_ServiceToken cfg \<noteq> [] \<and> rget r ''X-Service-Token'' = ac_ServiceToken cfg \<and>
         rget r ''X-Auth-Request-User'' = []) \<or>
      ''omur-admin'' \<in> set (parseGroups (\<lambda>ks. ks) (rget r ''X-Auth-Request-Groups''))"
    unfolding computeRoles_def by (auto simp: role_in_groups parseGroups_order [OF assms(1)])
  moreover have "\<not> HasRole (req_ctx r) RoleAdmin" by (simp add: HasRole_def assms(2))
  ultimately show ?thesis
    by (cases "RoleAdmin \<in> set ?roles") (auto simp: AdminMiddleware_def RequireRole_def Let_def)
qed

theorem admin_gate_witness:
  "fst (AdminMiddleware rev \<lparr>ac_ServiceToken = ''svc''\<rparr>
     (\<lambda>r w s. case RequireRole w r RoleAdmin of (True, w') \<Rightarrow> (w', Suc s) | (False, w') \<Rightarrow> (w', s))
     \<lparr>req_method = [], req_path = [], req_header = hset ''X-Auth-Request-Groups'' ''omur-user | omur-admin'' Map.empty,
      req_remote = [], req_cookies = [], req_ctx = []\<rparr> new_response (0::nat)) = new_response"
proof -
  let ?r = "\<lparr>req_method = [], req_path = [], req_header = hset ''X-Auth-Request-Groups'' ''omur-user | omur-admin'' Map.empty,
      req_remote = [], req_cookies = [], req_ctx = []\<rparr>"
  have g: "''omur-admin'' \<in> set (parseGroups (\<lambda>ks. ks) ''omur-user | omur-admin'')" by code_simp
  have c: "RolesFromContext (req_ctx ?r) = []" by (simp add: RolesFromContext_def ctx_Value_def)
  show ?thesis
    using admin_gate [OF range_order_rev c, of "\<lparr>ac_ServiceToken = ''svc''\<rparr>" "\<lambda>r w s. (w, Suc s)" new_response 0] g
    by simp
qed


end
