(* ===== verification/Feature_Flags.thy ===== *)
theory Feature_Flags
  imports Auth
begin

text \<open>
  Package \<^verbatim>\<open>featureflags\<close> (\<^verbatim>\<open>src/featureflags/\<close>): role-gated flags, the static store and the
  store that caches the flags of the settings table with a time to live.

  The refresher of a store is a parameter: each call returns a snapshot or an
  error. \<^verbatim>\<open>Refresh\<close> runs inside a singleflight group and \<^verbatim>\<open>Invalidate\<close> under a mutex, so
  there is at most one of each at a time, but nothing orders the two against each
  other; the step relation below interleaves their atomic parts.
\<close>

section \<open>Flags and the stores\<close>

record Flag =
  fl_Enabled :: bool
  fl_Roles :: "Role list"

definition no_flag :: Flag where
  "no_flag = \<lparr>fl_Enabled = False, fl_Roles = []\<rparr>"

type_synonym flags = "string \<rightharpoonup> Flag"

definition ValidateRoles :: "string list \<Rightarrow> string" where
  "ValidateRoles roles =
     (case find (\<lambda>r. r \<notin> {RoleAdmin, RoleSupport, RoleUser}) roles of None \<Rightarrow> [] | Some r \<Rightarrow> r)"

definition map_get :: "flags \<Rightarrow> string \<Rightarrow> Flag \<times> bool" where
  "map_get m key = (case m key of None \<Rightarrow> (no_flag, False) | Some f \<Rightarrow> (f, True))"

text \<open>\<^verbatim>\<open>Allowed\<close>, for a store given by its \<^verbatim>\<open>Get\<close>.\<close>

definition ff_Allowed :: "ctx \<Rightarrow> (string \<Rightarrow> Flag \<times> bool) \<Rightarrow> string \<Rightarrow> bool" where
  "ff_Allowed c get key =
     (let (flag, ok) = get key in
      if \<not> ok \<or> \<not> fl_Enabled flag then False
      else
        (let callerRoles = RolesFromContext c in
         if callerRoles = [] \<or> fl_Roles flag = [] then False
         else list_ex (\<lambda>cr. list_ex (\<lambda>fr. cr = fr) (fl_Roles flag)) callerRoles))"

record StaticStore =
  ss_flags :: flags

definition NewStaticStore :: "flags \<Rightarrow> StaticStore" where
  "NewStaticStore m = \<lparr>ss_flags = m\<rparr>"

definition static_Get :: "StaticStore \<Rightarrow> string \<Rightarrow> Flag \<times> bool" where
  "static_Get s key = map_get (ss_flags s) key"

definition static_Refresh :: "StaticStore \<Rightarrow> go_error \<times> StaticStore" where
  "static_Refresh s = (None, s)"

definition static_AllFlags :: "StaticStore \<Rightarrow> flags" where
  "static_AllFlags s = ss_flags s"

section \<open>The cached store\<close>

record PostgresStore =
  ps_ttl :: duration
  ps_ptr :: flags
  ps_lastRefreshed :: time

definition NewStoreWithRefresher :: "duration \<Rightarrow> PostgresStore" where
  "NewStoreWithRefresher ttl = \<lparr>ps_ttl = ttl, ps_ptr = Map.empty, ps_lastRefreshed = 0\<rparr>"

definition ff_stale :: "time \<Rightarrow> PostgresStore \<Rightarrow> bool" where
  "ff_stale now s =
     (if ps_lastRefreshed s = 0 then True else now - ps_lastRefreshed s > ps_ttl s)"

text \<open>\<^verbatim>\<open>Get\<close> and \<^verbatim>\<open>AllFlags\<close> also tell whether they started a background refresh.\<close>

definition ff_Get :: "time \<Rightarrow> PostgresStore \<Rightarrow> string \<Rightarrow> (Flag \<times> bool) \<times> bool" where
  "ff_Get now s key = (map_get (ps_ptr s) key, ff_stale now s)"

definition ff_AllFlags :: "time \<Rightarrow> PostgresStore \<Rightarrow> flags \<times> bool" where
  "ff_AllFlags now s = (ps_ptr s, ff_stale now s)"

definition refresh_store :: "flags \<Rightarrow> PostgresStore \<Rightarrow> PostgresStore" where
  "refresh_store m s = s\<lparr>ps_ptr := m\<rparr>"

definition refresh_stamp :: "time \<Rightarrow> PostgresStore \<Rightarrow> PostgresStore" where
  "refresh_stamp now s = s\<lparr>ps_lastRefreshed := now\<rparr>"

definition ff_Refresh :: "string + flags \<Rightarrow> time \<Rightarrow> PostgresStore \<Rightarrow> go_error \<times> PostgresStore" where
  "ff_Refresh loaded now s =
     (case loaded of
        Inl err \<Rightarrow> (Some err, s)
      | Inr m \<Rightarrow> (None, refresh_stamp now (refresh_store m s)))"

text \<open>The two accesses of \<^verbatim>\<open>Invalidate\<close> to the shared pointer: it reads the old map, then stores the copy.\<close>

definition inval_store :: "string \<Rightarrow> flags \<Rightarrow> PostgresStore \<Rightarrow> PostgresStore" where
  "inval_store key old s = s\<lparr>ps_ptr := old(key := None)\<rparr>"

definition ff_Invalidate :: "string \<Rightarrow> PostgresStore \<Rightarrow> PostgresStore" where
  "ff_Invalidate key s = (let old = ps_ptr s in inval_store key old s)"

definition ff_tryRefresh :: "string + flags \<Rightarrow> time \<Rightarrow> PostgresStore \<Rightarrow> PostgresStore" where
  "ff_tryRefresh loaded now s = snd (ff_Refresh loaded now s)"

section \<open>Loading flags from the settings table\<close>

definition flag_fields :: "string list" where
  "flag_fields = [''enabled'', ''roles'']"

definition ParseFromJSON :: "string \<Rightarrow> Flag" where
  "ParseFromJSON raw =
     (case parse_object raw of
        None \<Rightarrow> no_flag
      | Some ms \<Rightarrow>
          (let members = map (\<lambda>(k, raw, v). (k, v)) ms in
           case (set_bool False (field_values flag_fields ''enabled'' members),
                 set_strings ([], 0) (field_values flag_fields ''roles'' members)) of
             (Some e, Some (b, n)) \<Rightarrow> \<lparr>fl_Enabled = e, fl_Roles = take n b\<rparr>
           | _ \<Rightarrow> no_flag))"

text \<open>\<^verbatim>\<open>SELECT key, value_json FROM app_settings WHERE key LIKE 'flag.%'\<close> on a table.\<close>

definition select_flags :: "(string \<times> string) list \<Rightarrow> (string \<times> string) rows" where
  "select_flags table = Rows (map Inr (filter (\<lambda>(k, v). HasPrefix k ''flag.'') table)) None"

fun scan_flags :: "(string + string \<times> string) list \<Rightarrow> flags \<Rightarrow> string + flags" where
  "scan_flags [] out = Inr out"
| "scan_flags (Inl err # rs) out = Inl err"
| "scan_flags (Inr (key, raw) # rs) out = scan_flags rs (out(key \<mapsto> ParseFromJSON raw))"

definition loadFromPool :: "(string \<times> string) rows \<Rightarrow> string + flags" where
  "loadFromPool res =
     (case res of
        QueryFailed err \<Rightarrow> Inl err
      | Rows rs fin \<Rightarrow>
          (case scan_flags rs Map.empty of
             Inl err \<Rightarrow> Inl err
           | Inr out \<Rightarrow> (case fin of Some err \<Rightarrow> Inl err | None \<Rightarrow> Inr out)))"

definition LoadForService :: "(string \<times> string) rows \<Rightarrow> string + flags" where
  "LoadForService res = loadFromPool res"

definition NewPostgresStore :: "duration \<Rightarrow> PostgresStore" where
  "NewPostgresStore ttl = NewStoreWithRefresher ttl"

section \<open>The store interface\<close>

text \<open>
  What \<^verbatim>\<open>Allowed\<close> relies on of a store: \<^verbatim>\<open>Get\<close> reads a map of flags, and a flag that is not in
  it is reported as absent.
\<close>

locale flag_store =
  fixes contents :: "'s \<Rightarrow> flags"
    and get :: "'s \<Rightarrow> string \<Rightarrow> Flag \<times> bool"
  assumes get_present: "contents s k = Some f \<Longrightarrow> get s k = (f, True)"
    and get_absent: "contents s k = None \<Longrightarrow> \<not> snd (get s k)"
begin

lemma allowed_iff:
  "ff_Allowed c (get s) k \<longleftrightarrow>
     (\<exists>f r. contents s k = Some f \<and> fl_Enabled f \<and> r \<in> set (fl_Roles f) \<and> HasRole c r)"
proof (cases "contents s k")
  case None
  then show ?thesis using get_absent [of s k] by (auto simp: ff_Allowed_def Let_def split: prod.splits)
next
  case (Some f)
  then show ?thesis
    using get_present [of s k f] by (auto simp: ff_Allowed_def Let_def list_ex_iff HasRole_def)
qed

lemma no_roles_denied: "RolesFromContext c = [] \<Longrightarrow> \<not> ff_Allowed c (get s) k"
  by (simp add: allowed_iff HasRole_def)

end

interpretation static: flag_store ss_flags static_Get
  by unfold_locales (simp_all add: static_Get_def map_get_def)

interpretation cached: flag_store ps_ptr "\<lambda>s k. fst (ff_Get now s k)"
  by unfold_locales (simp_all add: ff_Get_def map_get_def)

section \<open>Concurrent refreshes and invalidations\<close>

datatype flight = Idle | Loading | Loaded flags | Stored

record ff_world =
  fw_store :: PostgresStore
  fw_flight :: flight
  fw_inval :: "(string \<times> flags) option"
  fw_db :: flags
  fw_now :: time

inductive ff_step :: "ff_world \<Rightarrow> ff_world \<Rightarrow> bool" where
  tick: "fw_now w \<le> t \<Longrightarrow> ff_step w (w\<lparr>fw_now := t\<rparr>)"
| db_write: "ff_step w (w\<lparr>fw_db := db\<rparr>)"
| refresh_begin: "fw_flight w = Idle \<Longrightarrow> ff_step w (w\<lparr>fw_flight := Loading\<rparr>)"
| refresh_fail: "fw_flight w = Loading \<Longrightarrow> ff_step w (w\<lparr>fw_flight := Idle\<rparr>)"
| refresh_load: "fw_flight w = Loading \<Longrightarrow> ff_step w (w\<lparr>fw_flight := Loaded (fw_db w)\<rparr>)"
| refresh_ptr: "fw_flight w = Loaded m \<Longrightarrow>
    ff_step w (w\<lparr>fw_store := refresh_store m (fw_store w), fw_flight := Stored\<rparr>)"
| refresh_time: "fw_flight w = Stored \<Longrightarrow>
    ff_step w (w\<lparr>fw_store := refresh_stamp (fw_now w) (fw_store w), fw_flight := Idle\<rparr>)"
| inval_begin: "fw_inval w = None \<Longrightarrow> ff_step w (w\<lparr>fw_inval := Some (key, ps_ptr (fw_store w))\<rparr>)"
| inval_end: "fw_inval w = Some (key, old) \<Longrightarrow>
    ff_step w (w\<lparr>fw_store := inval_store key old (fw_store w), fw_inval := None\<rparr>)"

definition ff_init :: "duration \<Rightarrow> flags \<Rightarrow> time \<Rightarrow> ff_world" where
  "ff_init ttl db now = \<lparr>fw_store = NewStoreWithRefresher ttl, fw_flight = Idle, fw_inval = None,
     fw_db = db, fw_now = now\<rparr>"

text \<open>Runs carry the history of the database contents.\<close>

inductive ff_run :: "ff_world \<Rightarrow> flags set \<Rightarrow> ff_world \<Rightarrow> bool" for w0 where
  run_start: "ff_run w0 {fw_db w0} w0"
| run_step: "ff_run w0 H w \<Longrightarrow> ff_step w w' \<Longrightarrow> ff_run w0 (insert (fw_db w') H) w'"

definition from_history :: "flags set \<Rightarrow> flags \<Rightarrow> bool" where
  "from_history H m \<longleftrightarrow> (\<exists>db \<in> insert Map.empty H. m \<subseteq>\<^sub>m db)"

definition world_inv :: "flags set \<Rightarrow> ff_world \<Rightarrow> bool" where
  "world_inv H w \<longleftrightarrow> fw_db w \<in> H \<and> from_history H (ps_ptr (fw_store w)) \<and>
     (\<forall>m. fw_flight w = Loaded m \<longrightarrow> from_history H m) \<and>
     (\<forall>key old. fw_inval w = Some (key, old) \<longrightarrow> from_history H old)"

lemma from_history_insert: "from_history H m \<Longrightarrow> from_history (insert db H) m"
  by (auto simp: from_history_def)

lemma from_history_del: "from_history H m \<Longrightarrow> from_history H (m(k := None))"
proof -
  assume "from_history H m"
  then obtain db where "db \<in> insert Map.empty H" "m \<subseteq>\<^sub>m db" by (auto simp: from_history_def)
  moreover have "m(k := None) \<subseteq>\<^sub>m db" using \<open>m \<subseteq>\<^sub>m db\<close> by (auto simp: map_le_def)
  ultimately show ?thesis unfolding from_history_def by blast
qed

lemma from_history_db: "db \<in> H \<Longrightarrow> from_history H db"
  unfolding from_history_def by (rule bexI [of _ db]) simp_all

lemma world_inv_insert: "world_inv H w \<Longrightarrow> world_inv (insert db H) w"
  by (auto simp: world_inv_def intro: from_history_insert)

lemma world_inv_step:
  assumes "ff_step w w'" and "world_inv H w"
  shows "world_inv (insert (fw_db w') H) w'"
  using assms
proof (cases rule: ff_step.cases)
  case (db_write db)
  then show ?thesis using assms(2) by (auto simp: world_inv_def intro: from_history_insert)
next
  case (inval_end key old)
  then show ?thesis using assms(2)
    by (auto simp: world_inv_def inval_store_def intro!: from_history_insert from_history_del)
qed (use assms(2) in \<open>auto simp: world_inv_def refresh_store_def refresh_stamp_def
       intro: from_history_insert from_history_db\<close>)

lemma ff_run_inv: "ff_run (ff_init ttl db now) H w \<Longrightarrow> world_inv H w"
proof (induction rule: ff_run.induct)
  case run_start
  show ?case by (auto simp: world_inv_def ff_init_def NewStoreWithRefresher_def from_history_def)
next
  case (run_step H w w')
  then show ?case by (blast intro: world_inv_step)
qed

section \<open>Properties\<close>

text \<open>
  A flag is allowed for a caller exactly when the store's snapshot has it, it is
  enabled and it lists one of the caller's roles; the cached store and the static
  store decide alike on the same flags.
\<close>

lemma flag_allowed_exact:
  "(ff_Allowed c (\<lambda>k. fst (ff_Get now s k)) key \<longleftrightarrow>
      (\<exists>f r. ps_ptr s key = Some f \<and> fl_Enabled f \<and> r \<in> set (fl_Roles f) \<and> HasRole c r)) \<and>
   ff_Allowed c (static_Get (NewStaticStore (ps_ptr s))) key = ff_Allowed c (\<lambda>k. fst (ff_Get now s k)) key"
  by (simp add: cached.allowed_iff static.allowed_iff NewStaticStore_def)

text \<open>
  C35. Whatever the interleaving of refreshes, failed refreshes, invalidations and
  updates of the settings table, every flag the store serves is one the table held
  for that key at some earlier moment.
\<close>

theorem served_flags_were_stored:
  assumes "ff_run (ff_init ttl db now) H w" and "fst (ff_Get t (fw_store w) key) = (f, True)"
  shows "\<exists>m \<in> H. m key = Some f"
proof -
  have "ps_ptr (fw_store w) key = Some f"
    using assms(2) by (auto simp: ff_Get_def map_get_def split: option.splits)
  moreover obtain m where "m \<in> insert Map.empty H" "ps_ptr (fw_store w) \<subseteq>\<^sub>m m"
    using ff_run_inv [OF assms(1)] by (auto simp: world_inv_def from_history_def)
  ultimately have "m key = Some f" "m \<in> H" by (auto simp: map_le_def dom_def)
  then show ?thesis by blast
qed

definition on_flag :: Flag where
  "on_flag = \<lparr>fl_Enabled = True, fl_Roles = [RoleAdmin]\<rparr>"

theorem served_flags_were_stored_witness:
  "\<exists>H w. ff_run (ff_init 10 [''flag.x'' \<mapsto> on_flag] 5) H w \<and>
     fst (ff_Get 6 (fw_store w) ''flag.x'') = (on_flag, True) \<and> (\<exists>m \<in> H. m ''flag.x'' = Some on_flag)"
proof -
  let ?db = "[''flag.x'' \<mapsto> on_flag]"
  let ?w0 = "ff_init 10 ?db 5"
  let ?w1 = "?w0\<lparr>fw_flight := Loading\<rparr>"
  let ?w2 = "?w1\<lparr>fw_flight := Loaded (fw_db ?w1)\<rparr>"
  let ?w3 = "?w2\<lparr>fw_store := refresh_store ?db (fw_store ?w2), fw_flight := Stored\<rparr>"
  have "ff_run ?w0 (insert (fw_db ?w1) {fw_db ?w0}) ?w1"
    by (rule run_step [OF run_start], rule refresh_begin) (simp add: ff_init_def)
  then have "ff_run ?w0 (insert (fw_db ?w2) (insert (fw_db ?w1) {fw_db ?w0})) ?w2"
    by (rule run_step, intro refresh_load) simp
  then have run: "ff_run ?w0 (insert (fw_db ?w3) (insert (fw_db ?w2) (insert (fw_db ?w1) {fw_db ?w0}))) ?w3"
    by (rule run_step, intro refresh_ptr) (simp add: ff_init_def)
  have got: "fst (ff_Get 6 (fw_store ?w3) ''flag.x'') = (on_flag, True)"
    by (simp add: ff_Get_def map_get_def refresh_store_def)
  from served_flags_were_stored [OF run got] run got show ?thesis by blast
qed

text \<open>
  A refresh that completes between the two accesses of an \<^verbatim>\<open>Invalidate\<close> is lost: the
  store goes back to the old snapshot, without the invalidated key, although the
  refresh has been recorded, so that the snapshot just loaded is not read again
  before the time to live has passed.
\<close>

lemma invalidate_loses_refresh:
  "let old = ps_ptr s; (err, s1) = ff_Refresh (Inr m) now s; s2 = inval_store key old s1
   in err = None \<and> ps_ptr s1 = m \<and> ps_ptr s2 = (ps_ptr s)(key := None) \<and>
      (now \<noteq> 0 \<and> t - now \<le> ps_ttl s \<longrightarrow> \<not> ff_stale t s2)"
  by (simp add: ff_Refresh_def refresh_store_def refresh_stamp_def inval_store_def ff_stale_def)

lemma invalidate_loses_refresh_witness:
  "\<not> ff_stale 15 (inval_store ''k'' Map.empty (snd (ff_Refresh (Inr [''flag.x'' \<mapsto> on_flag]) 10 (NewStoreWithRefresher 60))))"
  using invalidate_loses_refresh [of "NewStoreWithRefresher 60" "[''flag.x'' \<mapsto> on_flag]" 10 "''k''" 15]
  by (simp add: NewStoreWithRefresher_def Let_def split: prod.splits)

end
