(* ===== verification/Db_Pool.thy ===== *)
theory Db_Pool
  imports Prelude
begin

text \<open>
  Package \<^verbatim>\<open>dbpool\<close> (\<^verbatim>\<open>src/dbpool/pool.go\<close>): pools that set a role on each new connection, and
  the helpers that run a callback in a transaction under a role and a tenant.

  A connection is its settings (the role, empty for the login role, and the value of
  \<^verbatim>\<open>app.tenant_id\<close>) and the data behind it. The statements the sources send are SQL:
  \<^verbatim>\<open>SET ROLE\<close> and \<^verbatim>\<open>RESET ROLE\<close> change the session and are undone by a rollback;
  \<^verbatim>\<open>SET LOCAL ROLE\<close> and \<^verbatim>\<open>set_config(..., true)\<close> last until the end of the transaction.
  Whether a statement succeeds is up to the server: \<open>ex n\<close> is the error of the n-th
  round trip of a helper (0 is \<^verbatim>\<open>BEGIN\<close>), \<open>None\<close> for success.

  A callback reads the role and the tenant in effect and changes the data; it sends
  no statement that changes the settings.
\<close>

section \<open>Connections\<close>

record settings =
  st_role :: string
  st_tenant :: string

record 'db conn =
  cn_cur :: settings
  cn_db :: 'db

text \<open>An open transaction: the state to roll back to and the settings that remain after a commit.\<close>

record 'db tx =
  tx_start :: "'db conn"
  tx_after :: settings
  tx_now :: "'db conn"

definition pg_begin :: "'db conn \<Rightarrow> 'db tx" where
  "pg_begin c = \<lparr>tx_start = c, tx_after = cn_cur c, tx_now = c\<rparr>"

definition pg_commit :: "'db tx \<Rightarrow> 'db conn" where
  "pg_commit t = (tx_now t)\<lparr>cn_cur := tx_after t\<rparr>"

definition pg_rollback :: "'db tx \<Rightarrow> 'db conn" where
  "pg_rollback t = tx_start t"

definition set_role :: "string \<Rightarrow> 'db tx \<Rightarrow> 'db tx" where
  "set_role r t = t\<lparr>tx_after := (tx_after t)\<lparr>st_role := r\<rparr>,
     tx_now := (tx_now t)\<lparr>cn_cur := (cn_cur (tx_now t))\<lparr>st_role := r\<rparr>\<rparr>\<rparr>"

definition set_local_role :: "string \<Rightarrow> 'db tx \<Rightarrow> 'db tx" where
  "set_local_role r t = t\<lparr>tx_now := (tx_now t)\<lparr>cn_cur := (cn_cur (tx_now t))\<lparr>st_role := r\<rparr>\<rparr>\<rparr>"

definition set_local_tenant :: "string \<Rightarrow> 'db tx \<Rightarrow> 'db tx" where
  "set_local_tenant i t = t\<lparr>tx_now := (tx_now t)\<lparr>cn_cur := (cn_cur (tx_now t))\<lparr>st_tenant := i\<rparr>\<rparr>\<rparr>"

type_synonym 'db callback = "settings \<Rightarrow> 'db \<Rightarrow> go_error \<times> 'db"

text \<open>
  The end every helper shares: run the callback, then \<^verbatim>\<open>COMMIT\<close>. The deferred
  \<^verbatim>\<open>Rollback\<close> has no effect after a commit and rolls back on every earlier return. An error
  of \<^verbatim>\<open>COMMIT\<close> is one the server answered with; that the answer of a commit is lost is not
  represented.
\<close>

definition run_callback :: "'db callback \<Rightarrow> 'db tx \<Rightarrow> go_error \<times> 'db tx" where
  "run_callback fn t =
     (let (err, db) = fn (cn_cur (tx_now t)) (cn_db (tx_now t))
      in (err, t\<lparr>tx_now := (tx_now t)\<lparr>cn_db := db\<rparr>\<rparr>))"

definition run_commit :: "go_error \<Rightarrow> 'db callback \<Rightarrow> 'db tx \<Rightarrow> go_error \<times> 'db conn" where
  "run_commit commit_err fn t =
     (case run_callback fn t of
        (Some err, t') \<Rightarrow> (Some err, pg_rollback t')
      | (None, t') \<Rightarrow>
          (case commit_err of
             Some err \<Rightarrow> (Some err, pg_rollback t')
           | None \<Rightarrow> (None, pg_commit t')))"

section \<open>Pools and their roles\<close>

text \<open>A pool is identified by a number; \<^verbatim>\<open>poolRoles\<close> maps pools to the role they were built with.\<close>

type_synonym pool_id = nat

definition rememberRole :: "pool_id \<Rightarrow> string \<Rightarrow> (pool_id \<rightharpoonup> string) \<Rightarrow> (pool_id \<rightharpoonup> string)" where
  "rememberRole p role roles = (if role = [] then roles else roles(p \<mapsto> role))"

definition PoolRole :: "(pool_id \<rightharpoonup> string) \<Rightarrow> pool_id option \<Rightarrow> string" where
  "PoolRole roles p =
     (case p of None \<Rightarrow> [] | Some i \<Rightarrow> (case roles i of None \<Rightarrow> [] | Some r \<Rightarrow> r))"

definition roleForPool :: "(pool_id \<rightharpoonup> string) \<Rightarrow> pool_id \<Rightarrow> string" where
  "roleForPool roles p =
     (let r = PoolRole roles (Some p) in if r \<noteq> [] then r else ''omur_app'')"

record pool_config =
  cf_DSN :: string
  cf_Role :: string
  cf_MaxConns :: int

text \<open>
  What the driver makes of a configuration: \<open>parse\<close> is \<^verbatim>\<open>pgxpool.ParseConfig\<close> (the parsed
  maximum of connections or an error), \<open>connect\<close> is \<^verbatim>\<open>pgxpool.NewWithConfig\<close> (a new pool or
  an error). A pool is its number, the maximum of connections and the role its
  \<^verbatim>\<open>AfterConnect\<close> hook sets, if it has one.
\<close>

record pool =
  pl_id :: pool_id
  pl_max :: int
  pl_hook :: "string option"

definition NewPool ::
  "(string \<Rightarrow> string + int) \<Rightarrow> (int \<Rightarrow> string + pool_id) \<Rightarrow> pool_config \<Rightarrow> (pool_id \<rightharpoonup> string)
     \<Rightarrow> (string + pool) \<times> (pool_id \<rightharpoonup> string)" where
  "NewPool parse connect cfg roles =
     (if cf_DSN cfg = [] then (Inl ''dbpool: DSN required'', roles)
      else (case parse (cf_DSN cfg) of
              Inl err \<Rightarrow> (Inl (''dbpool: parse config: '' @ err), roles)
            | Inr mx \<Rightarrow>
                (let mx = (if cf_MaxConns cfg > 0 then cf_MaxConns cfg else mx);
                     hook = (if cf_Role cfg \<noteq> [] then Some (cf_Role cfg) else None)
                 in case connect mx of
                      Inl err \<Rightarrow> (Inl err, roles)
                    | Inr p \<Rightarrow> (Inr \<lparr>pl_id = p, pl_max = mx, pl_hook = hook\<rparr>,
                                rememberRole p (cf_Role cfg) roles))))"

definition New_pool ::
  "(string \<Rightarrow> string + int) \<Rightarrow> (int \<Rightarrow> string + pool_id) \<Rightarrow> string \<Rightarrow> string + pool" where
  "New_pool parse connect dsn =
     (case parse dsn of
        Inl err \<Rightarrow> Inl (''dbpool: parse config: '' @ err)
      | Inr mx \<Rightarrow>
          (case connect mx of
             Inl err \<Rightarrow> Inl (''dbpool: connect: '' @ err)
           | Inr p \<Rightarrow> Inr \<lparr>pl_id = p, pl_max = mx, pl_hook = None\<rparr>))"

definition NewSessionPool ::
  "(string \<Rightarrow> string + int) \<Rightarrow> (int \<Rightarrow> string + pool_id) \<Rightarrow> string \<Rightarrow> (pool_id \<rightharpoonup> string)
     \<Rightarrow> (string + pool) \<times> (pool_id \<rightharpoonup> string)" where
  "NewSessionPool parse connect dsn roles =
     NewPool parse connect \<lparr>cf_DSN = dsn, cf_Role = [], cf_MaxConns = 0\<rparr> roles"

text \<open>A new connection of a pool, after its hook.\<close>

definition fresh_conn :: "pool \<Rightarrow> 'db \<Rightarrow> 'db conn" where
  "fresh_conn p db =
     \<lparr>cn_cur = \<lparr>st_role = (case pl_hook p of None \<Rightarrow> [] | Some r \<Rightarrow> r), st_tenant = []\<rparr>, cn_db = db\<rparr>"

section \<open>The helpers\<close>

definition WithTenant ::
  "(pool_id \<rightharpoonup> string) \<Rightarrow> (nat \<Rightarrow> go_error) \<Rightarrow> pool_id \<Rightarrow> string \<Rightarrow> 'db callback \<Rightarrow> 'db conn
     \<Rightarrow> go_error \<times> 'db conn" where
  "WithTenant roles ex p tenantID fn c =
     (case ex 0 of
        Some err \<Rightarrow> (Some (''dbpool: begin: '' @ err), c)
      | None \<Rightarrow>
          (let t = pg_begin c in
           case ex 1 of
             Some err \<Rightarrow> (Some (''dbpool: set role: '' @ err), pg_rollback t)
           | None \<Rightarrow>
               (let t = set_role (roleForPool roles p) t in
                case ex 2 of
                  Some err \<Rightarrow> (Some (''dbpool: set tenant: '' @ err), pg_rollback t)
                | None \<Rightarrow> run_commit (ex 3) fn (set_local_tenant tenantID t))))"

definition Superuser ::
  "(nat \<Rightarrow> go_error) \<Rightarrow> 'db callback \<Rightarrow> 'db conn \<Rightarrow> go_error \<times> 'db conn" where
  "Superuser ex fn c =
     (case ex 0 of
        Some err \<Rightarrow> (Some (''dbpool: begin: '' @ err), c)
      | None \<Rightarrow>
          (let t = pg_begin c in
           case ex 1 of
             Some err \<Rightarrow> (Some (''dbpool: reset role: '' @ err), pg_rollback t)
           | None \<Rightarrow> run_commit (ex 2) fn (set_role [] t)))"

definition WithPrivilegedRole ::
  "(nat \<Rightarrow> go_error) \<Rightarrow> string \<Rightarrow> 'db callback \<Rightarrow> 'db conn \<Rightarrow> go_error \<times> 'db conn" where
  "WithPrivilegedRole ex role fn c =
     (case ex 0 of
        Some err \<Rightarrow> (Some (''dbpool: begin: '' @ err), c)
      | None \<Rightarrow>
          (let t = pg_begin c in
           case ex 1 of
             Some err \<Rightarrow> (Some (''dbpool: set local role '' @ go_quote role @ '': '' @ err), pg_rollback t)
           | None \<Rightarrow> run_commit (ex 2) fn (set_local_role role t)))"

definition WithTenantQuery ::
  "(pool_id \<rightharpoonup> string) \<Rightarrow> (nat \<Rightarrow> go_error) \<Rightarrow> pool_id \<Rightarrow> string \<Rightarrow> 'db callback \<Rightarrow> 'db conn
     \<Rightarrow> go_error \<times> 'db conn" where
  "WithTenantQuery roles ex p tenantID fn c =
     (case ex 0 of
        Some err \<Rightarrow> (Some (''dbpool: begin: '' @ err), c)
      | None \<Rightarrow>
          (let t = pg_begin c in
           case ex 1 of
             Some err \<Rightarrow> (Some (''dbpool: set role: '' @ err), pg_rollback t)
           | None \<Rightarrow>
               (let t = set_role (roleForPool roles p) t in
                case ex 2 of
                  Some err \<Rightarrow> (Some (''dbpool: set tenant: '' @ err), pg_rollback t)
                | None \<Rightarrow>
                    (let (err, t') = run_callback fn (set_local_tenant tenantID t)
                     in (err, pg_rollback t')))))"

text \<open>
  A callback that fills variables of its caller: \<open>q\<close> returns the value beside the data. The
  caller uses the value only if \<^verbatim>\<open>WithTenant\<close> succeeds.
\<close>

definition tenant_value ::
  "(pool_id \<rightharpoonup> string) \<Rightarrow> (nat \<Rightarrow> go_error) \<Rightarrow> pool_id \<Rightarrow> string
     \<Rightarrow> (settings \<Rightarrow> 'db \<Rightarrow> string + 'v \<times> 'db) \<Rightarrow> 'db conn \<Rightarrow> (string + 'v) \<times> 'db conn" where
  "tenant_value roles ex p i q c =
     (case WithTenant roles ex p i
             (\<lambda>s (db, v). case q s db of Inl e \<Rightarrow> (Some e, (db, v)) | Inr (x, db') \<Rightarrow> (None, (db', Some x)))
             \<lparr>cn_cur = cn_cur c, cn_db = (cn_db c, None)\<rparr> of
        (Some e, c') \<Rightarrow> (Inl e, \<lparr>cn_cur = cn_cur c', cn_db = fst (cn_db c')\<rparr>)
      | (None, c') \<Rightarrow> (Inr (the (snd (cn_db c'))), \<lparr>cn_cur = cn_cur c', cn_db = fst (cn_db c')\<rparr>))"

section \<open>Lemmas\<close>

lemmas tx_defs [step_defs] = pg_begin_def pg_commit_def pg_rollback_def set_role_def set_local_role_def
  set_local_tenant_def run_callback_def

text \<open>The outcome of the shared end, for a transaction that has only changed settings so far.\<close>

lemma run_commit_cases:
  assumes "run_commit ce fn t = (err, c')" and "cn_db (tx_now t) = cn_db (tx_start t)"
  obtains (rolled_back) e where "err = Some e" "c' = tx_start t"
  | (committed) db where "err = None" "fn (cn_cur (tx_now t)) (cn_db (tx_start t)) = (None, db)"
      "c' = \<lparr>cn_cur = tx_after t, cn_db = db\<rparr>"
proof -
  obtain e db where f: "fn (cn_cur (tx_now t)) (cn_db (tx_start t)) = (e, db)" by fastforce
  show ?thesis
  proof (cases "e = None \<and> ce = None")
    case True
    then show ?thesis using assms f that(2) by (cases "tx_now t") (auto simp: run_commit_def tx_defs)
  next
    case False
    then show ?thesis using assms f that(1) by (auto simp: run_commit_def tx_defs split: option.splits)
  qed
qed

lemma WithTenant_cases:
  assumes "WithTenant roles ex p i fn c = (err, c')"
  obtains (failed) e where "err = Some e" "c' = c"
  | (committed) db where "err = None" "fn \<lparr>st_role = roleForPool roles p, st_tenant = i\<rparr> (cn_db c) = (None, db)"
      "c' = \<lparr>cn_cur = (cn_cur c)\<lparr>st_role := roleForPool roles p\<rparr>, cn_db = db\<rparr>"
proof (cases "ex 0 = None \<and> ex 1 = None \<and> ex 2 = None")
  case True
  let ?t = "set_local_tenant i (set_role (roleForPool roles p) (pg_begin c))"
  have "run_commit (ex 3) fn ?t = (err, c')" using assms True by (simp add: WithTenant_def)
  moreover have "cn_db (tx_now ?t) = cn_db (tx_start ?t)" by (simp add: tx_defs)
  ultimately show ?thesis
  proof (cases rule: run_commit_cases)
    case (rolled_back e)
    then show ?thesis using that(1) by (simp add: tx_defs)
  next
    case (committed db)
    then show ?thesis using that(2) [of db] by (cases "cn_cur c") (simp add: tx_defs)
  qed
next
  case False
  then show ?thesis using assms that(1) by (auto simp: WithTenant_def tx_defs Let_def split: option.splits)
qed

subsection \<open>Row security\<close>

text \<open>
  The data as the rows of each tenant. \<open>key\<close> is the value of type \<^verbatim>\<open>uuid\<close> that the policies make of
  \<^verbatim>\<open>app.tenant_id\<close>, and \<open>subject\<close> are the roles that the policies apply to: neither superusers nor
  roles with \<^verbatim>\<open>BYPASSRLS\<close>. What Postgres promises of the statements of a callback under such a
  role is that they change the rows of the tenant of the setting only, and that neither
  their outcome nor those rows depend on the rows of other tenants.
\<close>

definition row_secured :: "(string \<Rightarrow> bool) \<Rightarrow> (string \<Rightarrow> 'k) \<Rightarrow> ('k \<Rightarrow> 'rows) callback \<Rightarrow> bool" where
  "row_secured subject key fn \<longleftrightarrow>
     (\<forall>s db. subject (st_role s) \<longrightarrow>
        (\<forall>k. k \<noteq> key (st_tenant s) \<longrightarrow> snd (fn s db) k = db k) \<and>
        (\<forall>db'. db' (key (st_tenant s)) = db (key (st_tenant s)) \<longrightarrow>
           fst (fn s db') = fst (fn s db) \<and> snd (fn s db') (key (st_tenant s)) = snd (fn s db) (key (st_tenant s))))"

definition touches_only :: "'k \<Rightarrow> (('k \<Rightarrow> 'rows) conn \<Rightarrow> go_error \<times> ('k \<Rightarrow> 'rows) conn) \<Rightarrow> bool" where
  "touches_only k op \<longleftrightarrow>
     (\<forall>c k'. k' \<noteq> k \<longrightarrow> cn_db (snd (op c)) k' = cn_db c k') \<and>
     (\<forall>c c'. cn_db c k = cn_db c' k \<longrightarrow>
        fst (op c) = fst (op c') \<and> cn_db (snd (op c)) k = cn_db (snd (op c')) k)"

lemma touches_only_other: "touches_only k op \<Longrightarrow> k' \<noteq> k \<Longrightarrow> cn_db (snd (op c)) k' = cn_db c k'"
  by (simp add: touches_only_def)

lemma WithTenant_eq:
  fixes roles p i
  defines "S \<equiv> \<lparr>st_role = roleForPool roles p, st_tenant = i\<rparr>"
  shows "(\<exists>e. \<forall>c. WithTenant roles ex p i fn c = (Some e, c)) \<or>
     (\<forall>c. WithTenant roles ex p i fn c =
        (case fn S (cn_db c) of
           (Some e, db) \<Rightarrow> (Some e, c)
         | (None, db) \<Rightarrow> (case ex 3 of Some e \<Rightarrow> (Some e, c)
             | None \<Rightarrow> (None, \<lparr>cn_cur = (cn_cur c)\<lparr>st_role := roleForPool roles p\<rparr>, cn_db = db\<rparr>))))"
proof (cases "ex 0 = None \<and> ex 1 = None \<and> ex 2 = None")
  case True
  have "WithTenant roles ex p i fn c =
      (case fn S (cn_db c) of
         (Some e, db) \<Rightarrow> (Some e, c)
       | (None, db) \<Rightarrow> (case ex 3 of Some e \<Rightarrow> (Some e, c)
           | None \<Rightarrow> (None, \<lparr>cn_cur = (cn_cur c)\<lparr>st_role := roleForPool roles p\<rparr>, cn_db = db\<rparr>)))" for c
    using True by (cases c; cases "cn_cur c")
      (simp add: WithTenant_def run_commit_def run_callback_def S_def tx_defs split: prod.split option.split)
  then show ?thesis by blast
next
  case False
  then show ?thesis by (auto simp: WithTenant_def tx_defs Let_def split: option.splits)
qed

lemma row_securedD:
  assumes "row_secured subject key fn" and "subject (st_role s)"
  shows "k \<noteq> key (st_tenant s) \<Longrightarrow> snd (fn s db) k = db k"
    and "db' (key (st_tenant s)) = db (key (st_tenant s)) \<Longrightarrow> fst (fn s db') = fst (fn s db)"
    and "db' (key (st_tenant s)) = db (key (st_tenant s)) \<Longrightarrow> snd (fn s db') (key (st_tenant s)) = snd (fn s db) (key (st_tenant s))"
  using assms unfolding row_secured_def by blast+

lemma WithTenant_touches_only:
  assumes "subject (roleForPool roles p)" and "row_secured subject key fn"
  shows "touches_only (key i) (WithTenant roles ex p i fn)"
proof -
  let ?S = "\<lparr>st_role = roleForPool roles p, st_tenant = i\<rparr>"
  note sec = row_securedD [OF assms(2), of ?S, simplified, OF assms(1)]
  show ?thesis
    using WithTenant_eq [of roles ex p i fn]
  proof (elim disjE exE)
    fix e assume "\<forall>c. WithTenant roles ex p i fn c = (Some e, c)"
    then show ?thesis by (simp add: touches_only_def)
  next
    assume eq: "\<forall>c. WithTenant roles ex p i fn c =
        (case fn ?S (cn_db c) of
           (Some e, db) \<Rightarrow> (Some e, c)
         | (None, db) \<Rightarrow> (case ex 3 of Some e \<Rightarrow> (Some e, c)
             | None \<Rightarrow> (None, \<lparr>cn_cur = (cn_cur c)\<lparr>st_role := roleForPool roles p\<rparr>, cn_db = db\<rparr>)))"
    have "cn_db (snd (WithTenant roles ex p i fn c)) k' = cn_db c k'" if "k' \<noteq> key i" for c k'
      using sec(1) [OF that, of "cn_db c"] by (auto simp: eq split: prod.split option.split)
    moreover have "fst (WithTenant roles ex p i fn c) = fst (WithTenant roles ex p i fn c') \<and>
        cn_db (snd (WithTenant roles ex p i fn c)) (key i) = cn_db (snd (WithTenant roles ex p i fn c')) (key i)"
      if "cn_db c (key i) = cn_db c' (key i)" for c c'
      using sec(2,3) [of "cn_db c" "cn_db c'", OF that] that by (auto simp: eq split: prod.split option.split)
    ultimately show ?thesis unfolding touches_only_def by blast
  qed
qed

lemma tenant_value_cases:
  assumes "tenant_value roles ex p i q c = (r, c')"
  obtains (failed) e where "r = Inl e" "c' = c"
  | (finished) x db where "q \<lparr>st_role = roleForPool roles p, st_tenant = i\<rparr> (cn_db c) = Inr (x, db)" "r = Inr x"
      "c' = \<lparr>cn_cur = (cn_cur c)\<lparr>st_role := roleForPool roles p\<rparr>, cn_db = db\<rparr>"
proof -
  let ?fn = "\<lambda>s (db, v). case q s db of Inl e \<Rightarrow> (Some e, (db, v)) | Inr (x, db') \<Rightarrow> (None, (db', Some x))"
  let ?c = "\<lparr>cn_cur = cn_cur c, cn_db = (cn_db c, None)\<rparr>"
  obtain err d where run: "WithTenant roles ex p i ?fn ?c = (err, d)" by fastforce
  from run show ?thesis
  proof (cases rule: WithTenant_cases)
    case (failed e)
    then show ?thesis using assms run that(1) by (cases c) (auto simp: tenant_value_def)
  next
    case (committed db)
    then show ?thesis using assms run that(2)
      by (auto simp: tenant_value_def split: sum.splits prod.splits)
  qed
qed

lemma tenant_value_ok:
  assumes "\<And>n. ex n = None" and "q \<lparr>st_role = roleForPool roles p, st_tenant = i\<rparr> (cn_db c) = Inr (x, db)"
  shows "tenant_value roles ex p i q c = (Inr x, \<lparr>cn_cur = (cn_cur c)\<lparr>st_role := roleForPool roles p\<rparr>, cn_db = db\<rparr>)"
  using assms by (cases "cn_cur c")
    (simp add: tenant_value_def WithTenant_def run_commit_def tx_defs)

lemma WithPrivilegedRole_keeps: "cn_cur (snd (WithPrivilegedRole ex role fn c)) = cn_cur c"
proof (cases "ex 0 = None \<and> ex 1 = None")
  case True
  let ?t = "set_local_role role (pg_begin c)"
  obtain err c' where run: "run_commit (ex 2) fn ?t = (err, c')" by fastforce
  moreover have "cn_db (tx_now ?t) = cn_db (tx_start ?t)" by (simp add: tx_defs)
  ultimately have "cn_cur c' = cn_cur c" by (cases rule: run_commit_cases) (simp_all add: tx_defs)
  then show ?thesis using True run by (simp add: WithPrivilegedRole_def)
next
  case False
  then show ?thesis by (auto simp: WithPrivilegedRole_def tx_defs split: option.splits)
qed

lemma WithTenantQuery_keeps: "snd (WithTenantQuery roles ex p i fn c) = c"
  by (auto simp: WithTenantQuery_def tx_defs Let_def split: option.splits prod.splits)

section \<open>Properties\<close>

text \<open>
  C2. \<^verbatim>\<open>WithTenant\<close> isolates tenants on a pooled connection whatever its earlier users
  left behind: the callback runs under the pool's role with exactly the given
  tenant; its changes are kept only if it and the commit succeed, and on any error
  the connection is as before; afterwards the tenant setting is the one from
  before, so it never reaches the next user of the connection.
\<close>

theorem with_tenant_isolation:
  assumes "WithTenant roles ex p i fn c = (err, c')"
  shows "(case err of
            Some e \<Rightarrow> c' = c
          | None \<Rightarrow> \<exists>db. fn \<lparr>st_role = roleForPool roles p, st_tenant = i\<rparr> (cn_db c) = (None, db) \<and>
              cn_db c' = db \<and> st_role (cn_cur c') = roleForPool roles p) \<and>
         st_tenant (cn_cur c') = st_tenant (cn_cur c)"
  using assms by (cases rule: WithTenant_cases) auto

theorem with_tenant_isolation_witness:
  "WithTenant Map.empty (\<lambda>_. None) 0 ''t1'' (\<lambda>s db. (None, (st_tenant s, st_role s) # db))
     (fresh_conn \<lparr>pl_id = 0, pl_max = 4, pl_hook = None\<rparr> [])
   = (None, \<lparr>cn_cur = \<lparr>st_role = ''omur_app'', st_tenant = []\<rparr>, cn_db = [(''t1'', ''omur_app'')]\<rparr>)
   \<and> st_tenant \<lparr>st_role = ''omur_app'', st_tenant = []\<rparr> = []"
proof -
  let ?c = "fresh_conn \<lparr>pl_id = 0, pl_max = 4, pl_hook = None\<rparr> []"
  have run: "WithTenant Map.empty (\<lambda>_. None) 0 ''t1'' (\<lambda>s db. (None, (st_tenant s, st_role s) # db)) ?c
      = (None, \<lparr>cn_cur = \<lparr>st_role = ''omur_app'', st_tenant = []\<rparr>, cn_db = [(''t1'', ''omur_app'')]\<rparr>)"
    by code_simp
  from with_tenant_isolation [OF run] run show ?thesis by simp
qed

text \<open>
  The states of a connection of a pool built with a role, under any sequence of
  the tenant and privileged-role helpers with any outcomes of their statements.
\<close>

inductive pooled :: "(pool_id \<rightharpoonup> string) \<Rightarrow> pool \<Rightarrow> 'db conn \<Rightarrow> bool" for roles p where
  fresh: "pooled roles p (fresh_conn p db)"
| data: "pooled roles p c \<Longrightarrow> pooled roles p (c\<lparr>cn_db := db\<rparr>)"
| tenant: "pooled roles p c \<Longrightarrow> pooled roles p (snd (WithTenant roles ex (pl_id p) i fn c))"
| tenant_query: "pooled roles p c \<Longrightarrow> pooled roles p (snd (WithTenantQuery roles ex (pl_id p) i fn c))"
| privileged: "pooled roles p c \<Longrightarrow> pooled roles p (snd (WithPrivilegedRole ex r fn c))"

text \<open>
  C36. On a pool built by \<^verbatim>\<open>NewPool\<close> with a role, every connection is under that role and
  without a tenant whenever it is handed out, after any sequence of \<^verbatim>\<open>WithTenant\<close>,
  \<^verbatim>\<open>WithTenantQuery\<close> and \<^verbatim>\<open>WithPrivilegedRole\<close> calls, failed ones included.
\<close>

theorem pool_role_kept:
  assumes "NewPool parse connect cfg roles0 = (Inr p, roles)" and "cf_Role cfg \<noteq> []" and "pooled roles p c"
  shows "cn_cur c = \<lparr>st_role = cf_Role cfg, st_tenant = []\<rparr>"
proof -
  have p: "pl_hook p = Some (cf_Role cfg)" "roles (pl_id p) = Some (cf_Role cfg)"
    using assms(1,2) by (auto simp: NewPool_def rememberRole_def Let_def split: if_splits sum.splits)
  have role: "roleForPool roles (pl_id p) = cf_Role cfg"
    using p(2) assms(2) by (simp add: roleForPool_def PoolRole_def)
  from assms(3) show ?thesis
  proof (induction rule: pooled.induct)
    case (tenant c ex i fn)
    obtain err c' where run: "WithTenant roles ex (pl_id p) i fn c = (err, c')" by fastforce
    from run have "cn_cur c' = \<lparr>st_role = cf_Role cfg, st_tenant = []\<rparr>"
      using tenant.IH role by (cases rule: WithTenant_cases) simp_all
    then show ?case by (simp add: run)
  qed (simp_all add: fresh_conn_def p WithTenantQuery_keeps WithPrivilegedRole_keeps)
qed

theorem pool_role_kept_witness:
  "let (r, roles) = NewPool (\<lambda>_. Inr 4) (\<lambda>_. Inr 7) \<lparr>cf_DSN = ''db'', cf_Role = ''omur_app'', cf_MaxConns = 0\<rparr> Map.empty
   in \<exists>p. r = Inr p \<and>
      cn_cur (snd (WithTenant roles (\<lambda>n. if n = 3 then Some ''lost'' else None) (pl_id p) ''t1''
                (\<lambda>s db. (None, db)) (fresh_conn p ()))) = \<lparr>st_role = ''omur_app'', st_tenant = []\<rparr>"
proof -
  let ?cfg = "\<lparr>cf_DSN = ''db'', cf_Role = ''omur_app'', cf_MaxConns = 0\<rparr>"
  let ?p = "\<lparr>pl_id = 7, pl_max = 4, pl_hook = Some ''omur_app''\<rparr>"
  have new: "NewPool (\<lambda>_. Inr 4) (\<lambda>_. Inr 7) ?cfg Map.empty = (Inr ?p, [7 \<mapsto> ''omur_app''])"
    by (simp add: NewPool_def rememberRole_def)
  have "pooled [7 \<mapsto> ''omur_app''] ?p (snd (WithTenant [7 \<mapsto> ''omur_app''] (\<lambda>n. if n = 3 then Some ''lost'' else None)
      (pl_id ?p) ''t1'' (\<lambda>s db. (None, db)) (fresh_conn ?p ())))"
    by (rule pooled.tenant [OF pooled.fresh])
  from pool_role_kept [OF new _ this] new show ?thesis by (simp add: Let_def)
qed

text \<open>
  A successful \<^verbatim>\<open>Superuser\<close> call leaves the connection under the login role: the
  reset is part of the session and is committed, so the next direct user of the
  pooled connection, one that does not set the role itself, runs with row security
  off although the pool was built with a role.
\<close>

lemma superuser_leaks_login_role:
  assumes "Superuser ex fn c = (None, c')"
  shows "st_role (cn_cur c') = []"
proof -
  let ?t = "set_role [] (pg_begin c)"
  have "run_commit (ex 2) fn ?t = (None, c')"
    using assms by (auto simp: Superuser_def Let_def split: option.splits)
  moreover have "cn_db (tx_now ?t) = cn_db (tx_start ?t)" by (simp add: tx_defs)
  ultimately show ?thesis by (cases rule: run_commit_cases) (simp_all add: tx_defs)
qed

lemma superuser_leaks_login_role_witness:
  "let c = fresh_conn \<lparr>pl_id = 7, pl_max = 4, pl_hook = Some ''omur_app''\<rparr> (); r = Superuser (\<lambda>_. None) (\<lambda>s db. (None, db)) c
   in fst r = None \<and> st_role (cn_cur c) = ''omur_app'' \<and> st_role (cn_cur (snd r)) = []"
proof -
  let ?c = "fresh_conn \<lparr>pl_id = 7, pl_max = 4, pl_hook = Some ''omur_app''\<rparr> ()"
  let ?r = "Superuser (\<lambda>_. None) (\<lambda>s db. (None, db)) ?c"
  have run: "?r = (None, snd ?r)" by code_simp
  have "st_role (cn_cur ?c) = ''omur_app''" by code_simp
  with superuser_leaks_login_role [OF run] run show ?thesis unfolding Let_def by (metis fst_conv)
qed

end
