(* ===== verification/Quota.thy ===== *)
theory Quota
  imports Db_Pool
begin

text \<open>
  Package \<^verbatim>\<open>quota\<close> (\<^verbatim>\<open>src/quota/\<close>): the limits and counters of a tenant, the checks before an
  upload or a query, and the record of usage.

  Go's \<^verbatim>\<open>int\<close> and \<^verbatim>\<open>int64\<close> are 64-bit words read as signed numbers, so the sums of the checks
  wrap around. The database is the three tables the statements name; row security
  is a parameter, the predicate that decides which rows a role and tenant see. The
  clock is given as a UTC date and the nanoseconds of its day.
\<close>

section \<open>Data\<close>

type_synonym Resource = string

definition ResourceDocs :: Resource where "ResourceDocs = ''docs''"
definition ResourceStorage :: Resource where "ResourceStorage = ''storage_bytes''"
definition ResourceQueries :: Resource where "ResourceQueries = ''queries_per_month''"

record Limits =
  lm_Docs :: int64
  lm_StorageBytes :: int64
  lm_QueriesPerMonth :: int64

record Usage =
  us_Docs :: int64
  us_StorageBytes :: int64
  us_QueriesThisMonth :: int64

record Decision =
  dc_Allowed :: bool
  dc_Resource :: Resource
  dc_Limit :: int64
  dc_Used :: int64
  dc_RetryAfter :: int

definition DefaultLimits :: Limits where
  "DefaultLimits = \<lparr>lm_Docs = 100, lm_StorageBytes = 500 * 1024 * 1024, lm_QueriesPerMonth = 1000\<rparr>"

definition allow_decision :: Decision where
  "allow_decision = \<lparr>dc_Allowed = True, dc_Resource = [], dc_Limit = 0, dc_Used = 0, dc_RetryAfter = 0\<rparr>"

section \<open>The clock\<close>

record utc =
  ut_year :: int
  ut_month :: int
  ut_day :: int
  ut_nanos :: int

definition leap_year :: "int \<Rightarrow> bool" where
  "leap_year y \<longleftrightarrow> 4 dvd y \<and> (\<not> 100 dvd y \<or> 400 dvd y)"

definition month_days :: "int \<Rightarrow> int \<Rightarrow> int" where
  "month_days y m =
     (if m = 2 then (if leap_year y then 29 else 28)
      else if m = 4 \<or> m = 6 \<or> m = 9 \<or> m = 11 then 30 else 31)"

definition days_before_year :: "int \<Rightarrow> int" where
  "days_before_year y = 365 * (y - 1) + (y - 1) div 4 - (y - 1) div 100 + (y - 1) div 400"

definition days_before_month :: "int \<Rightarrow> int \<Rightarrow> int" where
  "days_before_month y m = sum_list (map (month_days y) [1..m - 1])"

abbreviation (input) day_ns :: int where "day_ns \<equiv> 24 * 60 * minute"

text \<open>The instant of a date, counted from the first day of year 1.\<close>

definition utc_instant :: "utc \<Rightarrow> time" where
  "utc_instant u =
     (days_before_year (ut_year u) + days_before_month (ut_year u) (ut_month u) + ut_day u - 1) * day_ns
     + ut_nanos u"

definition utc_valid :: "utc \<Rightarrow> bool" where
  "utc_valid u \<longleftrightarrow> 1 \<le> ut_month u \<and> ut_month u \<le> 12 \<and> 1 \<le> ut_day u \<and>
     ut_day u \<le> month_days (ut_year u) (ut_month u) \<and> 0 \<le> ut_nanos u \<and> ut_nanos u < day_ns"

text \<open>\<^verbatim>\<open>time.Date\<close> of the first day of a month, where month 13 is January of the next year.\<close>

definition firstOfNextMonth :: "utc \<Rightarrow> utc" where
  "firstOfNextMonth n =
     (if ut_month n = 12
      then \<lparr>ut_year = ut_year n + 1, ut_month = 1, ut_day = 1, ut_nanos = 0\<rparr>
      else \<lparr>ut_year = ut_year n, ut_month = ut_month n + 1, ut_day = 1, ut_nanos = 0\<rparr>)"

definition capAt32Days :: "int \<Rightarrow> int" where
  "capAt32Days s = (let mx = 32 * 24 * 3600 in if s < 0 then 60 else if s > mx then mx else s)"

text \<open>
  The package clock is read twice: \<open>n1\<close> by \<^verbatim>\<open>firstOfNextMonth\<close>, then \<open>n2\<close>. \<^verbatim>\<open>int(d.Seconds())\<close>
  is the whole seconds of a duration, truncated toward zero.
\<close>

definition seconds_of :: "duration \<Rightarrow> int" where
  "seconds_of d = (if d < 0 then - ((- d) div second) else d div second)"

definition secondsUntilNextMonth :: "utc \<Rightarrow> utc \<Rightarrow> int" where
  "secondsUntilNextMonth n1 n2 =
     capAt32Days (seconds_of (utc_instant (firstOfNextMonth n1) - utc_instant n2))"

section \<open>The checks\<close>

definition CheckUpload :: "Limits \<Rightarrow> Usage \<Rightarrow> int64 \<Rightarrow> Decision" where
  "CheckUpload lim usage incomingBytes =
     (if sint (us_Docs usage + 1) > sint (lm_Docs lim) then
        \<lparr>dc_Allowed = False, dc_Resource = ResourceDocs, dc_Limit = lm_Docs lim, dc_Used = us_Docs usage,
         dc_RetryAfter = 0\<rparr>
      else if sint (us_StorageBytes usage + incomingBytes) > sint (lm_StorageBytes lim) then
        \<lparr>dc_Allowed = False, dc_Resource = ResourceStorage, dc_Limit = lm_StorageBytes lim,
         dc_Used = us_StorageBytes usage, dc_RetryAfter = 0\<rparr>
      else allow_decision)"

definition CheckQuery :: "utc \<Rightarrow> utc \<Rightarrow> Limits \<Rightarrow> Usage \<Rightarrow> Decision" where
  "CheckQuery n1 n2 lim usage =
     (if sint (us_QueriesThisMonth usage + 1) > sint (lm_QueriesPerMonth lim) then
        \<lparr>dc_Allowed = False, dc_Resource = ResourceQueries, dc_Limit = lm_QueriesPerMonth lim,
         dc_Used = us_QueriesThisMonth usage, dc_RetryAfter = secondsUntilNextMonth n1 n2\<rparr>
      else allow_decision)"

section \<open>The counters in the database\<close>

record 'f usage_row =
  ur_tenant :: string
  ur_provider :: string
  ur_model :: string
  ur_input :: int
  ur_output :: int
  ur_cost :: 'f
  ur_created :: time

record 'f quota_db =
  qd_quotas :: "string \<rightharpoonup> Limits"
  qd_files :: "(string \<times> int) list"
  qd_log :: "'f usage_row list"

definition ErrNoRows :: string where "ErrNoRows = ''no rows in result set''"

definition select_limits ::
  "(settings \<Rightarrow> string \<Rightarrow> bool) \<Rightarrow> string \<Rightarrow> settings \<Rightarrow> 'f quota_db \<Rightarrow> string + Limits \<times> 'f quota_db" where
  "select_limits sees tenantID s db =
     (case qd_quotas db tenantID of
        Some l \<Rightarrow> if sees s tenantID then Inr (l, db) else Inl ErrNoRows
      | None \<Rightarrow> Inl ErrNoRows)"

definition quota_Load ::
  "(settings \<Rightarrow> string \<Rightarrow> bool) \<Rightarrow> (pool_id \<rightharpoonup> string) \<Rightarrow> (nat \<Rightarrow> go_error) \<Rightarrow> pool_id option \<Rightarrow> string
     \<Rightarrow> 'f quota_db conn \<Rightarrow> (string + Limits) \<times> 'f quota_db conn" where
  "quota_Load sees roles ex pool tenantID c =
     (case pool of
        None \<Rightarrow> (Inr DefaultLimits, c)
      | Some p \<Rightarrow>
          (case tenant_value roles ex p tenantID (select_limits sees tenantID) c of
             (Inr l, c') \<Rightarrow> (Inr l, c')
           | (Inl e, c') \<Rightarrow>
               if e = ErrNoRows then (Inr DefaultLimits, c') else (Inl (''quota.Load: '' @ e), c')))"

text \<open>\<^verbatim>\<open>COUNT(*)::int\<close> and \<^verbatim>\<open>::bigint\<close> fail when the value is out of the range of the type.\<close>

definition pg_int4 :: "int \<Rightarrow> string + int64" where
  "pg_int4 n = (if - (2 ^ 31) \<le> n \<and> n < 2 ^ 31 then Inr (word_of_int n) else Inl ''integer out of range'')"

definition pg_int8 :: "int \<Rightarrow> string + int64" where
  "pg_int8 n = (if - (2 ^ 63) \<le> n \<and> n < 2 ^ 63 then Inr (word_of_int n) else Inl ''bigint out of range'')"

definition count_queries ::
  "(settings \<Rightarrow> string \<Rightarrow> bool) \<Rightarrow> time \<Rightarrow> settings \<Rightarrow> 'f quota_db \<Rightarrow> int" where
  "count_queries sees month_start s db =
     int (length (filter (\<lambda>r. sees s (ur_tenant r) \<and> month_start \<le> ur_created r) (qd_log db)))"

definition select_usage ::
  "(settings \<Rightarrow> string \<Rightarrow> bool) \<Rightarrow> time \<Rightarrow> settings \<Rightarrow> 'f quota_db \<Rightarrow> string + Usage \<times> 'f quota_db" where
  "select_usage sees month_start s db =
     (let files = filter (\<lambda>(t, n). sees s t) (qd_files db) in
      case (pg_int4 (int (length files)), pg_int8 (sum_list (map snd files))) of
        (Inl e, _) \<Rightarrow> Inl e
      | (_, Inl e) \<Rightarrow> Inl e
      | (Inr docs, Inr bytes) \<Rightarrow>
          (case pg_int4 (count_queries sees month_start s db) of
             Inl e \<Rightarrow> Inl e
           | Inr q \<Rightarrow> Inr (\<lparr>us_Docs = docs, us_StorageBytes = bytes, us_QueriesThisMonth = q\<rparr>, db)))"

definition GetUsage ::
  "(settings \<Rightarrow> string \<Rightarrow> bool) \<Rightarrow> time \<Rightarrow> (pool_id \<rightharpoonup> string) \<Rightarrow> (nat \<Rightarrow> go_error) \<Rightarrow> pool_id option
     \<Rightarrow> string \<Rightarrow> 'f quota_db conn \<Rightarrow> (string + Usage) \<times> 'f quota_db conn" where
  "GetUsage sees month_start roles ex pool tenantID c =
     (case pool of
        None \<Rightarrow> (Inr \<lparr>us_Docs = 0, us_StorageBytes = 0, us_QueriesThisMonth = 0\<rparr>, c)
      | Some p \<Rightarrow>
          (case tenant_value roles ex p tenantID (select_usage sees month_start) c of
             (Inr u, c') \<Rightarrow> (Inr u, c')
           | (Inl e, c') \<Rightarrow> (Inl (''quota.GetUsage: '' @ e), c')))"

text \<open>
  \<open>ins\<close> is the server's answer to the insert: an error (a malformed tenant id, a policy
  that refuses the row) or the creation time the row gets.
\<close>

definition RecordUsage ::
  "(settings \<Rightarrow> string \<Rightarrow> string + time) \<Rightarrow> (pool_id \<rightharpoonup> string) \<Rightarrow> (nat \<Rightarrow> go_error) \<Rightarrow> pool_id option
     \<Rightarrow> string \<Rightarrow> string \<Rightarrow> string \<Rightarrow> int \<Rightarrow> int \<Rightarrow> 'f \<Rightarrow> 'f quota_db conn \<Rightarrow> go_error \<times> 'f quota_db conn" where
  "RecordUsage ins roles ex pool tenantID provider model inputTokens outputTokens costUSD c =
     (case pool of
        None \<Rightarrow> (None, c)
      | Some p \<Rightarrow>
          if tenantID = [] then (None, c)
          else (case WithTenant roles ex p tenantID
                       (\<lambda>s db. case ins s tenantID of
                          Inl e \<Rightarrow> (Some e, db)
                        | Inr t \<Rightarrow> (None, db\<lparr>qd_log := qd_log db @
                            [\<lparr>ur_tenant = tenantID, ur_provider = provider, ur_model = model,
                              ur_input = inputTokens, ur_output = outputTokens, ur_cost = costUSD,
                              ur_created = t\<rparr>]\<rparr>)) c of
                  (Some e, c') \<Rightarrow> (Some (''quota.RecordUsage: '' @ e), c')
                | (None, c') \<Rightarrow> (None, c')))"

section \<open>Lemmas\<close>

lemma div_pred:
  fixes y n :: int
  assumes "0 < n"
  shows "y div n = (y - 1) div n + (if n dvd y then 1 else 0)"
proof -
  have split: "(n * q + r) div n = q" if "0 \<le> r" "r < n" for q r
    using that assms by simp
  have y: "y = n * (y div n) + y mod n" by simp
  show ?thesis
  proof (cases "n dvd y")
    case True
    then have e: "y - 1 = n * (y div n - 1) + (n - 1)" by (simp add: algebra_simps)
    have "(y - 1) div n = y div n - 1"
      by (subst e) (rule split, use assms in auto)
    then show ?thesis using True by simp
  next
    case False
    then have "0 < y mod n" "y mod n < n" using assms by (auto simp: dvd_eq_mod_eq_0 order.not_eq_order_implies_strict)
    moreover have e: "y - 1 = n * (y div n) + (y mod n - 1)" using y by linarith
    ultimately have "(y - 1) div n = y div n"
      by (subst e) (rule split, auto)
    then show ?thesis using False by simp
  qed
qed

lemma days_before_next_year:
  "days_before_year (y + 1) = days_before_year y + 365 + (if leap_year y then 1 else 0)"
proof -
  define a b c where "a = (y - 1) div 4" and "b = (y - 1) div 100" and "c = (y - 1) div 400"
  have steps: "y div 4 = a + (if 4 dvd y then 1 else 0)" "y div 100 = b + (if 100 dvd y then 1 else 0)"
    "y div 400 = c + (if 400 dvd y then 1 else 0)"
    unfolding a_def b_def c_def by (rule div_pred, simp)+
  have nxt: "days_before_year (y + 1) = 365 * y + y div 4 - y div 100 + y div 400"
    by (simp only: days_before_year_def add_diff_cancel_right')
  have cur: "days_before_year y = 365 * (y - 1) + a - b + c"
    by (simp only: days_before_year_def a_def b_def c_def)
  define p q r where "p \<longleftrightarrow> 4 dvd y" and "q \<longleftrightarrow> 100 dvd y" and "r \<longleftrightarrow> 400 dvd y"
  have "q" if "r" using that dvd_trans [of 100 400 y] unfolding q_def r_def by simp
  moreover have "p" if "q" using that dvd_trans [of 4 100 y] unfolding p_def q_def by simp
  ultimately show ?thesis
    unfolding nxt cur steps leap_year_def p_def [symmetric] q_def [symmetric] r_def [symmetric] by auto
qed

lemma days_before_next_month:
  assumes "1 \<le> m"
  shows "days_before_month y (m + 1) = days_before_month y m + month_days y m"
proof -
  have "[1..m] = [1..m - 1] @ [m]" using assms by (simp add: upto_rec2)
  then show ?thesis by (simp add: days_before_month_def)
qed

lemma days_before_december: "days_before_month y 12 = 334 + (if leap_year y then 1 else 0)"
proof -
  have "[1..11] = [1, 2, 3, 4, 5, 6, 7, 8, 9, 10, 11::int]" by code_simp
  then show ?thesis by (simp add: days_before_month_def month_days_def)
qed

lemma time_to_next_month:
  assumes "utc_valid n"
  shows "utc_instant (firstOfNextMonth n) - utc_instant n =
           (month_days (ut_year n) (ut_month n) - ut_day n + 1) * day_ns - ut_nanos n"
proof (cases "ut_month n = 12")
  case True
  have "days_before_month (ut_year n + 1) 1 = 0" by (simp add: days_before_month_def)
  then show ?thesis
    using True days_before_next_year [of "ut_year n"]
    by (simp add: utc_instant_def firstOfNextMonth_def days_before_december month_days_def)
next
  case False
  then show ?thesis
    using assms days_before_next_month [of "ut_month n" "ut_year n"]
    by (simp add: utc_instant_def firstOfNextMonth_def utc_valid_def algebra_simps)
qed

lemma month_days_le: "month_days y m \<le> 31"
  by (simp add: month_days_def)

lemma sint_add_exact:
  fixes a b :: int64
  assumes "- (2 ^ 63) \<le> sint a + sint b" and "sint a + sint b < 2 ^ 63"
  shows "sint (a + b) = sint a + sint b"
  using assms by (simp add: sint_word_add signed_take_bit_int_eq_self)

lemma seconds_to_next_month:
  assumes "utc_valid n"
  shows "secondsUntilNextMonth n n = (utc_instant (firstOfNextMonth n) - utc_instant n) div second"
    and "0 < utc_instant (firstOfNextMonth n) - utc_instant n"
    and "utc_instant (firstOfNextMonth n) - utc_instant n \<le> 31 * day_ns"
proof -
  let ?d = "utc_instant (firstOfNextMonth n) - utc_instant n"
  let ?k = "month_days (ut_year n) (ut_month n) - ut_day n + 1"
  have k: "1 \<le> ?k" "?k \<le> 31" using assms month_days_le [of "ut_year n" "ut_month n"] by (auto simp: utc_valid_def)
  have ns: "0 \<le> ut_nanos n" "ut_nanos n < day_ns" using assms by (auto simp: utc_valid_def)
  have "1 * day_ns \<le> ?k * day_ns" "?k * day_ns \<le> 31 * day_ns" using k by (auto simp only: mult_le_cancel_right)
  then show pos: "0 < ?d" and le: "?d \<le> 31 * day_ns"
    unfolding time_to_next_month [OF assms] using ns by auto
  have "?d div second \<le> (31 * day_ns) div second" using le by (rule zdiv_mono1) simp
  moreover have "0 \<le> ?d div second" using pos by (simp add: pos_imp_zdiv_nonneg_iff)
  ultimately show "secondsUntilNextMonth n n = ?d div second"
    using pos by (simp add: secondsUntilNextMonth_def seconds_of_def capAt32Days_def)
qed

section \<open>Properties\<close>

text \<open>
  C20. As long as the sums fit into 64 bits, an upload is allowed exactly when the
  document count after it and the bytes after it are within the limits, and a
  refused upload names the exhausted resource, documents first.
\<close>

theorem check_upload_exact:
  assumes "sint (us_Docs u) < 2 ^ 63 - 1"
    and "- (2 ^ 63) \<le> sint (us_StorageBytes u) + sint b" and "sint (us_StorageBytes u) + sint b < 2 ^ 63"
  shows "(dc_Allowed (CheckUpload lim u b) \<longleftrightarrow>
            sint (us_Docs u) + 1 \<le> sint (lm_Docs lim) \<and>
            sint (us_StorageBytes u) + sint b \<le> sint (lm_StorageBytes lim)) \<and>
         (\<not> dc_Allowed (CheckUpload lim u b) \<longrightarrow>
            dc_Resource (CheckUpload lim u b) =
              (if sint (lm_Docs lim) < sint (us_Docs u) + 1 then ResourceDocs else ResourceStorage))"
proof -
  have docs: "sint (us_Docs u + 1) = sint (us_Docs u) + 1"
    using sint_add_exact [of "us_Docs u" 1] assms(1) sint_ge [of "us_Docs u"] by simp
  have bytes: "sint (us_StorageBytes u + b) = sint (us_StorageBytes u) + sint b"
    by (rule sint_add_exact [OF assms(2,3)])
  show ?thesis
    by (simp add: CheckUpload_def docs bytes allow_decision_def not_less)
qed

theorem check_upload_exact_witness:
  "\<not> dc_Allowed (CheckUpload DefaultLimits \<lparr>us_Docs = 100, us_StorageBytes = 5, us_QueriesThisMonth = 0\<rparr> 7)"
  using check_upload_exact [of "\<lparr>us_Docs = 100, us_StorageBytes = 5, us_QueriesThisMonth = 0\<rparr>" 7 DefaultLimits]
  by (simp add: DefaultLimits_def)

text \<open>
  The storage check wraps around: an upload so large that the sum with the bytes
  already stored leaves the range of \<^verbatim>\<open>int64\<close> is allowed, whatever the limit, as long as
  the limit is not negative and a document slot is free.
\<close>

lemma check_upload_overflow_admits:
  assumes "sint (us_Docs u + 1) \<le> sint (lm_Docs lim)" and "0 \<le> sint (lm_StorageBytes lim)"
    and "2 ^ 63 \<le> sint (us_StorageBytes u) + sint b"
  shows "dc_Allowed (CheckUpload lim u b)"
proof -
  let ?s = "sint (us_StorageBytes u) + sint b"
  have lt: "?s < 2 ^ 64" using sint_lt [of "us_StorageBytes u"] sint_lt [of b] by simp
  have "sint (us_StorageBytes u + b) = signed_take_bit 63 (?s - 2 ^ 64)"
    using minus_mod_self2 [of "?s + 2 ^ 63" "2 ^ 64"]
    by (simp add: sint_word_add signed_take_bit_eq_take_bit_shift take_bit_eq_mod algebra_simps)
  also have "\<dots> = ?s - 2 ^ 64"
    using assms(3) lt by (intro signed_take_bit_int_eq_self) simp_all
  finally have "sint (us_StorageBytes u + b) < 0" using lt by simp
  then show ?thesis using assms(1,2) by (simp add: CheckUpload_def allow_decision_def)
qed

lemma check_upload_overflow_admits_witness:
  "dc_Allowed (CheckUpload DefaultLimits \<lparr>us_Docs = 3, us_StorageBytes = 1, us_QueriesThisMonth = 0\<rparr> 0x7FFFFFFFFFFFFFFF)"
  by (rule check_upload_overflow_admits) (simp_all add: DefaultLimits_def)

text \<open>
  The retry hint of a refused query is the time to the first of the next month in
  whole seconds: waiting one second more than the hint always reaches the next
  month and waiting less than the hint never does; it is at most 31 days, so the
  cap never applies. In the last second of a month the hint is 0, the value
  reserved for refusals that no waiting lifts.
\<close>

lemma query_retry_after:
  assumes "utc_valid n" and "\<not> dc_Allowed (CheckQuery n n lim u)"
  shows "let hint = dc_RetryAfter (CheckQuery n n lim u);
             wait = utc_instant (firstOfNextMonth n) - utc_instant n
         in hint * second \<le> wait \<and> wait < (hint + 1) * second \<and>
            0 \<le> hint \<and> hint \<le> 31 * 24 * 3600 \<and> (hint = 0 \<longleftrightarrow> wait < second)"
proof -
  let ?h = "dc_RetryAfter (CheckQuery n n lim u)"
  let ?d = "utc_instant (firstOfNextMonth n) - utc_instant n"
  have h: "?h = ?d div second"
    using assms(2) seconds_to_next_month(1) [OF assms(1)]
    by (simp add: CheckQuery_def allow_decision_def split: if_splits)
  note d = seconds_to_next_month(2,3) [OF assms(1)]
  have r: "?d = ?h * second + ?d mod second" "0 \<le> ?d mod second" "?d mod second < second"
    unfolding h by simp_all
  have pos: "0 \<le> ?h" using d(1) unfolding h by (simp add: pos_imp_zdiv_nonneg_iff)
  have "?h * second \<le> ?d" using r by linarith
  moreover have "?d < (?h + 1) * second" unfolding distrib_right using r by linarith
  moreover have "?h \<le> 31 * 24 * 3600" using d(2) r by auto
  moreover have "?h = 0 \<longleftrightarrow> ?d < second" using pos r by auto
  ultimately show ?thesis using pos unfolding Let_def by blast
qed

lemma query_retry_after_witness:
  "let n = \<lparr>ut_year = 2024, ut_month = 2, ut_day = 29, ut_nanos = 24 * 60 * minute - 1\<rparr>
   in dc_RetryAfter (CheckQuery n n DefaultLimits \<lparr>us_Docs = 0, us_StorageBytes = 0, us_QueriesThisMonth = 1000\<rparr>) = 0"
proof -
  let ?n = "\<lparr>ut_year = 2024, ut_month = 2, ut_day = 29, ut_nanos = 24 * 60 * minute - 1\<rparr>"
  let ?u = "\<lparr>us_Docs = 0, us_StorageBytes = 0, us_QueriesThisMonth = 1000\<rparr>"
  have v: "utc_valid ?n" by code_simp
  have "\<not> dc_Allowed (CheckQuery ?n ?n DefaultLimits ?u)"
    by (simp add: CheckQuery_def DefaultLimits_def)
  from query_retry_after [OF v this] time_to_next_month [OF v] show ?thesis
    by (simp add: month_days_def leap_year_def Let_def)
qed

text \<open>
  C37. Recorded usage is what the quota counts: after a successful record for a
  tenant this month, the query count of every session that sees the tenant's rows
  is one higher, and the count of a session that does not see them is unchanged.
  A failed or skipped record changes nothing.
\<close>

theorem recorded_usage_counts:
  assumes "RecordUsage ins roles ex (Some p) i prov model tin tout cost c = (err, c')"
    and "i \<noteq> []" and "\<And>s t. ins s i = Inr t \<Longrightarrow> month \<le> t"
  shows "count_queries sees month s (cn_db c') =
           count_queries sees month s (cn_db c) + (if err = None \<and> sees s i then 1 else 0)"
proof -
  let ?fn = "\<lambda>s db. case ins s i of Inl e \<Rightarrow> (Some e, db) | Inr t \<Rightarrow> (None, db\<lparr>qd_log := qd_log db @
     [\<lparr>ur_tenant = i, ur_provider = prov, ur_model = model, ur_input = tin, ur_output = tout, ur_cost = cost,
       ur_created = t\<rparr>]\<rparr>)"
  obtain e d where run: "WithTenant roles ex p i ?fn c = (e, d)" by fastforce
  then have d: "d = c'" "e = None \<longleftrightarrow> err = None"
    using assms(1,2) by (auto simp: RecordUsage_def split: option.splits)
  from run show ?thesis
  proof (cases rule: WithTenant_cases)
    case (failed x)
    then show ?thesis using d by simp
  next
    case (committed db)
    then show ?thesis using d assms(3) by (auto simp: count_queries_def split: sum.splits)
  qed
qed

theorem recorded_usage_counts_witness:
  "count_queries (\<lambda>s i. st_tenant s = i) 40 \<lparr>st_role = ''omur_app'', st_tenant = ''t1''\<rparr>
     (cn_db (snd (RecordUsage (\<lambda>s i. Inr 50) Map.empty (\<lambda>_. None) (Some 0) ''t1'' ''openai'' ''gpt'' 10 20 ()
        \<lparr>cn_cur = \<lparr>st_role = [], st_tenant = []\<rparr>, cn_db = \<lparr>qd_quotas = Map.empty, qd_files = [], qd_log = []\<rparr>\<rparr>))) = 1"
proof -
  let ?c = "\<lparr>cn_cur = \<lparr>st_role = [], st_tenant = []\<rparr>, cn_db = \<lparr>qd_quotas = Map.empty, qd_files = [], qd_log = []\<rparr>\<rparr>"
  let ?r = "RecordUsage (\<lambda>s i. Inr 50) Map.empty (\<lambda>_. None) (Some 0) ''t1'' ''openai'' ''gpt'' 10 20 () ?c"
  have run: "?r = (None, snd ?r)"
    by (simp add: RecordUsage_def WithTenant_def run_commit_def tx_defs roleForPool_def PoolRole_def)
  show ?thesis
    using recorded_usage_counts [OF run, of 40 "\<lambda>s i. st_tenant s = i" "\<lparr>st_role = ''omur_app'', st_tenant = ''t1''\<rparr>"]
    by (simp add: count_queries_def)
qed

end
