(* ===== verification/Http_Client.thy ===== *)
theory Http_Client
  imports Request_Id Tenant Auth
begin

text \<open>
  Package \<^verbatim>\<open>httpclient\<close> (\<^verbatim>\<open>src/httpclient/client.go\<close>): the circuit breaker and the client with
  retries, authentication headers and propagation of tenant and request id.

  The transport is a parameter: \<open>send n\<close> answers the n-th request of a call with an
  error or a response, \<open>cancel n\<close> is the error of the context if it ends during the
  pause before attempt n, \<open>now n\<close> the clock when attempt n is over, and \<open>build\<close> the error
  of \<^verbatim>\<open>http.NewRequestWithContext\<close> for a URL it refuses. The tracing wrapper around the
  transport is part of \<open>send\<close>.
\<close>

section \<open>The circuit breaker\<close>

datatype circuitState = stateClosed | stateOpen | stateHalfOpen

record CircuitBreaker =
  cb_threshold :: int
  cb_cooldown :: duration
  cb_failures :: int
  cb_state :: circuitState
  cb_openedAt :: time

definition NewCircuitBreaker :: "int \<Rightarrow> duration \<Rightarrow> CircuitBreaker" where
  "NewCircuitBreaker threshold cooldown =
     \<lparr>cb_threshold = threshold, cb_cooldown = cooldown, cb_failures = 0, cb_state = stateClosed,
      cb_openedAt = 0\<rparr>"

definition cb_Allow :: "time \<Rightarrow> CircuitBreaker \<Rightarrow> bool \<times> CircuitBreaker" where
  "cb_Allow now cb =
     (case cb_state cb of
        stateClosed \<Rightarrow> (True, cb)
      | stateOpen \<Rightarrow>
          if now - cb_openedAt cb \<ge> cb_cooldown cb then (True, cb\<lparr>cb_state := stateHalfOpen\<rparr>)
          else (False, cb)
      | stateHalfOpen \<Rightarrow> (True, cb))"

definition RecordSuccess :: "CircuitBreaker \<Rightarrow> CircuitBreaker" where
  "RecordSuccess cb = cb\<lparr>cb_failures := 0, cb_state := stateClosed\<rparr>"

definition RecordFailure :: "time \<Rightarrow> CircuitBreaker \<Rightarrow> CircuitBreaker" where
  "RecordFailure now cb =
     (let cb = cb\<lparr>cb_failures := cb_failures cb + 1\<rparr> in
      if cb_failures cb \<ge> cb_threshold cb then cb\<lparr>cb_state := stateOpen, cb_openedAt := now\<rparr> else cb)"

section \<open>The client\<close>

record Client =
  cl_timeout :: duration
  cl_retries :: int
  cl_headers :: "(string \<times> string) list"
  cl_circuitBreaker :: "CircuitBreaker option"
  cl_tracingDisabled :: bool
  cl_tenantFromContext :: bool
  cl_requestIDFromContext :: bool

definition put_header :: "string \<Rightarrow> string \<Rightarrow> (string \<times> string) list \<Rightarrow> (string \<times> string) list" where
  "put_header k v hs = filter (\<lambda>h. fst h \<noteq> k) hs @ [(k, v)]"

type_synonym client_option = "Client \<Rightarrow> Client"

definition client_New :: "client_option list \<Rightarrow> Client" where
  "client_New opts = fold (\<lambda>f c. f c) opts
     \<lparr>cl_timeout = 30 * second, cl_retries = 1, cl_headers = [], cl_circuitBreaker = None,
      cl_tracingDisabled = False, cl_tenantFromContext = False, cl_requestIDFromContext = False\<rparr>"

definition WithoutTracing :: client_option where
  "WithoutTracing c = c\<lparr>cl_tracingDisabled := True\<rparr>"

definition WithTimeout :: "duration \<Rightarrow> client_option" where
  "WithTimeout d c = c\<lparr>cl_timeout := d\<rparr>"

definition WithRetries :: "int \<Rightarrow> client_option" where
  "WithRetries n c = c\<lparr>cl_retries := n\<rparr>"

definition WithBearerToken :: "string \<Rightarrow> client_option" where
  "WithBearerToken token c = c\<lparr>cl_headers := put_header ''Authorization'' (''Bearer '' @ token) (cl_headers c)\<rparr>"

definition WithServiceToken :: "string \<Rightarrow> client_option" where
  "WithServiceToken token c = c\<lparr>cl_headers := put_header ''X-Service-Token'' token (cl_headers c)\<rparr>"

definition WithTenantHeaderFromContext :: client_option where
  "WithTenantHeaderFromContext c = c\<lparr>cl_tenantFromContext := True\<rparr>"

definition WithRequestIDFromContext :: client_option where
  "WithRequestIDFromContext c = c\<lparr>cl_requestIDFromContext := True\<rparr>"

definition WithCircuitBreaker :: "CircuitBreaker \<Rightarrow> client_option" where
  "WithCircuitBreaker cb c = c\<lparr>cl_circuitBreaker := Some cb\<rparr>"

section \<open>Requests and the outcome of a call\<close>

record http_resp =
  hr_status :: int
  hr_body :: string

text \<open>A Go pair of a response (\<open>None\<close> is nil) and an error.\<close>

type_synonym http_result = "http_resp option \<times> go_error"

type_synonym transport = "nat \<Rightarrow> request \<times> string \<Rightarrow> string + http_resp"

definition ErrCircuitOpen :: string where
  "ErrCircuitOpen = ''circuit breaker is open''"

definition propagate :: "Client \<Rightarrow> ctx \<Rightarrow> request \<Rightarrow> request" where
  "propagate c cx r =
     (let r = (if cl_tenantFromContext c \<and> tenant_FromContext cx \<noteq> []
               then r\<lparr>req_header := hset ''X-Tenant-ID'' (tenant_FromContext cx) (req_header r)\<rparr> else r)
      in if cl_requestIDFromContext c then the (WithRequestIDPropagation cx (Some r)) else r)"

text \<open>A request with the fixed header, then the client's headers, then the propagated ones.\<close>

definition json_request :: "Client \<Rightarrow> ctx \<Rightarrow> string \<Rightarrow> string \<Rightarrow> string \<Rightarrow> request" where
  "json_request c cx meth url fixed =
     propagate c cx
       \<lparr>req_method = meth, req_path = url,
        req_header = fold (\<lambda>(k, v). hset k v) (cl_headers c) (hset fixed ''application/json'' Map.empty),
        req_remote = [], req_cookies = [], req_ctx = cx\<rparr>"

definition breaker_failure :: "time \<Rightarrow> CircuitBreaker option \<Rightarrow> CircuitBreaker option" where
  "breaker_failure now cb = map_option (RecordFailure now) cb"

definition breaker_outcome :: "time \<Rightarrow> http_resp \<Rightarrow> CircuitBreaker option \<Rightarrow> CircuitBreaker option" where
  "breaker_outcome now resp cb =
     map_option (\<lambda>b. if hr_status resp \<ge> 500 then RecordFailure now b else RecordSuccess b) cb"

definition breaker_allow :: "time \<Rightarrow> CircuitBreaker option \<Rightarrow> bool \<times> CircuitBreaker option" where
  "breaker_allow now cb =
     (case cb of None \<Rightarrow> (True, None) | Some b \<Rightarrow> map_prod (\<lambda>x. x) Some (cb_Allow now b))"

section \<open>PostJSON\<close>

text \<open>
  One call: the values of the variables \<^verbatim>\<open>resp\<close> and \<^verbatim>\<open>err\<close>, the breaker, the requests sent and
  the pauses made. \<open>left\<close> is the number of attempts left, so that the attempt is the
  last one when it is 1. The pause doubles as a 64-bit duration.
\<close>

record post_state =
  po_result :: http_result
  po_breaker :: "CircuitBreaker option"
  po_sent :: "(request \<times> string) list"
  po_waits :: "int64 list"

record post_env =
  pe_send :: transport
  pe_cancel :: "nat \<Rightarrow> go_error"
  pe_now :: "nat \<Rightarrow> time"
  pe_build :: "string \<Rightarrow> go_error"

fun post_loop ::
  "post_env \<Rightarrow> Client \<Rightarrow> ctx \<Rightarrow> string \<Rightarrow> string \<Rightarrow> nat \<Rightarrow> nat \<Rightarrow> int64 \<Rightarrow> post_state \<Rightarrow> post_state" where
  "post_loop env c cx url buf 0 attempt backoff st =
     (if snd (po_result st) \<noteq> None then st\<lparr>po_result := (None, snd (po_result st))\<rparr> else st)"
| "post_loop env c cx url buf (Suc left) attempt backoff st =
     (if attempt > 0 \<and> pe_cancel env attempt \<noteq> None
      then st\<lparr>po_result := (None, pe_cancel env attempt)\<rparr>
      else
        (let st = (if attempt > 0 then st\<lparr>po_waits := po_waits st @ [backoff]\<rparr> else st);
             backoff = (if attempt > 0 then 2 * backoff else backoff)
         in case pe_build env url of
              Some e \<Rightarrow> st\<lparr>po_result := (None, Some (''httpclient: build request: '' @ e))\<rparr>
            | None \<Rightarrow>
                (let req = (json_request c cx ''POST'' url ''Content-Type'', buf);
                     st = st\<lparr>po_sent := po_sent st @ [req]\<rparr>
                 in case pe_send env attempt req of
                      Inl e \<Rightarrow>
                        post_loop env c cx url buf left (Suc attempt) backoff
                          (st\<lparr>po_result := (None, Some e),
                              po_breaker := breaker_failure (pe_now env attempt) (po_breaker st)\<rparr>)
                    | Inr resp \<Rightarrow>
                        if hr_status resp \<ge> 500 \<and> left > 0 then
                          post_loop env c cx url buf left (Suc attempt) backoff
                            (st\<lparr>po_result := (Some resp, None),
                                po_breaker := breaker_failure (pe_now env attempt) (po_breaker st)\<rparr>)
                        else
                          st\<lparr>po_result := (Some resp, None),
                             po_breaker := breaker_outcome (pe_now env attempt) resp (po_breaker st)\<rparr>)))"

text \<open>The body is an \<^verbatim>\<open>any\<close>; nil sends an empty body. \<open>t\<close> is the clock when the call starts.\<close>

definition PostJSON ::
  "post_env \<Rightarrow> time \<Rightarrow> Client \<Rightarrow> ctx \<Rightarrow> string \<Rightarrow> go_any \<Rightarrow> post_state" where
  "PostJSON env t c cx url body =
     (case breaker_allow t (cl_circuitBreaker c) of
        (False, b) \<Rightarrow>
          \<lparr>po_result = (None, Some ErrCircuitOpen), po_breaker = b, po_sent = [], po_waits = []\<rparr>
      | (True, b) \<Rightarrow>
          (case marshal_any body of
             Inl e \<Rightarrow>
               \<lparr>po_result = (None, Some (''httpclient: marshal body: '' @ e)), po_breaker = b, po_sent = [],
                po_waits = []\<rparr>
           | Inr text \<Rightarrow>
               post_loop env c cx url (case text of None \<Rightarrow> [] | Some s \<Rightarrow> s) (nat (cl_retries c)) 0 100000000
                 \<lparr>po_result = (None, None), po_breaker = b, po_sent = [], po_waits = []\<rparr>))"

text \<open>
  The goroutine of \<^verbatim>\<open>NotifyAsync\<close> closes the body of the response when there is no error;
  a nil response makes it panic, which ends the process.
\<close>

datatype goroutine_end = Returns | NilDereference

definition NotifyAsync ::
  "post_env \<Rightarrow> time \<Rightarrow> Client \<Rightarrow> ctx \<Rightarrow> string \<Rightarrow> go_any \<Rightarrow> goroutine_end" where
  "NotifyAsync env t c cx url payload =
     (case po_result (PostJSON env t c cx url payload) of
        (resp, Some e) \<Rightarrow> Returns
      | (Some resp, None) \<Rightarrow> Returns
      | (None, None) \<Rightarrow> NilDereference)"

section \<open>GetJSON and Do\<close>

definition one_shot ::
  "transport \<Rightarrow> time \<Rightarrow> request \<times> string \<Rightarrow> CircuitBreaker option \<Rightarrow> http_result \<times> CircuitBreaker option" where
  "one_shot send t req b =
     (case send 0 req of
        Inl e \<Rightarrow> ((None, Some e), breaker_failure t b)
      | Inr resp \<Rightarrow> ((Some resp, None), breaker_outcome t resp b))"

definition GetJSON ::
  "transport \<Rightarrow> (string \<Rightarrow> go_error) \<Rightarrow> time \<Rightarrow> time \<Rightarrow> Client \<Rightarrow> ctx \<Rightarrow> string
     \<Rightarrow> http_result \<times> CircuitBreaker option" where
  "GetJSON send build t t' c cx url =
     (case breaker_allow t (cl_circuitBreaker c) of
        (False, b) \<Rightarrow> ((None, Some ErrCircuitOpen), b)
      | (True, b) \<Rightarrow>
          (case build url of
             Some e \<Rightarrow> ((None, Some (''httpclient: build request: '' @ e)), b)
           | None \<Rightarrow> one_shot send t' (json_request c cx ''GET'' url ''Accept'', []) b))"

fun default_headers :: "(string \<times> string) list \<Rightarrow> header \<Rightarrow> header" where
  "default_headers [] h = h"
| "default_headers ((k, v) # hs) h = default_headers hs (if hget h k = [] then hset k v h else h)"

definition do_request :: "Client \<Rightarrow> ctx \<Rightarrow> request \<Rightarrow> request" where
  "do_request c cx req =
     (let r = (with_ctx cx req)\<lparr>req_header := default_headers (cl_headers c) (req_header req)\<rparr>;
          r = (if cl_tenantFromContext c \<and> tenant_FromContext cx \<noteq> [] \<and> rget r ''X-Tenant-ID'' = []
               then r\<lparr>req_header := hset ''X-Tenant-ID'' (tenant_FromContext cx) (req_header r)\<rparr> else r)
      in if cl_requestIDFromContext c then the (WithRequestIDPropagation cx (Some r)) else r)"

definition client_Do ::
  "transport \<Rightarrow> time \<Rightarrow> time \<Rightarrow> Client \<Rightarrow> ctx \<Rightarrow> request \<times> string \<Rightarrow> http_result \<times> CircuitBreaker option" where
  "client_Do send t t' c cx req =
     (case breaker_allow t (cl_circuitBreaker c) of
        (False, b) \<Rightarrow> ((None, Some ErrCircuitOpen), b)
      | (True, b) \<Rightarrow> one_shot send t' (do_request c cx (fst req), snd req) b)"

section \<open>Lemmas on the breaker\<close>

datatype cb_event = EvAllow time | EvSuccess | EvFailure time

fun cb_apply :: "cb_event \<Rightarrow> CircuitBreaker \<Rightarrow> CircuitBreaker" where
  "cb_apply (EvAllow t) cb = snd (cb_Allow t cb)"
| "cb_apply EvSuccess cb = RecordSuccess cb"
| "cb_apply (EvFailure t) cb = RecordFailure t cb"

definition cb_run :: "cb_event list \<Rightarrow> CircuitBreaker \<Rightarrow> CircuitBreaker" where
  "cb_run evs cb = fold cb_apply evs cb"

text \<open>
  What a history says, newest event first: how many failures there were since the
  last success, when the last one was, and the times \<^verbatim>\<open>Allow\<close> was called after it.
\<close>

fun consec_failures :: "cb_event list \<Rightarrow> nat" where
  "consec_failures [] = 0"
| "consec_failures (EvSuccess # es) = 0"
| "consec_failures (EvFailure t # es) = Suc (consec_failures es)"
| "consec_failures (EvAllow t # es) = consec_failures es"

fun last_failure :: "cb_event list \<Rightarrow> time" where
  "last_failure [] = 0"
| "last_failure (EvFailure t # es) = t"
| "last_failure (_ # es) = last_failure es"

fun calls_since :: "cb_event list \<Rightarrow> time set" where
  "calls_since [] = {}"
| "calls_since (EvSuccess # es) = {}"
| "calls_since (EvFailure t # es) = {}"
| "calls_since (EvAllow t # es) = insert t (calls_since es)"

lemmas breaker_defs = cb_Allow_def RecordSuccess_def RecordFailure_def NewCircuitBreaker_def

definition breaker_inv :: "int \<Rightarrow> duration \<Rightarrow> cb_event list \<Rightarrow> CircuitBreaker \<Rightarrow> bool" where
  "breaker_inv th cd es cb \<longleftrightarrow>
     cb_threshold cb = th \<and> cb_cooldown cb = cd \<and> cb_failures cb = int (consec_failures es) \<and>
     (cb_state cb = stateClosed \<longleftrightarrow> int (consec_failures es) < th) \<and>
     (cb_state cb \<noteq> stateClosed \<longrightarrow> cb_openedAt cb = last_failure es) \<and>
     (cb_state cb \<noteq> stateClosed \<longrightarrow>
        (cb_state cb = stateHalfOpen \<longleftrightarrow> (\<exists>t \<in> calls_since es. t - last_failure es \<ge> cd)))"

lemma breaker_inv_step:
  assumes "0 < th" and "breaker_inv th cd es cb"
  shows "breaker_inv th cd (e # es) (cb_apply e cb)"
proof (cases e)
  case (EvAllow t)
  then show ?thesis using assms by (cases "cb_state cb") (auto simp: breaker_inv_def breaker_defs)
next
  case EvSuccess
  then show ?thesis using assms by (auto simp: breaker_inv_def breaker_defs)
next
  case (EvFailure t)
  then show ?thesis using assms by (cases "cb_state cb") (auto simp: breaker_inv_def breaker_defs Let_def)
qed

lemma breaker_inv_run:
  assumes "0 < th"
  shows "breaker_inv th cd (rev evs) (cb_run evs (NewCircuitBreaker th cd))"
proof -
  have "breaker_inv th cd es (foldr cb_apply es (NewCircuitBreaker th cd))" for es
  proof (induction es)
    case Nil
    show ?case using assms by (simp add: breaker_inv_def NewCircuitBreaker_def)
  next
    case (Cons e es)
    then show ?case by (simp add: breaker_inv_step [OF assms])
  qed
  then show ?thesis by (simp add: cb_run_def foldr_conv_fold [of cb_apply "rev evs", unfolded rev_rev_ident, symmetric])
qed

section \<open>Lemmas on the headers of requests\<close>

lemma hget_fold_hset:
  "hget (fold (\<lambda>(k, v). hset k v) hs h) n =
     (case map_of (rev (map (\<lambda>(k, v). (CanonicalHeaderKey k, v)) hs)) (CanonicalHeaderKey n) of
        None \<Rightarrow> hget h n | Some v \<Rightarrow> v)"
proof (induction hs rule: rev_induct)
  case (snoc x hs)
  then show ?case by (cases x) auto
qed simp

lemma hget_propagate:
  "rget (propagate c cx r) ''X-Service-Token'' = rget r ''X-Service-Token''"
  "cl_tenantFromContext c \<Longrightarrow> tenant_FromContext cx \<noteq> [] \<Longrightarrow>
     rget (propagate c cx r) ''X-Tenant-ID'' = tenant_FromContext cx"
  "cl_requestIDFromContext c \<Longrightarrow> rget r HeaderName = [] \<Longrightarrow>
     rget (propagate c cx r) HeaderName = requestid_FromContext cx"
  by (auto simp: propagate_def WithRequestIDPropagation_def HeaderName_def Let_def)

section \<open>Lemmas on the attempts\<close>

abbreviation post_request :: "Client \<Rightarrow> ctx \<Rightarrow> string \<Rightarrow> string \<Rightarrow> request \<times> string" where
  "post_request c cx url buf \<equiv> (json_request c cx ''POST'' url ''Content-Type'', buf)"

abbreviation sent_state :: "nat \<Rightarrow> int64 \<Rightarrow> request \<times> string \<Rightarrow> post_state \<Rightarrow> post_state" where
  "sent_state attempt backoff req st \<equiv>
     st\<lparr>po_sent := po_sent st @ [req], po_waits := po_waits st @ (if attempt > 0 then [backoff] else [])\<rparr>"

lemma post_loop_attempt:
  assumes "attempt = 0 \<or> pe_cancel env attempt = None" and "pe_build env url = None"
  shows "post_loop env c cx url buf (Suc left) attempt backoff st =
     (let st' = sent_state attempt backoff (post_request c cx url buf) st;
          backoff' = (if attempt > 0 then 2 * backoff else backoff)
      in case pe_send env attempt (post_request c cx url buf) of
           Inl e \<Rightarrow> post_loop env c cx url buf left (Suc attempt) backoff'
              (st'\<lparr>po_result := (None, Some e), po_breaker := breaker_failure (pe_now env attempt) (po_breaker st)\<rparr>)
         | Inr resp \<Rightarrow>
             if hr_status resp \<ge> 500 \<and> left > 0 then
               post_loop env c cx url buf left (Suc attempt) backoff'
                 (st'\<lparr>po_result := (Some resp, None), po_breaker := breaker_failure (pe_now env attempt) (po_breaker st)\<rparr>)
             else st'\<lparr>po_result := (Some resp, None), po_breaker := breaker_outcome (pe_now env attempt) resp (po_breaker st)\<rparr>)"
  using assms by (cases st) (auto simp: Let_def split: sum.splits)

lemma post_loop_refused:
  assumes "\<not> (attempt = 0 \<or> pe_cancel env attempt = None) \<or> pe_build env url \<noteq> None"
  shows "po_sent (post_loop env c cx url buf (Suc left) attempt backoff st) = po_sent st"
  using assms by (auto simp: Let_def)

lemma post_loop_sent:
  "set (po_sent (post_loop env c cx url buf left attempt backoff st))
     \<subseteq> insert (post_request c cx url buf) (set (po_sent st))"
proof (induction left arbitrary: attempt backoff st)
  case 0
  then show ?case by auto
next
  case (Suc left)
  show ?case
  proof (cases "(attempt = 0 \<or> pe_cancel env attempt = None) \<and> pe_build env url = None")
    case True
    let ?req = "post_request c cx url buf"
    have ih: "set (po_sent (post_loop env c cx url buf left a b st')) \<subseteq> insert ?req (set (po_sent st))"
      if "set (po_sent st') \<subseteq> insert ?req (set (po_sent st))" for a b st'
      by (rule order_trans [OF Suc.IH]) (use that in blast)
    have sent: "set (po_sent st @ [?req]) \<subseteq> insert ?req (set (po_sent st))" by auto
    show ?thesis
      using True sent unfolding post_loop_attempt [OF conjunct1 [OF True] conjunct2 [OF True]] Let_def
      by (cases "pe_send env attempt ?req") (simp_all only: sum.case, auto intro!: ih simp del: post_loop.simps)
  next
    case False
    then show ?thesis by (subst post_loop_refused) auto
  qed
qed

definition retryable :: "string + http_resp \<Rightarrow> bool" where
  "retryable r = (case r of Inl e \<Rightarrow> True | Inr resp \<Rightarrow> hr_status resp \<ge> 500)"

definition breaker_end :: "time \<Rightarrow> string + http_resp \<Rightarrow> CircuitBreaker option \<Rightarrow> CircuitBreaker option" where
  "breaker_end t r b = (if retryable r then breaker_failure t b else map_option RecordSuccess b)"

lemma post_loop_outcome:
  fixes env c cx url buf
  defines "ans \<equiv> \<lambda>j. pe_send env j (post_request c cx url buf)"
  assumes "\<And>j. pe_cancel env j = None" and "pe_build env url = None"
    and "k < left" and "\<And>j. j < k \<Longrightarrow> retryable (ans (attempt + j))"
    and "\<not> retryable (ans (attempt + k)) \<or> Suc k = left"
  shows "let st' = post_loop env c cx url buf left attempt backoff st in
     po_result st' = (case ans (attempt + k) of Inl e \<Rightarrow> (None, Some e) | Inr resp \<Rightarrow> (Some resp, None)) \<and>
     po_sent st' = po_sent st @ replicate (Suc k) (post_request c cx url buf) \<and>
     po_breaker st' = breaker_end (pe_now env (attempt + k)) (ans (attempt + k))
       (fold (\<lambda>j. breaker_failure (pe_now env j)) [attempt..<attempt + k] (po_breaker st))"
  using assms(4-6)
proof (induction left arbitrary: attempt backoff st k)
  case (Suc left)
  have ans: "pe_send env j (post_request c cx url buf) = ans j" for j by (simp add: ans_def)
  note at = post_loop_attempt [of attempt env url c cx buf left backoff st, OF disjI2 [OF assms(2)] assms(3)]
  show ?case
  proof (cases k)
    case 0
    then have stop: "\<not> retryable (ans attempt) \<or> left = 0" using Suc.prems(3) by simp
    show ?thesis
    proof (cases "ans attempt")
      case (Inl e)
      then show ?thesis using 0 stop
        unfolding at by (simp add: Let_def ans retryable_def breaker_end_def)
    next
      case (Inr resp)
      then show ?thesis using 0 stop
        unfolding at by (cases "hr_status resp \<ge> 500"; cases "po_breaker st")
          (simp_all add: Let_def ans retryable_def breaker_end_def breaker_outcome_def breaker_failure_def
            del: post_loop.simps)
    qed
  next
    case (Suc k')
    then have left: "k' < left" "left > 0" using Suc.prems(1) by auto
    have rt: "retryable (ans attempt)" using Suc.prems(2) [of 0] Suc by simp
    have range: "[attempt..<attempt + k] = attempt # [Suc attempt..<Suc attempt + k']"
      using Suc by (simp add: upt_conv_Cons)
    have ih: "let st' = post_loop env c cx url buf left (Suc attempt) b
          (sent_state attempt backoff (post_request c cx url buf) st\<lparr>po_result := r, po_breaker := cb\<rparr>) in
       po_result st' = (case ans (attempt + k) of Inl e \<Rightarrow> (None, Some e) | Inr resp \<Rightarrow> (Some resp, None)) \<and>
       po_sent st' = po_sent st @ replicate (Suc k) (post_request c cx url buf) \<and>
       po_breaker st' = breaker_end (pe_now env (attempt + k)) (ans (attempt + k))
         (fold (\<lambda>j. breaker_failure (pe_now env j)) [Suc attempt..<Suc attempt + k'] cb)" for b r cb
      using Suc.IH [of k' "Suc attempt" b "sent_state attempt backoff (post_request c cx url buf) st\<lparr>po_result := r, po_breaker := cb\<rparr>"]
        Suc left Suc.prems(2) [of "Suc j" for j] Suc.prems(3) by (simp add: Let_def)
    show ?thesis
      using rt left ih unfolding at
      by (cases "ans attempt") (simp_all add: Let_def ans retryable_def range del: post_loop.simps)
  qed
qed simp

section \<open>Properties\<close>

text \<open>
  C12. The circuit breaker, described by the history of calls alone: it lets a request
  through exactly when there were fewer failures than the threshold since the last
  success, or the cooldown has passed since the last failure, now or at an earlier
  request since that failure. In particular an open breaker refuses every request
  during the cooldown, and one failure of a probe starts the cooldown again.
\<close>

theorem breaker_refines_history:
  assumes "0 < th"
  shows "fst (cb_Allow t (cb_run evs (NewCircuitBreaker th cd))) \<longleftrightarrow>
     int (consec_failures (rev evs)) < th \<or>
     (\<exists>t' \<in> insert t (calls_since (rev evs)). t' - last_failure (rev evs) \<ge> cd)"
proof -
  let ?cb = "cb_run evs (NewCircuitBreaker th cd)"
  have inv: "breaker_inv th cd (rev evs) ?cb" by (rule breaker_inv_run [OF assms])
  show ?thesis
  proof (cases "cb_state ?cb")
    case stateClosed
    then show ?thesis using inv by (simp add: breaker_inv_def cb_Allow_def)
  next
    case stateOpen
    then show ?thesis using inv by (auto simp: breaker_inv_def cb_Allow_def)
  next
    case stateHalfOpen
    then show ?thesis using inv by (auto simp: breaker_inv_def cb_Allow_def)
  qed
qed

theorem breaker_refines_history_witness:
  "\<not> fst (cb_Allow 15 (cb_run [EvFailure 3, EvAllow 4, EvFailure 10] (NewCircuitBreaker 2 6)))"
  using breaker_refines_history [of 2 15 "[EvFailure 3, EvAllow 4, EvFailure 10]" 6] by simp

text \<open>
  C21. A POST that the breaker lets through is retried until an answer below 500 or the
  configured number of attempts: it returns the answer of attempt \<open>k\<close>, the first that
  is not to be retried or else the last, having sent the same request \<open>k + 1\<close> times and
  told the breaker of every failed attempt and of the final outcome.
\<close>

theorem post_json_retries:
  assumes "breaker_allow t (cl_circuitBreaker c) = (True, b)" and "marshal_any body = Inr text"
    and "\<And>j. pe_cancel env j = None" and "pe_build env url = None" and "int k < cl_retries c"
    and "\<And>j. j < k \<Longrightarrow> retryable (pe_send env j (post_request c cx url (case text of None \<Rightarrow> [] | Some s \<Rightarrow> s)))"
    and "\<not> retryable (pe_send env k (post_request c cx url (case text of None \<Rightarrow> [] | Some s \<Rightarrow> s)))
         \<or> int (Suc k) = cl_retries c"
  shows "let req = post_request c cx url (case text of None \<Rightarrow> [] | Some s \<Rightarrow> s);
             out = PostJSON env t c cx url body
         in po_result out = (case pe_send env k req of Inl e \<Rightarrow> (None, Some e) | Inr resp \<Rightarrow> (Some resp, None)) \<and>
            po_sent out = replicate (Suc k) req \<and>
            po_breaker out = breaker_end (pe_now env k) (pe_send env k req)
              (fold (\<lambda>j. breaker_failure (pe_now env j)) [0..<k] b)"
proof -
  let ?buf = "case text of None \<Rightarrow> [] | Some s \<Rightarrow> s"
  have n: "k < nat (cl_retries c)" "Suc k = nat (cl_retries c) \<longleftrightarrow> int (Suc k) = cl_retries c"
    using assms(5) by linarith+
  have run: "PostJSON env t c cx url body =
      post_loop env c cx url ?buf (nat (cl_retries c)) 0 100000000
        \<lparr>po_result = (None, None), po_breaker = b, po_sent = [], po_waits = []\<rparr>"
    using assms(1,2) by (simp add: PostJSON_def)
  have last: "\<not> retryable (pe_send env (0 + k) (post_request c cx url ?buf)) \<or> Suc k = nat (cl_retries c)"
    using assms(7) n(2) by simp
  have pre: "retryable (pe_send env (0 + j) (post_request c cx url ?buf))" if "j < k" for j
    using assms(6) [OF that] by simp
  show ?thesis
    unfolding run
    using post_loop_outcome [where left = "nat (cl_retries c)" and attempt = 0 and backoff = 100000000
        and st = "\<lparr>po_result = (None, None), po_breaker = b, po_sent = [], po_waits = []\<rparr>",
        OF assms(3,4) n(1) pre last]
    by (simp add: Let_def)
qed

definition flaky_env :: post_env where
  "flaky_env = \<lparr>pe_send = (\<lambda>n r. if n = 0 then Inl ''refused'' else if n = 1 then Inr \<lparr>hr_status = 503, hr_body = []\<rparr>
       else Inr \<lparr>hr_status = 200, hr_body = ''ok''\<rparr>),
     pe_cancel = (\<lambda>_. None), pe_now = int, pe_build = (\<lambda>_. None)\<rparr>"

theorem post_json_retries_witness:
  "let out = PostJSON flaky_env 0 (client_New [WithRetries 5]) [] ''http://x'' GoNil
   in po_result out = (Some \<lparr>hr_status = 200, hr_body = ''ok''\<rparr>, None) \<and> length (po_sent out) = 3"
proof -
  let ?c = "client_New [WithRetries 5]"
  have c: "breaker_allow 0 (cl_circuitBreaker ?c) = (True, None)" "cl_retries ?c = 5"
    by (simp_all add: client_New_def WithRetries_def breaker_allow_def)
  have env: "pe_cancel flaky_env j = None" "pe_build flaky_env u = None" for j u
    by (simp_all add: flaky_env_def)
  have pre: "retryable (pe_send flaky_env j q)" if "j < 2" for j q
    using that by (simp add: flaky_env_def retryable_def)
  have good: "\<not> retryable (pe_send flaky_env 2 q)" for q by (simp add: flaky_env_def retryable_def)
  have m: "marshal_any GoNil = Inr None" by (simp add: marshal_any_def)
  show ?thesis
    using post_json_retries [of 0 ?c None GoNil None flaky_env "''http://x''" 2 "[]", OF c(1) m env _ pre disjI1 [OF good]] c(2)
    by (auto simp: flaky_env_def Let_def)
qed

text \<open>
  With zero or a negative number of attempts a POST returns neither a response
  nor an error and sends nothing, and \<^verbatim>\<open>NotifyAsync\<close>, which takes the missing error for
  success, dereferences the nil response.
\<close>

lemma post_json_without_attempts:
  assumes "cl_retries c \<le> 0" and "fst (breaker_allow t (cl_circuitBreaker c))" and "marshal_any body = Inr text"
  shows "po_result (PostJSON env t c cx url body) = (None, None) \<and>
         po_sent (PostJSON env t c cx url body) = [] \<and>
         NotifyAsync env t c cx url body = NilDereference"
  using assms by (cases "breaker_allow t (cl_circuitBreaker c)") (auto simp: PostJSON_def NotifyAsync_def)

lemma post_json_without_attempts_witness:
  "NotifyAsync flaky_env 0 (client_New [WithRetries 0]) [] ''http://x'' GoNil = NilDereference"
  using post_json_without_attempts [of "client_New [WithRetries 0]" 0 GoNil None flaky_env "[]" "''http://x''"]
  by (simp add: client_New_def WithRetries_def breaker_allow_def marshal_any_def)

text \<open>
  C15. Tenancy crosses service boundaries: every request a client with the service
  token and tenant propagation sends on behalf of a context with a tenant resolves,
  at a receiver with the same service token, to that tenant, and without touching
  the receiver's identity cache.
\<close>

theorem tenant_crosses_services:
  assumes "tenant_FromContext cx \<noteq> []" and "ServiceToken cfg = token"
    and "(req, buf) \<in> set (po_sent (PostJSON env t (WithServiceToken token (WithTenantHeaderFromContext c)) cx url body))"
  shows "resolveTenant now req cfg cache = (tenant_FromContext cx, cache, [])"
proof -
  let ?c = "WithServiceToken token (WithTenantHeaderFromContext c)"
  have "req = json_request ?c cx ''POST'' url ''Content-Type''"
    using assms(3) post_loop_sent
    by (fastforce simp: PostJSON_def split: prod.splits bool.splits sum.splits)
  moreover have "cl_tenantFromContext ?c" by (simp add: WithServiceToken_def WithTenantHeaderFromContext_def)
  ultimately have "rget req ''X-Tenant-ID'' = tenant_FromContext cx" "rget req ''X-Service-Token'' = token"
    using assms(1)
    by (simp_all add: json_request_def hget_propagate hget_fold_hset WithServiceToken_def put_header_def)
  then show ?thesis using assms(1,2) by (simp add: resolveTenant_def)
qed

theorem tenant_crosses_services_witness:
  "resolveTenant (\<lambda>_. 0) (json_request (WithServiceToken ''svc'' (WithTenantHeaderFromContext (client_New [])))
       (tenant_WithID [] ''t9'') ''POST'' ''http://x'' ''Content-Type'') demo_cfg (newUIDCache 0)
     = (''t9'', newUIDCache 0, [])"
proof -
  let ?c = "WithServiceToken ''svc'' (WithTenantHeaderFromContext (client_New []))"
  let ?cx = "tenant_WithID [] ''t9''"
  have t: "tenant_FromContext ?cx = ''t9''" by (simp add: tenant_FromContext_def tenant_WithID_def)
  have "po_sent (PostJSON flaky_env 0 ?c ?cx ''http://x'' GoNil) = [post_request ?c ?cx ''http://x'' []]"
    by (simp add: PostJSON_def client_New_def WithServiceToken_def WithTenantHeaderFromContext_def breaker_allow_def
          marshal_any_def flaky_env_def Let_def)
  then have "(json_request ?c ?cx ''POST'' ''http://x'' ''Content-Type'', [])
      \<in> set (po_sent (PostJSON flaky_env 0 ?c ?cx ''http://x'' GoNil))" by simp
  from tenant_crosses_services [OF _ _ this, of demo_cfg "\<lambda>_. 0" "newUIDCache 0"] t show ?thesis
    by (simp add: demo_cfg_def)
qed
end
