(* ===== verification/Base64.thy ===== *)
theory Base64
  imports Prelude
begin

text \<open>
  The part of Go's \<^verbatim>\<open>encoding/base64\<close> the repository uses: padded encoding with the standard
  and the URL alphabet, and decoding, which skips carriage returns and line feeds
  and ignores the unused low bits of the last digit before padding.
\<close>

type_synonym alphabet = string

definition alnum :: string where
  "alnum = map char_of ([65..<91] @ [97..<123] @ [48..<58])"

definition StdEncoding :: alphabet where "StdEncoding = alnum @ ''+/''"
definition URLEncoding :: alphabet where "URLEncoding = alnum @ ''-_''"

abbreviation nbyte :: "char \<Rightarrow> nat" where "nbyte c \<equiv> of_char c"

fun b64_value :: "alphabet \<Rightarrow> char \<Rightarrow> nat option" where
  "b64_value [] c = None"
| "b64_value (a # al) c = (if a = c then Some 0 else map_option Suc (b64_value al c))"

definition digit4 :: "alphabet \<Rightarrow> nat \<Rightarrow> string" where
  "digit4 al v = [al ! (v div 262144), al ! (v div 4096 mod 64), al ! (v div 64 mod 64), al ! (v mod 64)]"

definition pad_char :: char where "pad_char = CHR ''=''"

fun EncodeToString :: "alphabet \<Rightarrow> string \<Rightarrow> string" where
  "EncodeToString al [] = []"
| "EncodeToString al [x] = take 2 (digit4 al (nbyte x * 65536)) @ [pad_char, pad_char]"
| "EncodeToString al [x, y] = take 3 (digit4 al (nbyte x * 65536 + nbyte y * 256)) @ [pad_char]"
| "EncodeToString al (x # y # z # s) =
     digit4 al (nbyte x * 65536 + nbyte y * 256 + nbyte z) @ EncodeToString al s"

definition bytes3 :: "nat \<Rightarrow> string" where
  "bytes3 v = [char_of (v div 65536), char_of (v div 256 mod 256), char_of (v mod 256)]"

fun b64_quanta :: "alphabet \<Rightarrow> string \<Rightarrow> string option" where
  "b64_quanta al [] = Some []"
| "b64_quanta al (a # b # c # d # s) =
     (case (b64_value al a, b64_value al b) of
        (Some p, Some q) \<Rightarrow>
          (if c = pad_char \<and> d = pad_char \<and> s = [] then Some (take 1 (bytes3 (p * 262144 + q * 4096)))
           else (case b64_value al c of
                   None \<Rightarrow> None
                 | Some r \<Rightarrow>
                     if d = pad_char \<and> s = [] then Some (take 2 (bytes3 (p * 262144 + q * 4096 + r * 64)))
                     else (case b64_value al d of
                             None \<Rightarrow> None
                           | Some t \<Rightarrow>
                               map_option (\<lambda>out. bytes3 (p * 262144 + q * 4096 + r * 64 + t) @ out)
                                 (b64_quanta al s))))
      | _ \<Rightarrow> None)"
| "b64_quanta al s = None"

definition DecodeString :: "alphabet \<Rightarrow> string \<Rightarrow> string option" where
  "DecodeString al s = b64_quanta al (filter (\<lambda>c. c \<noteq> CHR 0x0A \<and> c \<noteq> CHR 0x0D) s)"

section \<open>Decoding reverses encoding\<close>

text \<open>What the codec needs of an alphabet; both alphabets have it.\<close>

locale base64_alphabet =
  fixes al :: alphabet
  assumes len: "length al = 64"
    and value_nth: "d < 64 \<Longrightarrow> b64_value al (al ! d) = Some d"
    and clean: "c \<in> set al \<Longrightarrow> c \<noteq> pad_char \<and> c \<noteq> CHR 0x0A \<and> c \<noteq> CHR 0x0D"
begin

lemma nth_ne_pad [simp]: "d < 64 \<Longrightarrow> al ! d \<noteq> pad_char"
  using clean [of "al ! d"] len by simp

lemma digits_lt:
  fixes v :: nat
  assumes "v < 16777216"
  shows "v div 262144 < 64" "v div 4096 mod 64 < 64" "v div 64 mod 64 < 64" "v mod 64 < 64"
  using assms by (simp_all add: div_less_iff_less_mult)

lemma digits_value:
  fixes v :: nat
  shows "v div 262144 * 262144 + v div 4096 mod 64 * 4096 + v div 64 mod 64 * 64 + v mod 64 = v"
proof -
  have "v = v div 64 * 64 + v mod 64" by simp
  moreover have "v div 64 = v div 4096 * 64 + v div 64 mod 64"
    using div_mult_mod_eq [of "v div 64" 64] by (simp add: div_mult2_eq [symmetric])
  moreover have "v div 4096 = v div 262144 * 64 + v div 4096 mod 64"
    using div_mult_mod_eq [of "v div 4096" 64] by (simp add: div_mult2_eq [symmetric])
  ultimately show ?thesis by linarith
qed

lemma quanta_full:
  assumes "v < 16777216"
  shows "b64_quanta al (digit4 al v @ s) = map_option (\<lambda>out. bytes3 v @ out) (b64_quanta al s)"
  using digits_lt [OF assms] digits_value [of v]
  by (simp add: digit4_def value_nth)

lemma bytes3_join:
  "bytes3 (nbyte x * 65536 + nbyte y * 256 + nbyte z) = [x, y, z]"
proof -
  have b: "nbyte x < 256" "nbyte y < 256" "nbyte z < 256" by (rule nat_of_char_less_256)+
  have hi: "(a * n + r) div n = a" "(a * n + r) mod n = r" if "r < n" for a n r :: nat
    using that by simp_all
  let ?v = "nbyte x * 65536 + nbyte y * 256 + nbyte z"
  have 1: "?v = nbyte x * 65536 + (nbyte y * 256 + nbyte z)" by simp
  have 2: "?v = (nbyte x * 256 + nbyte y) * 256 + nbyte z" by simp
  have "?v div 65536 = nbyte x" unfolding 1 by (rule hi) (use b in linarith)
  moreover have "?v div 256 = nbyte x * 256 + nbyte y" "?v mod 256 = nbyte z"
    unfolding 2 by (rule hi; use b in simp)+
  moreover have "(nbyte x * 256 + nbyte y) mod 256 = nbyte y" by (rule hi) (use b in simp)
  ultimately show ?thesis by (simp add: bytes3_def)
qed

lemma join_lt:
  "nbyte x * 65536 + nbyte y * 256 + nbyte z < 16777216"
proof -
  have b: "nbyte x < 256" "nbyte y < 256" "nbyte z < 256" by (rule nat_of_char_less_256)+
  then show ?thesis by linarith
qed

lemma zero_byte: "nbyte (CHR 0x00) = 0" by simp

lemma quanta_padded:
  assumes "p < 64" and "q < 64" and "r < 64"
  shows "b64_quanta al [al ! p, al ! q, pad_char, pad_char] = Some (take 1 (bytes3 (p * 262144 + q * 4096)))"
    and "b64_quanta al [al ! p, al ! q, al ! r, pad_char] = Some (take 2 (bytes3 (p * 262144 + q * 4096 + r * 64)))"
  using assms by (simp_all add: value_nth)

lemma multiple_mod: "(a * 64) mod 64 = (0::nat)" "(a * 64) div 64 = (a::nat)"
  by simp_all

lemma quanta_one: "b64_quanta al (EncodeToString al [x]) = Some [x]"
proof -
  define v where "v = nbyte x * 65536"
  have e: "v = (nbyte x * 16 * 64) * 64" by (simp add: v_def)
  have low: "v mod 64 = 0" "v div 64 mod 64 = 0" by (simp_all only: e multiple_mod)
  have "v < 16777216" using join_lt [of x "CHR 0x00" "CHR 0x00"] by (simp add: v_def)
  note lt = digits_lt [OF this]
  have sum: "v div 262144 * 262144 + v div 4096 mod 64 * 4096 = v"
    using digits_value [of v] unfolding low by (simp only: mult_zero_left add_0_right)
  have b: "bytes3 v = [x, CHR 0x00, CHR 0x00]"
    using bytes3_join [of x "CHR 0x00" "CHR 0x00"] by (simp add: v_def)
  have enc: "EncodeToString al [x] = [al ! (v div 262144), al ! (v div 4096 mod 64), pad_char, pad_char]"
    by (simp only: EncodeToString.simps digit4_def v_def [symmetric]) (simp add: numeral_2_eq_2)
  show ?thesis unfolding enc quanta_padded(1) [OF lt(1,2) lt(2)] sum b by simp
qed

lemma quanta_two: "b64_quanta al (EncodeToString al [x, y]) = Some [x, y]"
proof -
  define v where "v = nbyte x * 65536 + nbyte y * 256"
  have e: "v = (nbyte x * 1024 + nbyte y * 4) * 64" by (simp add: v_def)
  have low: "v mod 64 = 0" by (simp only: e multiple_mod)
  have "v < 16777216" using join_lt [of x y "CHR 0x00"] by (simp add: v_def)
  note lt = digits_lt [OF this]
  have sum: "v div 262144 * 262144 + v div 4096 mod 64 * 4096 + v div 64 mod 64 * 64 = v"
    using digits_value [of v] unfolding low by (simp only: add_0_right)
  have b: "bytes3 v = [x, y, CHR 0x00]" using bytes3_join [of x y "CHR 0x00"] by (simp add: v_def)
  have enc: "EncodeToString al [x, y] =
      [al ! (v div 262144), al ! (v div 4096 mod 64), al ! (v div 64 mod 64), pad_char]"
    by (simp only: EncodeToString.simps digit4_def v_def [symmetric]) (simp add: numeral_3_eq_3)
  show ?thesis unfolding enc quanta_padded(2) [OF lt(1,2,3)] sum b by simp
qed

lemma quanta_encode: "b64_quanta al (EncodeToString al s) = Some s"
proof (induction "length s" arbitrary: s rule: less_induct)
  case less
  consider "s = []" | x where "s = [x]" | x y where "s = [x, y]" | x y z t where "s = x # y # z # t"
    by (metis list.exhaust)
  then show ?case
  proof cases
    case (4 x y z t)
    have "b64_quanta al (EncodeToString al s) =
        map_option (\<lambda>out. bytes3 (nbyte x * 65536 + nbyte y * 256 + nbyte z) @ out) (b64_quanta al (EncodeToString al t))"
      unfolding 4 EncodeToString.simps by (rule quanta_full [OF join_lt])
    then show ?thesis using less [of t] 4 by (simp add: bytes3_join)
  qed (simp_all only: quanta_one quanta_two, simp)
qed

lemma digit4_set: "v < 16777216 \<Longrightarrow> set (digit4 al v) \<subseteq> set al"
  using digits_lt [of v] len by (auto simp: digit4_def)

lemma encode_clean: "set (EncodeToString al s) \<subseteq> insert pad_char (set al)"
proof (induction "length s" arbitrary: s rule: less_induct)
  case less
  consider "s = []" | x where "s = [x]" | x y where "s = [x, y]" | x y z t where "s = x # y # z # t"
    by (metis list.exhaust)
  then show ?case
  proof cases
    case (2 x)
    then show ?thesis using digit4_set [of "nbyte x * 65536"] join_lt [of x "CHR 0x00" "CHR 0x00"]
      by (auto dest: in_set_takeD)
  next
    case (3 x y)
    then show ?thesis using digit4_set [of "nbyte x * 65536 + nbyte y * 256"] join_lt [of x y "CHR 0x00"]
      by (auto dest: in_set_takeD)
  next
    case (4 x y z t)
    then show ?thesis using digit4_set [OF join_lt [of x y z]] less [of t] by auto
  qed simp
qed

lemma decode_encode: "DecodeString al (EncodeToString al s) = Some s"
proof -
  have pad: "pad_char \<noteq> CHR 0x0A" "pad_char \<noteq> CHR 0x0D" by (simp_all add: pad_char_def)
  have "\<forall>c \<in> set (EncodeToString al s). c \<noteq> CHR 0x0A \<and> c \<noteq> CHR 0x0D"
  proof
    fix c assume "c \<in> set (EncodeToString al s)"
    then have "c = pad_char \<or> c \<in> set al" using encode_clean [of s] by blast
    then show "c \<noteq> CHR 0x0A \<and> c \<noteq> CHR 0x0D" using pad clean [of c] by (elim disjE) simp_all
  qed
  then show ?thesis unfolding DecodeString_def by (subst filter_True) (simp_all only: quanta_encode)
qed

lemma encode_inject: "EncodeToString al s = EncodeToString al t \<longleftrightarrow> s = t"
  using quanta_encode by (metis option.inject)

end

lemma alphabet_table:
  assumes "length al = 64" and "list_all (\<lambda>d. b64_value al (al ! d) = Some d) [0..<64]"
    and "list_all (\<lambda>c. c \<noteq> pad_char \<and> c \<noteq> CHR 0x0A \<and> c \<noteq> CHR 0x0D) al"
  shows "base64_alphabet al"
  using assms by unfold_locales (auto simp: list_all_iff)

interpretation std64: base64_alphabet StdEncoding
  by (rule alphabet_table; code_simp)

interpretation url64: base64_alphabet URLEncoding
  by (rule alphabet_table; code_simp)

end
