(* ===== verification/Crypto.thy ===== *)
theory Crypto
  imports Base64
begin

text \<open>
  Packages \<^verbatim>\<open>crypto\<close> (\<^verbatim>\<open>src/crypto/\<close>) and \<^verbatim>\<open>encryption\<close> (\<^verbatim>\<open>src/encryption/encryption.go\<close>): AES-256-GCM
  envelopes, the session key with its self test, tokens of encrypted settings and
  the display form of secrets.

  AES-GCM itself is a parameter: sealing and opening as functions of key, nonce,
  text and associated data. What the code relies on is \<open>aead_laws\<close>, for keys of 32 and
  nonces of 12 bytes: opening reverses sealing, sealing adds a tag of 16 bytes, and
  opening accepts only what sealing produces for the text it returns; the scheme is
  deterministic, so all three are exact. Random bytes are a parameter too, an error
  or the bytes.
\<close>

record aead =
  ae_seal :: "string \<Rightarrow> string \<Rightarrow> string \<Rightarrow> string \<Rightarrow> string"
  ae_open :: "string \<Rightarrow> string \<Rightarrow> string \<Rightarrow> string \<Rightarrow> string option"

definition aead_laws :: "aead \<Rightarrow> bool" where
  "aead_laws A \<longleftrightarrow>
     (\<forall>k n p a. length k = 32 \<longrightarrow> length n = 12 \<longrightarrow>
        ae_open A k n (ae_seal A k n p a) a = Some p \<and>
        length (ae_seal A k n p a) = length p + 16 \<and>
        (\<forall>c. ae_open A k n c a = Some p \<longrightarrow> c = ae_seal A k n p a))"

section \<open>Envelopes\<close>

definition kek_error :: "string \<Rightarrow> string" where
  "kek_error kek = ''kek must be 32 bytes, got '' @ Itoa (int (length kek))"

definition crypto_Wrap :: "aead \<Rightarrow> string + string \<Rightarrow> string \<Rightarrow> string \<Rightarrow> string \<Rightarrow> string + string" where
  "crypto_Wrap A rnd kek plaintext aad =
     (if length kek \<noteq> 32 then Inl (kek_error kek)
      else (case rnd of
              Inl err \<Rightarrow> Inl err
            | Inr nonce \<Rightarrow> Inr (nonce @ ae_seal A kek nonce plaintext aad)))"

definition auth_failed :: string where
  "auth_failed = ''cipher: message authentication failed''"

definition crypto_Unwrap :: "aead \<Rightarrow> string \<Rightarrow> string \<Rightarrow> string \<Rightarrow> string + string" where
  "crypto_Unwrap A kek blob aad =
     (if length kek \<noteq> 32 then Inl (kek_error kek)
      else if length blob < 12 then Inl ''blob too short''
      else (case ae_open A kek (take 12 blob) (drop 12 blob) aad of
              None \<Rightarrow> Inl auth_failed
            | Some p \<Rightarrow> Inr p))"

definition AADMeta :: string where "AADMeta = ''omur-col-meta-v1''"
definition AADMetrics :: string where "AADMetrics = ''omur-col-metrics-v1''"
definition AADContent :: string where "AADContent = ''omur-col-content-v1''"
definition AADEmbeddingsChunks :: string where "AADEmbeddingsChunks = ''omur-col-embeddings-v1''"

section \<open>The session key\<close>

type_synonym KUser = string

definition KUserSize :: nat where "KUserSize = 32"
definition selfTestPayload :: string where "selfTestPayload = ''OMUR-SELFTEST-V1''"
definition selfTestAAD :: string where "selfTestAAD = ''omur-selftest''"

definition NewKUser :: "string + string \<Rightarrow> string + KUser" where
  "NewKUser rnd = (case rnd of Inl err \<Rightarrow> Inl (''kuser rand: '' @ err) | Inr k \<Rightarrow> Inr k)"

text \<open>The loop of \<^verbatim>\<open>Zero\<close> over the indices of the array.\<close>

fun zero_from :: "nat \<Rightarrow> KUser \<Rightarrow> KUser" where
  "zero_from 0 k = k"
| "zero_from (Suc n) k = zero_from n (k[n := CHR 0x00])"

definition KUser_Zero :: "KUser \<Rightarrow> KUser" where
  "KUser_Zero k = zero_from (length k) k"

definition NewSelfTest :: "aead \<Rightarrow> string + string \<Rightarrow> KUser \<Rightarrow> string + string \<times> string" where
  "NewSelfTest A rnd k =
     (case rnd of
        Inl err \<Rightarrow> Inl err
      | Inr nonce \<Rightarrow> Inr (nonce, ae_seal A k nonce selfTestPayload selfTestAAD))"

text \<open>Opening panics when the nonce does not have the size of the scheme.\<close>

datatype selftest_result = SelfTestOk | SelfTestError string | SelfTestPanic

definition VerifySelfTest :: "aead \<Rightarrow> KUser \<Rightarrow> string \<Rightarrow> string \<Rightarrow> selftest_result" where
  "VerifySelfTest A k nonce ct =
     (if length nonce \<noteq> 12 then SelfTestPanic
      else (case ae_open A k nonce ct selfTestAAD of
              None \<Rightarrow> SelfTestError (''selftest open: '' @ auth_failed)
            | Some pt \<Rightarrow>
                if pt \<noteq> selfTestPayload then SelfTestError ''selftest payload mismatch'' else SelfTestOk))"

section \<open>Tokens\<close>

datatype enc_error = ErrInvalidToken | ErrInvalidKey | EncError string

definition KeySize :: nat where "KeySize = 32"
definition versionPrefix :: string where "versionPrefix = ''v1''"
definition enc_aad :: string where "enc_aad = ''omkit.encryption.v1''"

definition GenerateKey :: "string + string \<Rightarrow> string + string" where
  "GenerateKey rnd = (case rnd of Inl err \<Rightarrow> Inl err | Inr key \<Rightarrow> Inr (EncodeToString URLEncoding key))"

definition decodeKey :: "string \<Rightarrow> enc_error + string" where
  "decodeKey key =
     (case DecodeString URLEncoding key of
        None \<Rightarrow> Inl ErrInvalidKey
      | Some k \<Rightarrow> if length k \<noteq> KeySize then Inl ErrInvalidKey else Inr k)"

definition Encrypt :: "aead \<Rightarrow> string + string \<Rightarrow> string \<Rightarrow> string \<Rightarrow> enc_error + string" where
  "Encrypt A rnd plaintext key =
     (case decodeKey key of
        Inl err \<Rightarrow> Inl err
      | Inr kek \<Rightarrow>
          (case crypto_Wrap A rnd kek plaintext enc_aad of
             Inl err \<Rightarrow> Inl (EncError err)
           | Inr blob \<Rightarrow> Inr (EncodeToString URLEncoding (versionPrefix @ blob))))"

definition Decrypt :: "aead \<Rightarrow> string \<Rightarrow> string \<Rightarrow> enc_error + string" where
  "Decrypt A token key =
     (case decodeKey key of
        Inl err \<Rightarrow> Inl err
      | Inr kek \<Rightarrow>
          (case DecodeString URLEncoding token of
             None \<Rightarrow> Inl ErrInvalidToken
           | Some raw \<Rightarrow>
               if length raw < length versionPrefix + 12 + 16 then Inl ErrInvalidToken
               else if take (length versionPrefix) raw \<noteq> versionPrefix then Inl ErrInvalidToken
               else (case crypto_Unwrap A kek (drop (length versionPrefix) raw) enc_aad of
                       Inl err \<Rightarrow> Inl ErrInvalidToken
                     | Inr plain \<Rightarrow> Inr plain)))"

definition MaskSecret :: "string \<Rightarrow> string" where
  "MaskSecret value =
     (let n = length value in
      if n = 0 then []
      else if n \<ge> 10 then take 4 value @ ''****'' @ drop (n - 4) value
      else if n \<ge> 4 then take 2 value @ ''****'' @ drop (n - 2) value
      else ''****'')"

section \<open>Lemmas\<close>

lemma aead_lawsD:
  assumes "aead_laws A" and "length k = 32" and "length n = 12"
  shows "ae_open A k n (ae_seal A k n p a) a = Some p"
    and "length (ae_seal A k n p a) = length p + 16"
    and "ae_open A k n c a = Some p \<Longrightarrow> c = ae_seal A k n p a"
  using assms by (auto simp: aead_laws_def)

lemma crypto_roundtrip:
  assumes "aead_laws A" and "crypto_Wrap A (Inr nonce) kek p a = Inr blob" and "length nonce = 12"
  shows "crypto_Unwrap A kek blob a = Inr p"
  using assms aead_lawsD(1) [OF assms(1) _ assms(3)]
  by (auto simp: crypto_Wrap_def crypto_Unwrap_def split: if_splits)

lemma crypto_Unwrap_sealed:
  assumes "aead_laws A" and "crypto_Unwrap A kek blob a = Inr p"
  shows "\<exists>nonce. length kek = 32 \<and> length nonce = 12 \<and> blob = nonce @ ae_seal A kek nonce p a"
proof -
  have len: "length kek = 32" "12 \<le> length blob"
    and op: "ae_open A kek (take 12 blob) (drop 12 blob) a = Some p"
    using assms(2) by (auto simp: crypto_Unwrap_def split: if_splits option.splits)
  have n: "length (take 12 blob) = 12" using len(2) by simp
  have "blob = take 12 blob @ ae_seal A kek (take 12 blob) p a"
    using aead_lawsD(3) [OF assms(1) len(1) n op] append_take_drop_id [of 12 blob] by simp
  with len n show ?thesis by blast
qed

lemma decodeKey_encode: "length k = 32 \<Longrightarrow> decodeKey (EncodeToString URLEncoding k) = Inr k"
  by (simp add: decodeKey_def url64.decode_encode KeySize_def)

lemma Encrypt_ok:
  assumes "decodeKey key = Inr kek"
  shows "Encrypt A (Inr n) p key = Inr (EncodeToString URLEncoding (versionPrefix @ n @ ae_seal A kek n p enc_aad))"
proof -
  have "length kek = 32" using assms by (auto simp: decodeKey_def KeySize_def split: option.splits if_splits)
  then show ?thesis by (simp add: Encrypt_def assms crypto_Wrap_def)
qed

lemma Decrypt_Encrypt:
  assumes "aead_laws A" and "length nonce = 12" and "Encrypt A (Inr nonce) p key = Inr token"
  shows "Decrypt A token key = Inr p"
proof -
  obtain kek blob where k: "decodeKey key = Inr kek" "crypto_Wrap A (Inr nonce) kek p enc_aad = Inr blob"
      "token = EncodeToString URLEncoding (versionPrefix @ blob)"
    using assms(3) by (auto simp: Encrypt_def split: sum.splits)
  have "length kek = 32" using k(1) by (auto simp: decodeKey_def KeySize_def split: option.splits if_splits)
  then have len: "length blob = 12 + (length p + 16)"
    using k(2) assms(2) aead_lawsD(2) [OF assms(1)] by (auto simp: crypto_Wrap_def)
  show ?thesis
    using crypto_roundtrip [OF assms(1) k(2) assms(2)] len k(1,3) url64.decode_encode
    by (simp add: Decrypt_def versionPrefix_def)
qed

text \<open>A concrete scheme with the laws: the tag is the start of the key. It shows that they can hold.\<close>

definition toy_aead :: aead where
  "toy_aead = \<lparr>ae_seal = (\<lambda>k n p a. p @ take 16 k),
     ae_open = (\<lambda>k n c a. if length c \<ge> 16 \<and> drop (length c - 16) c = take 16 k
                           then Some (take (length c - 16) c) else None)\<rparr>"

lemma toy_aead_laws: "aead_laws toy_aead"
proof -
  have parts: "c = take n c @ t" if "drop n c = t" for c t :: string and n
    using append_take_drop_id [of n c] that by simp
  show ?thesis unfolding aead_laws_def toy_aead_def by (auto intro!: parts split: if_splits)
qed

section \<open>Properties\<close>

text \<open>
  An envelope opens with the key and associated data it was made with, and gives
  the plaintext; an envelope that opens at all is the sealing of the text it gives
  under exactly the key and associated data presented, so accepting one made for
  another key or purpose takes a collision of the cipher.
\<close>

lemma wrap_unwrap_roundtrip:
  assumes "aead_laws A" and "length nonce = 12" and "crypto_Wrap A (Inr nonce) kek p a = Inr blob"
  shows "crypto_Unwrap A kek blob a = Inr p \<and>
         (\<forall>kek' a' p'. crypto_Unwrap A kek' blob a' = Inr p' \<longrightarrow>
            ae_seal A kek nonce p a = ae_seal A kek' nonce p' a')"
proof (intro conjI allI impI)
  show "crypto_Unwrap A kek blob a = Inr p" by (rule crypto_roundtrip [OF assms(1,3,2)])
next
  fix kek' a' p' assume "crypto_Unwrap A kek' blob a' = Inr p'"
  then obtain n' where "length n' = 12" "blob = n' @ ae_seal A kek' n' p' a'"
    using crypto_Unwrap_sealed [OF assms(1)] by blast
  moreover have "blob = nonce @ ae_seal A kek nonce p a"
    using assms(3) by (auto simp: crypto_Wrap_def split: if_splits)
  ultimately show "ae_seal A kek nonce p a = ae_seal A kek' nonce p' a'"
    using assms(2) by auto
qed

lemma wrap_unwrap_roundtrip_witness:
  "aead_laws toy_aead \<and>
   (\<exists>blob. crypto_Wrap toy_aead (Inr (replicate 12 CHR ''n'')) (replicate 32 CHR ''k'') ''secret'' AADMeta = Inr blob \<and>
      crypto_Unwrap toy_aead (replicate 32 CHR ''k'') blob AADMeta = Inr ''secret'')"
proof -
  have w: "crypto_Wrap toy_aead (Inr (replicate 12 CHR ''n'')) (replicate 32 CHR ''k'') ''secret'' AADMeta
      = Inr (replicate 12 CHR ''n'' @ ae_seal toy_aead (replicate 32 CHR ''k'') (replicate 12 CHR ''n'') ''secret'' AADMeta)"
    by (simp add: crypto_Wrap_def)
  have "length (replicate 12 CHR ''n'') = 12" by simp
  from wrap_unwrap_roundtrip [OF toy_aead_laws this w] w toy_aead_laws show ?thesis by blast
qed

text \<open>
  C11. Decrypting what was encrypted under the same key gives the plaintext, the empty
  one included; and a token that decrypts at all is the base64 form of the version
  prefix, a nonce and the sealing of the result under the key, so a changed version,
  a shortened token or a foreign ciphertext is refused.
\<close>

theorem encrypt_decrypt_roundtrip:
  assumes "aead_laws A"
  shows "(length nonce = 12 \<and> Encrypt A (Inr nonce) p key = Inr token \<longrightarrow> Decrypt A token key = Inr p) \<and>
         (Decrypt A token key = Inr p \<longrightarrow>
            (\<exists>kek n. decodeKey key = Inr kek \<and> length n = 12 \<and>
               DecodeString URLEncoding token = Some (''v1'' @ n @ ae_seal A kek n p enc_aad)))"
proof (intro conjI impI)
  assume "length nonce = 12 \<and> Encrypt A (Inr nonce) p key = Inr token"
  then show "Decrypt A token key = Inr p" using Decrypt_Encrypt [OF assms] by blast
next
  assume "Decrypt A token key = Inr p"
  then obtain kek raw where d: "decodeKey key = Inr kek" "DecodeString URLEncoding token = Some raw"
      "take 2 raw = ''v1''" "crypto_Unwrap A kek (drop 2 raw) enc_aad = Inr p"
    by (auto simp: Decrypt_def versionPrefix_def numeral_2_eq_2 split: sum.splits option.splits if_splits)
  from crypto_Unwrap_sealed [OF assms d(4)] obtain n where n: "length n = 12" "drop 2 raw = n @ ae_seal A kek n p enc_aad"
    by blast
  have "raw = ''v1'' @ drop 2 raw" using append_take_drop_id [of 2 raw] d(3) by simp
  with n d(1,2) show "\<exists>kek n. decodeKey key = Inr kek \<and> length n = 12 \<and>
      DecodeString URLEncoding token = Some (''v1'' @ n @ ae_seal A kek n p enc_aad)" by auto
qed

theorem encrypt_decrypt_roundtrip_witness:
  "\<exists>token. Encrypt toy_aead (Inr (replicate 12 CHR ''n'')) ''pw'' (EncodeToString URLEncoding (replicate 32 CHR ''k'')) = Inr token \<and>
     Decrypt toy_aead token (EncodeToString URLEncoding (replicate 32 CHR ''k'')) = Inr ''pw''"
proof -
  let ?key = "EncodeToString URLEncoding (replicate 32 CHR ''k'')"
  have k: "decodeKey ?key = Inr (replicate 32 CHR ''k'')" by (rule decodeKey_encode) (rule length_replicate)
  note enc = Encrypt_ok [OF k, of toy_aead "replicate 12 CHR ''n''" "''pw''"]
  note dec = conjunct1 [OF encrypt_decrypt_roundtrip [OF toy_aead_laws], rule_format, OF conjI, OF length_replicate enc]
  show ?thesis by (rule exI, rule conjI, rule enc, rule dec)
qed

text \<open>
  A self test verifies with the key that made it, and verifying succeeds only for
  the sealing of the fixed payload under the key; a stored nonce of another length
  makes the verification panic instead of returning an error.
\<close>

lemma self_test_verifies:
  assumes "aead_laws A" and "length k = 32"
  shows "(VerifySelfTest A k nonce ct = SelfTestOk \<longleftrightarrow>
            length nonce = 12 \<and> ct = ae_seal A k nonce selfTestPayload selfTestAAD) \<and>
         (VerifySelfTest A k nonce ct = SelfTestPanic \<longleftrightarrow> length nonce \<noteq> 12) \<and>
         (NewSelfTest A (Inr n) k = Inr (n', c') \<and> length n = 12 \<longrightarrow> VerifySelfTest A k n' c' = SelfTestOk)"
proof -
  have ok: "VerifySelfTest A k m c = SelfTestOk \<longleftrightarrow>
      length m = 12 \<and> c = ae_seal A k m selfTestPayload selfTestAAD" for m c
  proof (cases "length m = 12")
    case True
    note laws = aead_lawsD [OF assms True]
    have "ae_open A k m c selfTestAAD = Some selfTestPayload \<longleftrightarrow> c = ae_seal A k m selfTestPayload selfTestAAD"
      using laws(1) laws(3) by blast
    then show ?thesis using True by (auto simp: VerifySelfTest_def split: option.splits)
  qed (simp add: VerifySelfTest_def)
  have panic: "VerifySelfTest A k nonce ct = SelfTestPanic \<longleftrightarrow> length nonce \<noteq> 12"
    by (auto simp: VerifySelfTest_def split: option.splits)
  have "VerifySelfTest A k n' c' = SelfTestOk" if "NewSelfTest A (Inr n) k = Inr (n', c') \<and> length n = 12"
    using that ok [of n' c'] by (auto simp: NewSelfTest_def)
  then show ?thesis using ok panic by blast
qed

lemma self_test_verifies_witness:
  "VerifySelfTest toy_aead (replicate 32 CHR ''k'') (replicate 12 CHR ''n'')
     (ae_seal toy_aead (replicate 32 CHR ''k'') (replicate 12 CHR ''n'') selfTestPayload selfTestAAD) = SelfTestOk"
  using self_test_verifies [OF toy_aead_laws, of "replicate 32 CHR ''k''"] by simp

text \<open>
  The display form of a secret of ten or more bytes shows its first and last four
  bytes and says nothing about the rest, not even its length; of five to nine bytes
  it shows four. A secret of exactly four bytes is shown in full around the stars.
\<close>

lemma mask_secret_reveals:
  "(length a = 4 \<and> length b = 4 \<and> 2 \<le> length m \<and> 2 \<le> length m' \<longrightarrow>
      MaskSecret (a @ m @ b) = MaskSecret (a @ m' @ b)) \<and>
   (length s = 4 \<longrightarrow> take 2 (MaskSecret s) @ drop 6 (MaskSecret s) = s) \<and>
   length (MaskSecret s) \<le> 12"
proof (intro conjI impI)
  assume l: "length a = 4 \<and> length b = 4 \<and> 2 \<le> length m \<and> 2 \<le> length m'"
  have "MaskSecret (a @ x @ b) = a @ ''****'' @ b" if "2 \<le> length x" for x
    using l that by (simp add: MaskSecret_def Let_def)
  then show "MaskSecret (a @ m @ b) = MaskSecret (a @ m' @ b)" using l by simp
next
  assume "length s = 4"
  then show "take 2 (MaskSecret s) @ drop 6 (MaskSecret s) = s"
    by (simp add: MaskSecret_def)
next
  show "length (MaskSecret s) \<le> 12" by (simp add: MaskSecret_def Let_def)
qed

lemma mask_secret_reveals_witness:
  "MaskSecret (''sk-a'' @ ''12'' @ ''wxyz'') = MaskSecret (''sk-a'' @ ''345678'' @ ''wxyz'')"
  using mask_secret_reveals [of "''sk-a''" "''wxyz''" "''12''" "''345678''"] by simp

lemma zero_from_clears:
  "n \<le> length k \<Longrightarrow> zero_from n k = replicate n CHR 0x00 @ drop n k"
proof (induction n arbitrary: k)
  case (Suc n)
  then have "zero_from (Suc n) k = replicate n CHR 0x00 @ drop n (k[n := CHR 0x00])" by simp
  also have "drop n (k[n := CHR 0x00]) = CHR 0x00 # drop (Suc n) k"
    using Suc.prems by (simp add: Cons_nth_drop_Suc [symmetric] drop_update_cancel)
  finally show ?case by (simp add: replicate_append_same)
qed simp

lemma KUser_Zero_clears: "KUser_Zero k = replicate (length k) CHR 0x00"
  by (simp add: KUser_Zero_def zero_from_clears)

end
