(* ===== verification/Kms.thy ===== *)
theory Kms
  imports Crypto Json
begin

text \<open>
  Package \<^verbatim>\<open>kms\<close> (\<^verbatim>\<open>src/kms/\<close>): the in-process adapter for development and the adapter for the
  OpenBao Transit engine with its cached login token.

  HMAC-SHA256 is a parameter, a function of key and message. The HTTP client is one
  too: \<open>bt_call n\<close> answers the n-th call of a run with an error or a status and body,
  \<open>bt_now n\<close> is the clock after n calls. The requests sent are recorded in the state.
\<close>

section \<open>The development adapter\<close>

type_synonym hmac = "string \<Rightarrow> string \<Rightarrow> string"

record LocalDevKMS =
  ld_master :: string

definition NewLocalDevKMS :: "string \<Rightarrow> LocalDevKMS" where
  "NewLocalDevKMS master =
     \<lparr>ld_master = take 32 master @ replicate (32 - length master) CHR 0x00\<rparr>"

definition ld_key :: "hmac \<Rightarrow> LocalDevKMS \<Rightarrow> string \<Rightarrow> string" where
  "ld_key mac l keyID = mac (ld_master l) (''omur-kms-derive-v1:'' @ keyID)"

definition ld_userKey :: "hmac \<Rightarrow> LocalDevKMS \<Rightarrow> string \<Rightarrow> string \<Rightarrow> string" where
  "ld_userKey mac l userID purpose = mac (ld_master l) (''user-'' @ userID @ ''-'' @ purpose)"

definition bindAAD :: "string \<Rightarrow> string \<Rightarrow> string \<Rightarrow> string" where
  "bindAAD purpose userID aad = purpose @ ''|'' @ userID @ ''|'' @ aad"

definition ld_Wrap ::
  "aead \<Rightarrow> hmac \<Rightarrow> string + string \<Rightarrow> LocalDevKMS \<Rightarrow> string \<Rightarrow> string \<Rightarrow> string \<Rightarrow> string + string" where
  "ld_Wrap A mac rnd l keyID plaintext aad = crypto_Wrap A rnd (ld_key mac l keyID) plaintext aad"

definition ld_Unwrap ::
  "aead \<Rightarrow> hmac \<Rightarrow> LocalDevKMS \<Rightarrow> string \<Rightarrow> string \<Rightarrow> string \<Rightarrow> string + string" where
  "ld_Unwrap A mac l keyID blob aad = crypto_Unwrap A (ld_key mac l keyID) blob aad"

definition ld_CurrentVersion :: "string \<Rightarrow> string + string" where
  "ld_CurrentVersion keyID = Inr ''v1''"

definition ld_WrapDEK ::
  "aead \<Rightarrow> hmac \<Rightarrow> string + string \<Rightarrow> LocalDevKMS \<Rightarrow> string \<Rightarrow> string \<Rightarrow> string \<Rightarrow> string
     \<Rightarrow> string + string \<times> string" where
  "ld_WrapDEK A mac rnd l userID purpose plainDEK aad =
     (case crypto_Wrap A rnd (ld_userKey mac l userID purpose) plainDEK (bindAAD purpose userID aad) of
        Inl err \<Rightarrow> Inl err
      | Inr wrapped \<Rightarrow> Inr (wrapped, ''localdev-v1''))"

definition ld_UnwrapDEK ::
  "aead \<Rightarrow> hmac \<Rightarrow> LocalDevKMS \<Rightarrow> string \<Rightarrow> string \<Rightarrow> string \<Rightarrow> string \<Rightarrow> string + string" where
  "ld_UnwrapDEK A mac l userID purpose wrapped aad =
     crypto_Unwrap A (ld_userKey mac l userID purpose) wrapped (bindAAD purpose userID aad)"

definition ld_DeleteUserKeys :: "string \<Rightarrow> go_error" where
  "ld_DeleteUserKeys userID = None"

section \<open>The OpenBao adapter: login and calls\<close>

datatype kms_error = ErrKMSUnavailable int string | ErrKMSAuth int string | KMSOther string

record bao_request =
  br_method :: string
  br_path :: string
  br_token :: string
  br_body :: string

record bao_transport =
  bt_call :: "nat \<Rightarrow> bao_request \<Rightarrow> string + int \<times> string"
  bt_now :: "nat \<Rightarrow> time"

record OpenBaoKMS =
  ob_addr :: string
  ob_roleID :: string
  ob_secretID :: string
  ob_keyName :: string
  ob_token :: string
  ob_tokenExpiry :: time
  ob_calls :: "bao_request list"

definition NewOpenBaoKMS :: "(string \<Rightarrow> string) \<Rightarrow> string + OpenBaoKMS" where
  "NewOpenBaoKMS env =
     (if env ''OMUR_KMS_OPENBAO_ADDR'' = [] then Inl ''openbao kms: OMUR_KMS_OPENBAO_ADDR must be set''
      else if env ''OMUR_KMS_OPENBAO_ROLE_ID'' = [] then Inl ''openbao kms: OMUR_KMS_OPENBAO_ROLE_ID must be set''
      else if env ''OMUR_KMS_OPENBAO_SECRET_ID'' = [] then Inl ''openbao kms: OMUR_KMS_OPENBAO_SECRET_ID must be set''
      else Inr \<lparr>ob_addr = env ''OMUR_KMS_OPENBAO_ADDR'', ob_roleID = env ''OMUR_KMS_OPENBAO_ROLE_ID'',
                ob_secretID = env ''OMUR_KMS_OPENBAO_SECRET_ID'',
                ob_keyName = (if env ''OMUR_KMS_OPENBAO_KEY_NAME'' = [] then ''omur-user-content''
                              else env ''OMUR_KMS_OPENBAO_KEY_NAME''),
                ob_token = [], ob_tokenExpiry = 0, ob_calls = []\<rparr>)"

definition kms_truncate :: "string \<Rightarrow> nat \<Rightarrow> string" where
  "kms_truncate b n = (if length b \<le> n then b else take n b)"

definition doRaw ::
  "bao_transport \<Rightarrow> string \<Rightarrow> string \<Rightarrow> string \<Rightarrow> string \<Rightarrow> OpenBaoKMS \<Rightarrow> (kms_error + string) \<times> OpenBaoKMS" where
  "doRaw tr meth path token body ob =
     (let req = \<lparr>br_method = meth, br_path = path, br_token = token, br_body = body\<rparr>;
          ans = bt_call tr (length (ob_calls ob)) req;
          ob = ob\<lparr>ob_calls := ob_calls ob @ [req]\<rparr>
      in case ans of
           Inl err \<Rightarrow> (Inl (ErrKMSUnavailable 0 err), ob)
         | Inr (status, resp) \<Rightarrow>
             (let respBody = take (64 * 1024) resp in
              if status \<ge> 500 then (Inl (ErrKMSUnavailable status (kms_truncate respBody 200)), ob)
              else if status \<ge> 400 then (Inl (ErrKMSAuth status (kms_truncate respBody 200)), ob)
              else (Inr respBody, ob)))"

text \<open>
  Decoding an object inside an object: the members of every value given for the field;
  null sets nothing and any other value is an error.
\<close>

fun sub_members :: "json list \<Rightarrow> (string \<times> json) list option" where
  "sub_members [] = Some []"
| "sub_members (JNull # vs) = sub_members vs"
| "sub_members (JObj ms # vs) = map_option (\<lambda>r. ms @ r) (sub_members vs)"
| "sub_members (v # vs) = None"

text \<open>The members of the field \<open>f\<close> of a top-level object that has this one field.\<close>

definition reply_members :: "string \<Rightarrow> string \<Rightarrow> (string \<times> json) list option" where
  "reply_members f resp =
     (case parse_object resp of
        None \<Rightarrow> None
      | Some ms \<Rightarrow> sub_members (field_values [f] f (map (\<lambda>(k, raw, v). (k, v)) ms)))"

definition login_fields :: "string list" where
  "login_fields = [''client_token'', ''lease_duration'']"

definition login_reply :: "string \<Rightarrow> (string \<times> int) option" where
  "login_reply resp =
     (case reply_members ''auth'' resp of
        None \<Rightarrow> None
      | Some ms \<Rightarrow>
          (case (set_string [] (field_values login_fields ''client_token'' ms),
                 set_int 0 (field_values login_fields ''lease_duration'' ms)) of
             (Some token, Some lease) \<Rightarrow> Some (token, lease)
           | _ \<Rightarrow> None))"

text \<open>\<^verbatim>\<open>time.Duration(n) * time.Second\<close> is a 64-bit product.\<close>

definition lease_duration :: "int \<Rightarrow> duration" where
  "lease_duration n = sint (word_of_int n * 1000000000 :: int64)"

definition login_body :: "OpenBaoKMS \<Rightarrow> string" where
  "login_body ob = json_print (JObj [(''role_id'', JStr (ob_roleID ob)), (''secret_id'', JStr (ob_secretID ob))])"

definition bao_login :: "bao_transport \<Rightarrow> OpenBaoKMS \<Rightarrow> (kms_error + string) \<times> OpenBaoKMS" where
  "bao_login tr ob =
     (case doRaw tr ''POST'' ''/v1/auth/approle/login'' [] (login_body ob) ob of
        (Inl err, ob) \<Rightarrow> (Inl err, ob)
      | (Inr resp, ob) \<Rightarrow>
          (let bad = (Inl (KMSOther (''openbao kms: unexpected login response: '' @ kms_truncate resp 200)), ob) in
           case login_reply resp of
             None \<Rightarrow> bad
           | Some (token, n) \<Rightarrow>
               if token = [] then bad
               else
                 (let lease = lease_duration n; lease = (if lease \<le> 0 then 60 * minute else lease)
                  in (Inr token, ob\<lparr>ob_token := token,
                        ob_tokenExpiry := bt_now tr (length (ob_calls ob)) + lease\<rparr>))))"

definition getToken :: "bao_transport \<Rightarrow> OpenBaoKMS \<Rightarrow> (kms_error + string) \<times> OpenBaoKMS" where
  "getToken tr ob =
     (if ob_token ob \<noteq> [] \<and> ob_tokenExpiry ob - bt_now tr (length (ob_calls ob)) > 30 * second
      then (Inr (ob_token ob), ob)
      else bao_login tr ob)"

definition bao_do ::
  "bao_transport \<Rightarrow> string \<Rightarrow> string \<Rightarrow> string \<Rightarrow> OpenBaoKMS \<Rightarrow> (kms_error + string) \<times> OpenBaoKMS" where
  "bao_do tr meth path body ob =
     (case getToken tr ob of
        (Inl err, ob) \<Rightarrow> (Inl err, ob)
      | (Inr tok, ob) \<Rightarrow>
          (case doRaw tr meth path tok body ob of
             (Inr resp, ob) \<Rightarrow> (Inr resp, ob)
           | (Inl (ErrKMSAuth status msg), ob) \<Rightarrow>
               if status = 403 then
                 (case getToken tr (ob\<lparr>ob_token := []\<rparr>) of
                    (Inl err, ob) \<Rightarrow> (Inl err, ob)
                  | (Inr tok2, ob) \<Rightarrow> doRaw tr meth path tok2 body ob)
               else (Inl (ErrKMSAuth status msg), ob)
           | (Inl err, ob) \<Rightarrow> (Inl err, ob)))"

section \<open>The OpenBao adapter: operations\<close>

abbreviation std64 :: "string \<Rightarrow> string" where
  "std64 \<equiv> EncodeToString StdEncoding"

definition derivedContext :: "string \<Rightarrow> string \<Rightarrow> string \<Rightarrow> string" where
  "derivedContext userID purpose aad = std64 (userID @ '':'' @ purpose @ '':'' @ std64 aad)"

text \<open>A string field and a number field of the object \<^verbatim>\<open>data\<close> of a reply.\<close>

definition data_string :: "string list \<Rightarrow> string \<Rightarrow> string \<Rightarrow> string option" where
  "data_string fs f resp =
     (case reply_members ''data'' resp of
        None \<Rightarrow> None
      | Some ms \<Rightarrow> set_string [] (field_values fs f ms))"

definition data_int :: "string list \<Rightarrow> string \<Rightarrow> string \<Rightarrow> int option" where
  "data_int fs f resp =
     (case reply_members ''data'' resp of
        None \<Rightarrow> None
      | Some ms \<Rightarrow> set_int 0 (field_values fs f ms))"

text \<open>\<^verbatim>\<open>json.Marshal\<close> of a map writes the keys in ascending order.\<close>

definition encrypt_body :: "string \<Rightarrow> string \<Rightarrow> string" where
  "encrypt_body plaintext context =
     json_print (JObj [(''context'', JStr context), (''plaintext'', JStr (std64 plaintext))])"

definition decrypt_body :: "string \<Rightarrow> string \<Rightarrow> string" where
  "decrypt_body blob context =
     json_print (JObj [(''ciphertext'', JStr blob), (''context'', JStr context)])"

definition ob_Wrap ::
  "bao_transport \<Rightarrow> string \<Rightarrow> string \<Rightarrow> string \<Rightarrow> OpenBaoKMS \<Rightarrow> (kms_error + string) \<times> OpenBaoKMS" where
  "ob_Wrap tr keyID plaintext aad ob =
     (case bao_do tr ''POST'' (''/v1/transit/encrypt/'' @ keyID) (encrypt_body plaintext (std64 aad)) ob of
        (Inl err, ob) \<Rightarrow> (Inl err, ob)
      | (Inr resp, ob) \<Rightarrow>
          (case data_string [''ciphertext''] ''ciphertext'' resp of
             None \<Rightarrow> (Inl (ErrKMSUnavailable 0 ''unexpected encrypt response''), ob)
           | Some ct \<Rightarrow>
               if ct = [] then (Inl (ErrKMSUnavailable 0 ''unexpected encrypt response''), ob) else (Inr ct, ob)))"

text \<open>The end of \<^verbatim>\<open>Unwrap\<close> and \<^verbatim>\<open>UnwrapDEK\<close>, with the two messages in which they differ.\<close>

definition plaintext_reply :: "string \<Rightarrow> string \<Rightarrow> string \<Rightarrow> kms_error + string" where
  "plaintext_reply bad what resp =
     (case data_string [''plaintext''] ''plaintext'' resp of
        None \<Rightarrow> Inl (ErrKMSUnavailable 0 bad)
      | Some pt \<Rightarrow>
          if pt = [] then Inl (ErrKMSUnavailable 0 bad)
          else (case DecodeString StdEncoding pt of
                  None \<Rightarrow> Inl (KMSOther (''openbao kms: base64 decode '' @ what))
                | Some p \<Rightarrow> Inr p))"

definition ob_Unwrap ::
  "bao_transport \<Rightarrow> string \<Rightarrow> string \<Rightarrow> string \<Rightarrow> OpenBaoKMS \<Rightarrow> (kms_error + string) \<times> OpenBaoKMS" where
  "ob_Unwrap tr keyID blob aad ob =
     (case bao_do tr ''POST'' (''/v1/transit/decrypt/'' @ keyID) (decrypt_body blob (std64 aad)) ob of
        (Inl err, ob) \<Rightarrow> (Inl err, ob)
      | (Inr resp, ob) \<Rightarrow> (plaintext_reply ''unexpected decrypt response'' ''plaintext'' resp, ob))"

definition ob_CurrentVersion ::
  "bao_transport \<Rightarrow> string \<Rightarrow> OpenBaoKMS \<Rightarrow> (kms_error + string) \<times> OpenBaoKMS" where
  "ob_CurrentVersion tr keyID ob =
     (case bao_do tr ''GET'' (''/v1/transit/keys/'' @ keyID) [] ob of
        (Inl err, ob) \<Rightarrow> (Inl err, ob)
      | (Inr resp, ob) \<Rightarrow>
          (case data_int [''latest_version''] ''latest_version'' resp of
             None \<Rightarrow> (Inl (ErrKMSUnavailable 0 ''unexpected keys response''), ob)
           | Some n \<Rightarrow> (Inr (''v'' @ Itoa n), ob)))"

definition ob_WrapDEK ::
  "bao_transport \<Rightarrow> string \<Rightarrow> string \<Rightarrow> string \<Rightarrow> string \<Rightarrow> OpenBaoKMS
     \<Rightarrow> (kms_error + string \<times> string) \<times> OpenBaoKMS" where
  "ob_WrapDEK tr userID purpose plainDEK aad ob =
     (case bao_do tr ''POST'' (''/v1/transit/encrypt/'' @ ob_keyName ob)
             (encrypt_body plainDEK (derivedContext userID purpose aad)) ob of
        (Inl err, ob) \<Rightarrow> (Inl err, ob)
      | (Inr resp, ob) \<Rightarrow>
          (let bad = (Inl (ErrKMSUnavailable 0 ''unexpected wrap dek response''), ob);
               fs = [''ciphertext'', ''key_version'']
           in case (data_string fs ''ciphertext'' resp, data_int fs ''key_version'' resp) of
                (Some ct, Some n) \<Rightarrow> if ct = [] then bad else (Inr (ct, ''v'' @ Itoa n), ob)
              | _ \<Rightarrow> bad))"

definition ob_UnwrapDEK ::
  "bao_transport \<Rightarrow> string \<Rightarrow> string \<Rightarrow> string \<Rightarrow> string \<Rightarrow> OpenBaoKMS \<Rightarrow> (kms_error + string) \<times> OpenBaoKMS" where
  "ob_UnwrapDEK tr userID purpose wrapped aad ob =
     (case bao_do tr ''POST'' (''/v1/transit/decrypt/'' @ ob_keyName ob)
             (decrypt_body wrapped (derivedContext userID purpose aad)) ob of
        (Inl err, ob) \<Rightarrow> (Inl err, ob)
      | (Inr resp, ob) \<Rightarrow> (plaintext_reply ''unexpected unwrap dek response'' ''dek'' resp, ob))"

text \<open>\<open>stamp\<close> is the current time in RFC 3339 form.\<close>

definition ob_DeleteUserKeys ::
  "bao_transport \<Rightarrow> string \<Rightarrow> string \<Rightarrow> OpenBaoKMS \<Rightarrow> kms_error option \<times> OpenBaoKMS" where
  "ob_DeleteUserKeys tr stamp userID ob =
     (case bao_do tr ''POST'' (''/v1/secret/data/omur/shredded/'' @ userID)
             (json_print (JObj [(''data'', JObj [(''reason'', JStr ''user_erasure_request''), (''shredded_at'', JStr stamp)])])) ob of
        (Inl err, ob) \<Rightarrow> (Some err, ob)
      | (Inr resp, ob) \<Rightarrow> (None, ob))"

section \<open>Lemmas\<close>

definition hmac_laws :: "hmac \<Rightarrow> bool" where
  "hmac_laws mac \<longleftrightarrow> (\<forall>k m. length (mac k m) = 32)"

lemma bindAAD_inject:
  assumes "CHR ''|'' \<notin> set p" "CHR ''|'' \<notin> set p'" "CHR ''|'' \<notin> set u" "CHR ''|'' \<notin> set u'"
  shows "bindAAD p u a = bindAAD p' u' a' \<longleftrightarrow> p = p' \<and> u = u' \<and> a = a'"
  using sep_inject [OF assms(1,2)] sep_inject [OF assms(3,4)] by (simp add: bindAAD_def)

text \<open>How a call extends the record of requests.\<close>

lemma doRaw_calls:
  "ob_calls (snd (doRaw tr meth path tok body ob)) =
     ob_calls ob @ [\<lparr>br_method = meth, br_path = path, br_token = tok, br_body = body\<rparr>]"
  by (auto simp: doRaw_def Let_def split: sum.splits)

lemma doRaw_keeps:
  "ob_roleID (snd (doRaw tr meth path tok body ob)) = ob_roleID ob"
  "ob_secretID (snd (doRaw tr meth path tok body ob)) = ob_secretID ob"
  by (auto simp: doRaw_def Let_def split: sum.splits)

abbreviation is_login :: "bao_request \<Rightarrow> bool" where
  "is_login q \<equiv> br_path q = ''/v1/auth/approle/login''"

lemma getToken_calls:
  "\<exists>ls. ob_calls (snd (getToken tr ob)) = ob_calls ob @ ls \<and> length ls \<le> 1 \<and> (\<forall>q \<in> set ls. is_login q)"
proof (cases "ob_token ob \<noteq> [] \<and> ob_tokenExpiry ob - bt_now tr (length (ob_calls ob)) > 30 * second")
  case True
  then show ?thesis by (simp add: getToken_def)
next
  case False
  obtain r ob' where raw: "doRaw tr ''POST'' ''/v1/auth/approle/login'' [] (login_body ob) ob = (r, ob')" by fastforce
  have "ob_calls (snd (bao_login tr ob)) = ob_calls ob'"
    by (auto simp: bao_login_def raw Let_def split: sum.splits option.splits)
  then show ?thesis
    using doRaw_calls [of tr "''POST''" "''/v1/auth/approle/login''" "[]" "login_body ob" ob] raw False
    by (auto simp: getToken_def)
qed

lemma getToken_nonempty: "getToken tr ob = (Inr tok, ob') \<Longrightarrow> tok \<noteq> []"
  by (auto simp: getToken_def bao_login_def Let_def split: if_splits sum.splits option.splits prod.splits)

lemma doRaw_403:
  assumes "doRaw tr meth path tok body ob = (Inl (ErrKMSAuth 403 msg), ob')"
  shows "\<exists>b. bt_call tr (length (ob_calls ob)) \<lparr>br_method = meth, br_path = path, br_token = tok, br_body = body\<rparr>
             = Inr (403, b)"
  using assms by (auto simp: doRaw_def Let_def split: sum.splits if_splits)

text \<open>What fetching a token and sending the request with it add to the record.\<close>

lemma token_then_raw_calls:
  fixes meth path body
  defines "op \<equiv> \<lambda>tok. \<lparr>br_method = meth, br_path = path, br_token = tok, br_body = body\<rparr>"
  shows "\<exists>ls rest. ob_calls (snd (case getToken tr ob of (Inl err, ob) \<Rightarrow> (Inl err, ob)
             | (Inr tok, ob) \<Rightarrow> doRaw tr meth path tok body ob)) = ob_calls ob @ ls @ rest \<and>
           length ls \<le> 1 \<and> (\<forall>q \<in> set ls. is_login q) \<and> (rest = [] \<or> (\<exists>tok. tok \<noteq> [] \<and> rest = [op tok]))"
proof -
  obtain t ob1 where tok: "getToken tr ob = (t, ob1)" by fastforce
  obtain ls where ls: "ob_calls ob1 = ob_calls ob @ ls" "length ls \<le> 1" "\<forall>q \<in> set ls. is_login q"
    using getToken_calls [of tr ob] tok by auto
  show ?thesis
  proof (cases t)
    case (Inl e)
    then show ?thesis using tok ls by auto
  next
    case (Inr tk)
    then show ?thesis
      using ls tok getToken_nonempty [of tr ob tk ob1] doRaw_calls [of tr meth path tk body ob1]
      by (intro exI [of _ ls] exI [of _ "[op tk]"]) (simp add: op_def)
  qed
qed

lemma bao_do_no_retry:
  assumes "getToken tr ob = (Inr tk, ob1)" and "doRaw tr meth path tk body ob1 = (s, ob2)"
    and "\<nexists>m. s = Inl (ErrKMSAuth 403 m)"
  shows "bao_do tr meth path body ob = (s, ob2)"
proof (cases s)
  case e: (Inl e)
  show ?thesis using assms e by (cases e) (auto simp: bao_do_def)
next
  case (Inr b)
  then show ?thesis using assms by (simp add: bao_do_def)
qed

text \<open>
  The requests of one \<^verbatim>\<open>do\<close>: at most one login, the request, and after a 403 at most one
  more login and the same request again.
\<close>

lemma bao_do_calls:
  fixes meth path body
  defines "op \<equiv> \<lambda>tok. \<lparr>br_method = meth, br_path = path, br_token = tok, br_body = body\<rparr>"
  assumes "bao_do tr meth path body ob = (r, ob')"
  obtains (no_token) ls where "ob_calls ob' = ob_calls ob @ ls" "length ls \<le> 1" "\<forall>q \<in> set ls. is_login q"
      "\<exists>e. r = Inl e"
  | (once) ls tok where "ob_calls ob' = ob_calls ob @ ls @ [op tok]" "length ls \<le> 1" "\<forall>q \<in> set ls. is_login q" "tok \<noteq> []"
  | (again) ls tok ls' rest b where "ob_calls ob' = ob_calls ob @ ls @ [op tok] @ ls' @ rest"
      "length ls \<le> 1" "length ls' \<le> 1" "\<forall>q \<in> set ls \<union> set ls'. is_login q" "tok \<noteq> []"
      "rest = [] \<or> (\<exists>tok'. tok' \<noteq> [] \<and> rest = [op tok'])"
      "bt_call tr (length (ob_calls ob) + length ls) (op tok) = Inr (403, b)"
proof -
  obtain t ob1 where tok: "getToken tr ob = (t, ob1)" by fastforce
  obtain ls where ls: "ob_calls ob1 = ob_calls ob @ ls" "length ls \<le> 1" "\<forall>q \<in> set ls. is_login q"
    using getToken_calls [of tr ob] tok by auto
  show ?thesis
  proof (cases t)
    case (Inl e)
    then show ?thesis using assms(2) tok ls no_token by (auto simp: bao_do_def)
  next
    case (Inr tk)
    have ne: "tk \<noteq> []" using getToken_nonempty tok Inr by blast
    obtain s ob2 where raw: "doRaw tr meth path tk body ob1 = (s, ob2)" by fastforce
    have c2: "ob_calls ob2 = ob_calls ob @ ls @ [op tk]"
      using doRaw_calls [of tr meth path tk body ob1] raw ls by (simp add: op_def)
    show ?thesis
    proof (cases "\<exists>m. s = Inl (ErrKMSAuth 403 m)")
      case False
      then have "ob' = ob2" using bao_do_no_retry [OF tok [unfolded Inr] raw] assms(2) by simp
      then show ?thesis using once c2 ls ne by blast
    next
      case True
      then obtain m where m: "s = Inl (ErrKMSAuth 403 m)" by blast
      obtain b where b: "bt_call tr (length (ob_calls ob) + length ls) (op tk) = Inr (403, b)"
        using doRaw_403 [of tr meth path tk body ob1 m ob2] raw m ls(1) by (auto simp: op_def)
      have "ob' = snd (case getToken tr (ob2\<lparr>ob_token := []\<rparr>) of (Inl err, ob) \<Rightarrow> (Inl err, ob)
          | (Inr tok, ob) \<Rightarrow> doRaw tr meth path tok body ob)"
        using assms(2) tok Inr raw m by (simp add: bao_do_def)
      with token_then_raw_calls [where tr = tr and ob = "ob2\<lparr>ob_token := []\<rparr>" and meth = meth and path = path and body = body]
      obtain ls' rest where "ob_calls ob' = ob_calls ob2 @ ls' @ rest" "length ls' \<le> 1" "\<forall>q \<in> set ls'. is_login q"
          "rest = [] \<or> (\<exists>tok'. tok' \<noteq> [] \<and> rest = [op tok'])"
        unfolding op_def by auto
      then show ?thesis using again [of ls tk ls' rest b] ls c2 ne b by auto
    qed
  qed
qed

lemma set_string_one: "field_values [f] f [(f, v)] = [v]"
  by (simp add: field_values_def match_field_def)

text \<open>What the adapter reads from a reply of the Transit engine.\<close>

lemma std64_chars:
  assumes "c \<in> set (std64 p)"
  shows "nbyte c < 128 \<and> escape_ascii c = [c]"
proof -
  have "c \<in> set (pad_char # StdEncoding)" using assms std64.encode_clean [of p] by auto
  moreover have "list_all (\<lambda>c. nbyte c < 128 \<and> escape_ascii c = [c]) (pad_char # StdEncoding)" by code_simp
  ultimately show ?thesis by (auto simp: list_all_iff)
qed

lemma std64_ascii: "valid_utf8 (std64 p)"
  using std64_chars by (blast intro: ascii_valid)

lemma std64_plain: "quote_body (std64 p) = std64 p"
  using std64_chars by (blast intro: quote_body_plain)

lemma std64_empty: "std64 p = [] \<longleftrightarrow> p = []"
  using std64.encode_inject [of p "[]"] by simp

definition transit_plaintext :: "string \<Rightarrow> string" where
  "transit_plaintext p = json_print (JObj [(''data'', JObj [(''plaintext'', JStr (std64 p))])])"

lemma plaintext_reply_print:
  "plaintext_reply bad what (transit_plaintext p) =
     (if p = [] then Inl (ErrKMSUnavailable 0 bad) else Inr p)"
proof -
  have wf: "json_wf (JObj [(''data'', JObj [(''plaintext'', JStr (std64 p))])])"
    using std64_ascii [of p] by simp
  show ?thesis
    using parse_object_print [OF wf]
    by (simp add: transit_plaintext_def plaintext_reply_def data_string_def reply_members_def with_raw_def
          set_string_one std64_empty std64.decode_encode del: json_print.simps)
qed

section \<open>Properties\<close>

text \<open>
  C22. A data key wrapped by the development adapter unwraps to itself for the same
  user, purpose and associated data; unwrapping it for another triple, where no
  user id or purpose contains the separator, succeeds only if the cipher seals two
  different texts or associated data to the same bytes.
\<close>

theorem localdev_dek_bound:
  assumes "aead_laws A" and "hmac_laws mac" and "length nonce = 12"
    and "ld_WrapDEK A mac (Inr nonce) l u p dek aad = Inr (w, v)"
  shows "ld_UnwrapDEK A mac l u p w aad = Inr dek \<and>
         (CHR ''|'' \<notin> set p \<union> set p' \<union> set u \<union> set u' \<and> (u', p', aad') \<noteq> (u, p, aad) \<and>
          ld_UnwrapDEK A mac l u' p' w aad' = Inr dek' \<longrightarrow>
            bindAAD p' u' aad' \<noteq> bindAAD p u aad \<and>
            ae_seal A (ld_userKey mac l u p) nonce dek (bindAAD p u aad) =
              ae_seal A (ld_userKey mac l u' p') nonce dek' (bindAAD p' u' aad'))"
proof -
  have w: "crypto_Wrap A (Inr nonce) (ld_userKey mac l u p) dek (bindAAD p u aad) = Inr w"
    using assms(4) by (auto simp: ld_WrapDEK_def split: sum.splits)
  have sealed: "w = nonce @ ae_seal A (ld_userKey mac l u p) nonce dek (bindAAD p u aad)"
    using w by (auto simp: crypto_Wrap_def split: if_splits)
  have rt: "ld_UnwrapDEK A mac l u p w aad = Inr dek"
    unfolding ld_UnwrapDEK_def by (rule crypto_roundtrip [OF assms(1) w assms(3)])
  have "ae_seal A (ld_userKey mac l u p) nonce dek (bindAAD p u aad) =
      ae_seal A (ld_userKey mac l u' p') nonce dek' (bindAAD p' u' aad')"
    if un: "ld_UnwrapDEK A mac l u' p' w aad' = Inr dek'"
    using crypto_Unwrap_sealed [OF assms(1) un [unfolded ld_UnwrapDEK_def]] sealed assms(3) by auto
  then show ?thesis using rt by (auto simp: bindAAD_inject)
qed

definition toy_hmac :: hmac where
  "toy_hmac k m = take 32 (m @ replicate 32 CHR 0x00)"

lemma toy_hmac_laws: "hmac_laws toy_hmac"
  by (auto simp: hmac_laws_def toy_hmac_def min_def)

theorem localdev_dek_bound_witness:
  "\<exists>w v. ld_WrapDEK toy_aead toy_hmac (Inr (replicate 12 CHR ''n'')) (NewLocalDevKMS ''m'') ''u1'' ''doc'' ''dek'' ''a'' = Inr (w, v) \<and>
     ld_UnwrapDEK toy_aead toy_hmac (NewLocalDevKMS ''m'') ''u1'' ''doc'' w ''a'' = Inr ''dek''"
proof -
  let ?l = "NewLocalDevKMS ''m''"
  have k: "length (ld_userKey toy_hmac ?l ''u1'' ''doc'') = 32"
    using toy_hmac_laws by (simp add: hmac_laws_def ld_userKey_def)
  then obtain w v where w: "ld_WrapDEK toy_aead toy_hmac (Inr (replicate 12 CHR ''n'')) ?l ''u1'' ''doc'' ''dek'' ''a'' = Inr (w, v)"
    by (auto simp: ld_WrapDEK_def crypto_Wrap_def)
  have "length (replicate 12 CHR ''n'') = 12" by (rule length_replicate)
  from conjunct1 [OF localdev_dek_bound [OF toy_aead_laws toy_hmac_laws this w]] w show ?thesis by blast
qed

text \<open>
  The binding of the development adapter is ambiguous when ids contain its
  separators: a data key wrapped for user \<^verbatim>\<open>a\<close> and purpose \<^verbatim>\<open>c|a-c\<close> unwraps for the
  different user \<^verbatim>\<open>a-c|a\<close> with purpose \<^verbatim>\<open>c\<close>, since both the derivation label and the
  bound associated data coincide.
\<close>

lemma localdev_cross_user_unwrap:
  assumes "aead_laws A" and "length nonce = 12"
    and "ld_WrapDEK A mac (Inr nonce) l ''a'' ''c|a-c'' dek aad = Inr (w, v)"
  shows "ld_UnwrapDEK A mac l ''a-c|a'' ''c'' w aad = Inr dek"
proof -
  have w: "crypto_Wrap A (Inr nonce) (ld_userKey mac l ''a'' ''c|a-c'') dek (bindAAD ''c|a-c'' ''a'' aad) = Inr w"
    using assms(3) by (auto simp: ld_WrapDEK_def split: sum.splits)
  have "ld_userKey mac l ''a-c|a'' ''c'' = ld_userKey mac l ''a'' ''c|a-c''"
    "bindAAD ''c'' ''a-c|a'' aad = bindAAD ''c|a-c'' ''a'' aad"
    by (simp_all add: ld_userKey_def bindAAD_def)
  with crypto_roundtrip [OF assms(1) w assms(2)] show ?thesis by (simp add: ld_UnwrapDEK_def)
qed

lemma localdev_cross_user_unwrap_witness:
  "\<exists>w v. ld_WrapDEK toy_aead toy_hmac (Inr (replicate 12 CHR ''n'')) (NewLocalDevKMS ''m'') ''a'' ''c|a-c'' ''dek'' ''x'' = Inr (w, v) \<and>
     ld_UnwrapDEK toy_aead toy_hmac (NewLocalDevKMS ''m'') ''a-c|a'' ''c'' w ''x'' = Inr ''dek''"
proof -
  let ?l = "NewLocalDevKMS ''m''"
  have k: "length (ld_userKey toy_hmac ?l ''a'' ''c|a-c'') = 32"
    using toy_hmac_laws by (simp add: hmac_laws_def ld_userKey_def)
  then obtain w v where w: "ld_WrapDEK toy_aead toy_hmac (Inr (replicate 12 CHR ''n'')) ?l ''a'' ''c|a-c'' ''dek'' ''x'' = Inr (w, v)"
    by (auto simp: ld_WrapDEK_def crypto_Wrap_def)
  have "length (replicate 12 CHR ''n'') = 12" by (rule length_replicate)
  from localdev_cross_user_unwrap [OF toy_aead_laws this w] w show ?thesis by blast
qed

text \<open>
  The Transit context identifies user, purpose and associated data as long as no
  user id and purpose contains a colon; with colons two different users can share a
  context.
\<close>

lemma derived_context_unique:
  "(CHR '':'' \<notin> set u \<union> set u' \<union> set p \<union> set p' \<longrightarrow>
      (derivedContext u p a = derivedContext u' p' a' \<longleftrightarrow> u = u' \<and> p = p' \<and> a = a')) \<and>
   derivedContext ''a:b'' ''c'' a = derivedContext ''a'' ''b:c'' a"
proof (intro conjI impI)
  assume "CHR '':'' \<notin> set u \<union> set u' \<union> set p \<union> set p'"
  then show "derivedContext u p a = derivedContext u' p' a' \<longleftrightarrow> u = u' \<and> p = p' \<and> a = a'"
    using sep_inject [of "CHR '':''" u u'] sep_inject [of "CHR '':''" p p']
    by (simp add: derivedContext_def std64.encode_inject)
qed (simp add: derivedContext_def)

lemma derived_context_unique_witness:
  "derivedContext ''u1'' ''doc'' [] \<noteq> derivedContext ''u2'' ''doc'' []"
  using derived_context_unique [of "''u1''" "''u2''" "''doc''" "''doc''" "[]" "[]"] by simp

text \<open>
  C38. A call of the OpenBao API is bounded and its retry is justified: it issues at
  most four requests, never repeats the operation more than once, repeats it only
  after a 403 for it, and always sends it with a token.
\<close>

theorem openbao_call_bounded:
  assumes "bao_do tr meth path body ob = (r, ob')" and "path \<noteq> ''/v1/auth/approle/login''"
  shows "\<exists>sent. ob_calls ob' = ob_calls ob @ sent \<and> length sent \<le> 4 \<and>
           length (filter (\<lambda>q. br_path q = path) sent) \<le> 2 \<and>
           (\<forall>q \<in> set sent. br_path q = path \<longrightarrow> br_token q \<noteq> [] \<and> br_body q = body) \<and>
           (length (filter (\<lambda>q. br_path q = path) sent) = 2 \<longrightarrow>
              (\<exists>n q b. q \<in> set sent \<and> br_path q = path \<and> bt_call tr n q = Inr (403, b)))"
proof -
  have logins: "filter (\<lambda>q. br_path q = path) ls = []" if "\<forall>q \<in> set ls. is_login q" for ls
    using that assms(2) by (auto simp: filter_empty_conv)
  from assms(1) show ?thesis
  proof (cases rule: bao_do_calls)
    case (no_token ls)
    then show ?thesis using logins assms(2) by (intro exI [of _ ls]) auto
  next
    case (once ls tok)
    then show ?thesis using logins assms(2)
      by (intro exI [of _ "ls @ [\<lparr>br_method = meth, br_path = path, br_token = tok, br_body = body\<rparr>]"]) auto
  next
    case (again ls tok ls' rest b)
    let ?op = "\<lambda>tok. \<lparr>br_method = meth, br_path = path, br_token = tok, br_body = body\<rparr>"
    let ?sent = "ls @ [?op tok] @ ls' @ rest"
    have f: "filter (\<lambda>q. br_path q = path) ls = []" "filter (\<lambda>q. br_path q = path) ls' = []"
      using again(4) by (auto intro: logins)
    have len: "length (filter (\<lambda>q. br_path q = path) ?sent) \<le> 2" "length ?sent \<le> 4"
      using again(2,3,6) f by auto
    have "br_token q \<noteq> [] \<and> br_body q = body" if "q \<in> set rest" for q
      using again(6) that by auto
    then have "\<forall>q \<in> set ?sent. br_path q = path \<longrightarrow> br_token q \<noteq> [] \<and> br_body q = body"
      using again(4,5) assms(2) by auto
    moreover have "\<exists>n q b. q \<in> set ?sent \<and> br_path q = path \<and> bt_call tr n q = Inr (403, b)"
      using again(7) by (intro exI [of _ "length (ob_calls ob) + length ls"] exI [of _ "?op tok"] exI [of _ b]) simp
    ultimately show ?thesis using len again(1) by (intro exI [of _ ?sent]) blast
  qed
qed

definition demo_bao :: OpenBaoKMS where
  "demo_bao = \<lparr>ob_addr = ''http://bao'', ob_roleID = ''r'', ob_secretID = ''s'', ob_keyName = ''k'',
     ob_token = ''tok'', ob_tokenExpiry = 3600 * second, ob_calls = []\<rparr>"

theorem openbao_call_bounded_witness:
  "\<exists>sent. ob_calls (snd (bao_do \<lparr>bt_call = (\<lambda>n q. Inr (403, [])), bt_now = (\<lambda>_. 0)\<rparr> ''GET'' ''/v1/x'' [] demo_bao)) = sent \<and>
     length sent \<le> 4"
proof -
  let ?r = "bao_do \<lparr>bt_call = (\<lambda>n q. Inr (403, [])), bt_now = (\<lambda>_. 0)\<rparr> ''GET'' ''/v1/x'' [] demo_bao"
  have "?r = (fst ?r, snd ?r)" by simp
  from openbao_call_bounded [OF this] show ?thesis by (auto simp: demo_bao_def)
qed

text \<open>
  With a live token, unwrapping returns exactly the data key the Transit engine
  reports in its reply, for every non-empty key; a key of length zero, which
  wrapping accepts, cannot be unwrapped: the adapter takes the empty plaintext for a
  malformed reply.
\<close>

lemma openbao_unwrap_reply:
  assumes "ob_token ob \<noteq> []" and "ob_tokenExpiry ob - bt_now tr (length (ob_calls ob)) > 30 * second"
    and "bt_call tr (length (ob_calls ob))
           \<lparr>br_method = ''POST'', br_path = ''/v1/transit/decrypt/'' @ ob_keyName ob, br_token = ob_token ob,
            br_body = decrypt_body w (derivedContext u p aad)\<rparr> = Inr (200, transit_plaintext dek)"
    and "length (transit_plaintext dek) \<le> 64 * 1024"
  shows "fst (ob_UnwrapDEK tr u p w aad ob) =
     (if dek = [] then Inl (ErrKMSUnavailable 0 ''unexpected unwrap dek response'') else Inr dek)"
proof -
  have "getToken tr ob = (Inr (ob_token ob), ob)" using assms(1,2) by (simp add: getToken_def)
  moreover obtain ob' where "doRaw tr ''POST'' (''/v1/transit/decrypt/'' @ ob_keyName ob) (ob_token ob)
      (decrypt_body w (derivedContext u p aad)) ob = (Inr (transit_plaintext dek), ob')"
    using assms(3,4) by (simp add: doRaw_def Let_def)
  ultimately have "bao_do tr ''POST'' (''/v1/transit/decrypt/'' @ ob_keyName ob)
      (decrypt_body w (derivedContext u p aad)) ob = (Inr (transit_plaintext dek), ob')"
    by (simp add: bao_do_def)
  then show ?thesis by (simp add: ob_UnwrapDEK_def plaintext_reply_print)
qed

lemma openbao_unwrap_reply_witness:
  "fst (ob_UnwrapDEK \<lparr>bt_call = (\<lambda>n q. Inr (200, transit_plaintext ''dek'')), bt_now = (\<lambda>_. 0)\<rparr> ''u'' ''p'' ''vault:v1:x'' [] demo_bao)
     = Inr ''dek''"
proof -
  have "length (std64 ''dek'') = 4" by (simp add: digit4_def)
  then have "length (transit_plaintext ''dek'') \<le> 64 * 1024"
    by (simp add: transit_plaintext_def json_quote_def std64_plain quote_name name_chars_def del: EncodeToString.simps)
  then show ?thesis
    using openbao_unwrap_reply [of demo_bao "\<lparr>bt_call = (\<lambda>n q. Inr (200, transit_plaintext ''dek'')), bt_now = (\<lambda>_. 0)\<rparr>"
        "''vault:v1:x''" "''u''" "''p''" "[]" "''dek''"]
    by (simp add: demo_bao_def)
qed

end
