(* ===== verification/Kms_Contract.thy ===== *)
theory Kms_Contract
  imports Kms
begin

text \<open>
  The interface \<^verbatim>\<open>KMS\<close> of \<^verbatim>\<open>src/kms/kms.go\<close>: its six methods as a datatype of calls, the
  effect of a call on the state of each adapter, and the contract of a data key that is
  wrapped once and unwrapped later, after any calls in between. Both adapters implement
  the contract; for OpenBao it rests on \<open>transit_laws\<close>, what the Transit engine documents.
\<close>

section \<open>Calls\<close>

datatype kms_call =
    CallWrap string string string
  | CallUnwrap string string string
  | CallCurrentVersion string
  | CallWrapDEK string string string string
  | CallUnwrapDEK string string string string
  | CallDeleteUserKeys string

text \<open>
  The state after a call. The development adapter has no state that a call changes: its
  methods return only a result. \<open>stamp\<close> is the time that \<^verbatim>\<open>DeleteUserKeys\<close> writes.
\<close>

fun ob_call :: "bao_transport \<Rightarrow> string \<Rightarrow> kms_call \<Rightarrow> OpenBaoKMS \<Rightarrow> OpenBaoKMS" where
  "ob_call tr stamp (CallWrap k pt aad) ob = snd (ob_Wrap tr k pt aad ob)"
| "ob_call tr stamp (CallUnwrap k blob aad) ob = snd (ob_Unwrap tr k blob aad ob)"
| "ob_call tr stamp (CallCurrentVersion k) ob = snd (ob_CurrentVersion tr k ob)"
| "ob_call tr stamp (CallWrapDEK u p dek aad) ob = snd (ob_WrapDEK tr u p dek aad ob)"
| "ob_call tr stamp (CallUnwrapDEK u p w aad) ob = snd (ob_UnwrapDEK tr u p w aad ob)"
| "ob_call tr stamp (CallDeleteUserKeys u) ob = snd (ob_DeleteUserKeys tr stamp u ob)"

text \<open>A history of calls, each with its own input from outside (random bytes or the time).\<close>

definition kms_history ::
  "('r \<Rightarrow> kms_call \<Rightarrow> 's \<Rightarrow> 's) \<Rightarrow> ('r \<times> kms_call) list \<Rightarrow> 's \<Rightarrow> 's" where
  "kms_history step cs s = fold (\<lambda>(r, c). step r c) cs s"

section \<open>The contract\<close>

text \<open>
  \<open>ok\<close> is what the adapter relies on when it wraps, \<open>key\<close> the part of the state that
  determines the wrapping keys, \<open>refused\<close> the error of an unwrapping that the backend does
  not serve.
\<close>

locale kms_adapter =
  fixes ok :: "'env \<Rightarrow> 'r \<Rightarrow> 's \<Rightarrow> bool"
    and step :: "'env \<Rightarrow> 'r \<Rightarrow> kms_call \<Rightarrow> 's \<Rightarrow> 's"
    and wrapDEK :: "'env \<Rightarrow> 'r \<Rightarrow> string \<Rightarrow> string \<Rightarrow> string \<Rightarrow> string \<Rightarrow> 's \<Rightarrow> 'e + string \<times> string"
    and unwrapDEK :: "'env \<Rightarrow> string \<Rightarrow> string \<Rightarrow> string \<Rightarrow> string \<Rightarrow> 's \<Rightarrow> 'e + string"
    and refused :: "'env \<Rightarrow> string \<Rightarrow> string \<Rightarrow> string \<Rightarrow> string \<Rightarrow> 's \<Rightarrow> 'e option"
    and key :: "'s \<Rightarrow> 'k"
  assumes step_key: "key (step env r c s) = key s"
    and unwrap_wrapped:
      "ok env r s \<Longrightarrow> wrapDEK env r u p dek aad s = Inr (w, v) \<Longrightarrow> dek \<noteq> [] \<Longrightarrow> key s' = key s \<Longrightarrow>
       unwrapDEK env u p w aad s' = (case refused env u p w aad s' of Some e \<Rightarrow> Inl e | None \<Rightarrow> Inr dek)"
begin

lemma history_key: "key (kms_history (step env) cs s) = key s"
  by (induction cs arbitrary: s) (auto simp: kms_history_def step_key)

lemma dek_survives:
  assumes "ok env r s" and "wrapDEK env r u p dek aad s = Inr (w, v)" and "dek \<noteq> []"
  shows "unwrapDEK env u p w aad (kms_history (step env) cs s) =
     (case refused env u p w aad (kms_history (step env) cs s) of Some e \<Rightarrow> Inl e | None \<Rightarrow> Inr dek)"
  using unwrap_wrapped [OF assms history_key] .

end

section \<open>The development adapter\<close>

interpretation ld: kms_adapter
  "\<lambda>(A, mac :: hmac) rnd (l :: LocalDevKMS). aead_laws A \<and> (case rnd of Inl (_ :: string) \<Rightarrow> True | Inr n \<Rightarrow> length n = 12)"
  "\<lambda>_ _ _ l. l"
  "\<lambda>(A, mac) rnd u p dek aad l. ld_WrapDEK A mac rnd l u p dek aad"
  "\<lambda>(A, mac) u p w aad l. ld_UnwrapDEK A mac l u p w aad"
  "\<lambda>_ _ _ _ _ _. None"
  "\<lambda>l. l"
proof unfold_locales
  fix env :: "aead \<times> hmac" and r :: "string + string" and s s' :: LocalDevKMS
    and u p dek aad w v :: string
  obtain A mac where env: "env = (A, mac)" by fastforce
  assume ok: "(\<lambda>(A, mac :: hmac) rnd (l :: LocalDevKMS). aead_laws A \<and>
      (case rnd of Inl (_ :: string) \<Rightarrow> True | Inr n \<Rightarrow> length n = 12)) env r s"
    and wrap: "(\<lambda>(A, mac) rnd u p dek aad l. ld_WrapDEK A mac rnd l u p dek aad) env r u p dek aad s = Inr (w, v)"
    and same: "s' = s"
  have w: "crypto_Wrap A r (ld_userKey mac s u p) dek (bindAAD p u aad) = Inr w"
    using wrap by (auto simp: env ld_WrapDEK_def split: sum.splits)
  then obtain n where r: "r = Inr n" by (cases r) (auto simp: crypto_Wrap_def split: if_splits)
  show "(\<lambda>(A, mac) u p w aad l. ld_UnwrapDEK A mac l u p w aad) env u p w aad s' =
      (case None of Some e \<Rightarrow> Inl e | None \<Rightarrow> Inr dek)"
    using crypto_roundtrip [OF _ w [unfolded r]] ok by (simp add: env r same ld_UnwrapDEK_def)
qed simp_all

section \<open>The OpenBao adapter\<close>

definition answered :: "bao_transport \<Rightarrow> string \<Rightarrow> string \<Rightarrow> string \<Rightarrow> bool" where
  "answered tr path body resp \<longleftrightarrow>
     (\<exists>n q st full. br_path q = path \<and> br_body q = body \<and> bt_call tr n q = Inr (st, full) \<and> st < 400 \<and>
        resp = take (64 * 1024) full)"

lemma doRaw_answered:
  assumes "doRaw tr meth path tok body ob = (Inr resp, ob')"
  shows "answered tr path body resp"
proof -
  let ?q = "\<lparr>br_method = meth, br_path = path, br_token = tok, br_body = body\<rparr>"
  from assms obtain st full where "bt_call tr (length (ob_calls ob)) ?q = Inr (st, full)" "st < 400"
      "resp = take (64 * 1024) full"
    by (auto simp: doRaw_def Let_def split: sum.splits if_splits)
  moreover have "br_path ?q = path \<and> br_body ?q = body" by simp
  ultimately show ?thesis unfolding answered_def by blast
qed

text \<open>A call that succeeds returns the first 64 KiB of a reply to its own request.\<close>

lemma bao_do_answered:
  assumes "bao_do tr meth path body ob = (Inr resp, ob')"
  shows "answered tr path body resp"
  using assms unfolding bao_do_def
  by (auto split: sum.splits prod.splits kms_error.splits if_splits dest: doRaw_answered)

lemma doRaw_keyName: "doRaw tr meth path tok body ob = (x, ob') \<Longrightarrow> ob_keyName ob' = ob_keyName ob"
  by (auto simp: doRaw_def Let_def split: sum.splits if_splits)

lemma getToken_keyName: "getToken tr ob = (x, ob') \<Longrightarrow> ob_keyName ob' = ob_keyName ob"
  by (auto simp: getToken_def bao_login_def Let_def split: sum.splits option.splits prod.splits if_splits
      dest: doRaw_keyName)

lemma bao_do_keyName:
  assumes "bao_do tr meth path body ob = (x, ob')"
  shows "ob_keyName ob' = ob_keyName ob"
  using assms unfolding bao_do_def
  by (auto split: sum.splits prod.splits kms_error.splits if_splits dest!: doRaw_keyName getToken_keyName)

lemma ob_call_key: "ob_keyName (ob_call tr stamp c ob) = ob_keyName ob"
  by (cases c) (auto simp: ob_Wrap_def ob_Unwrap_def ob_CurrentVersion_def ob_WrapDEK_def ob_UnwrapDEK_def
        ob_DeleteUserKeys_def Let_def split: sum.splits prod.splits option.splits dest: bao_do_keyName)

text \<open>
  What the Transit engine documents of a derived key: the ciphertext it returned for a
  text under a context decrypts under the same key and context to that text, given in
  base64 in a reply of moderate size. Nothing is said of calls that it refuses.
\<close>

definition transit_laws :: "bao_transport \<Rightarrow> string \<Rightarrow> bool" where
  "transit_laws tr k \<longleftrightarrow>
     (\<forall>i j q q' st st' r r' ctx x c.
        br_path q = ''/v1/transit/encrypt/'' @ k \<longrightarrow> br_body q = encrypt_body x (std64 ctx) \<longrightarrow>
        bt_call tr i q = Inr (st, r) \<longrightarrow> st < 400 \<longrightarrow>
        data_string [''ciphertext'', ''key_version''] ''ciphertext'' (take (64 * 1024) r) = Some c \<longrightarrow> c \<noteq> [] \<longrightarrow>
        br_path q' = ''/v1/transit/decrypt/'' @ k \<longrightarrow> br_body q' = decrypt_body c (std64 ctx) \<longrightarrow>
        bt_call tr j q' = Inr (st', r') \<longrightarrow> st' < 400 \<longrightarrow>
          length r' \<le> 64 * 1024 \<and> data_string [''plaintext''] ''plaintext'' r' = Some (std64 x))"

lemma transit_lawsD:
  assumes "transit_laws tr k" and "answered tr (''/v1/transit/encrypt/'' @ k) (encrypt_body x (std64 ctx)) r"
    and "data_string [''ciphertext'', ''key_version''] ''ciphertext'' r = Some c" and "c \<noteq> []"
    and "answered tr (''/v1/transit/decrypt/'' @ k) (decrypt_body c (std64 ctx)) r'"
  shows "data_string [''plaintext''] ''plaintext'' r' = Some (std64 x)"
proof -
  obtain full where "length full \<le> 64 * 1024 \<and> data_string [''plaintext''] ''plaintext'' full = Some (std64 x)"
      "r' = take (64 * 1024) full"
    using assms unfolding transit_laws_def answered_def by blast
  then show ?thesis by simp
qed

lemma ob_WrapDEK_answered:
  assumes "fst (ob_WrapDEK tr u p dek aad ob) = Inr (w, v)"
  shows "\<exists>r. answered tr (''/v1/transit/encrypt/'' @ ob_keyName ob) (encrypt_body dek (derivedContext u p aad)) r \<and>
     data_string [''ciphertext'', ''key_version''] ''ciphertext'' r = Some w \<and> w \<noteq> []"
  using assms unfolding ob_WrapDEK_def Let_def
  by (auto split: sum.splits prod.splits option.splits if_splits dest: bao_do_answered)

lemma plaintext_reply_std64:
  "data_string [''plaintext''] ''plaintext'' r = Some (std64 x) \<Longrightarrow> x \<noteq> [] \<Longrightarrow> plaintext_reply bad what r = Inr x"
  by (simp add: plaintext_reply_def std64_empty std64.decode_encode)

definition ob_refused ::
  "bao_transport \<Rightarrow> string \<Rightarrow> string \<Rightarrow> string \<Rightarrow> string \<Rightarrow> OpenBaoKMS \<Rightarrow> kms_error option" where
  "ob_refused tr u p w aad ob =
     (case fst (bao_do tr ''POST'' (''/v1/transit/decrypt/'' @ ob_keyName ob) (decrypt_body w (derivedContext u p aad)) ob) of
        Inl e \<Rightarrow> Some e | Inr _ \<Rightarrow> None)"

lemma ob_unwrap_wrapped:
  assumes "transit_laws tr (ob_keyName ob)" and "fst (ob_WrapDEK tr u p dek aad ob) = Inr (w, v)"
    and "dek \<noteq> []" and "ob_keyName ob' = ob_keyName ob"
  shows "fst (ob_UnwrapDEK tr u p w aad ob') = (case ob_refused tr u p w aad ob' of Some e \<Rightarrow> Inl e | None \<Rightarrow> Inr dek)"
proof -
  obtain ctx where ctx: "derivedContext u p aad = std64 ctx" by (auto simp: derivedContext_def)
  obtain r where enc: "answered tr (''/v1/transit/encrypt/'' @ ob_keyName ob) (encrypt_body dek (std64 ctx)) r"
      "data_string [''ciphertext'', ''key_version''] ''ciphertext'' r = Some w" "w \<noteq> []"
    using ob_WrapDEK_answered [OF assms(2)] ctx by auto
  obtain a ob'' where call: "bao_do tr ''POST'' (''/v1/transit/decrypt/'' @ ob_keyName ob') (decrypt_body w (std64 ctx)) ob' = (a, ob'')"
    by fastforce
  show ?thesis
  proof (cases a)
    case (Inl e)
    then show ?thesis using call by (simp add: ob_UnwrapDEK_def ob_refused_def ctx)
  next
    case (Inr resp)
    have "data_string [''plaintext''] ''plaintext'' resp = Some (std64 dek)"
      using transit_lawsD [OF assms(1) enc] bao_do_answered [OF call [unfolded Inr]] assms(4) by simp
    then show ?thesis
      using plaintext_reply_std64 assms(3) Inr call by (simp add: ob_UnwrapDEK_def ob_refused_def ctx)
  qed
qed

interpretation ob: kms_adapter
  "\<lambda>tr (stamp :: string) ob. transit_laws tr (ob_keyName ob)"
  ob_call
  "\<lambda>tr stamp u p dek aad ob. fst (ob_WrapDEK tr u p dek aad ob)"
  "\<lambda>tr u p w aad ob. fst (ob_UnwrapDEK tr u p w aad ob)"
  ob_refused
  ob_keyName
  by unfold_locales (rule ob_call_key, rule ob_unwrap_wrapped)

section \<open>Properties\<close>










text \<open>
  With the development adapter \<^verbatim>\<open>DeleteUserKeys\<close> destroys nothing: whatever is called in
  between, a wrapped data key of the user still unwraps.
\<close>

lemma localdev_dek_survives:
  assumes "aead_laws A" and "length nonce = 12" and "ld_WrapDEK A mac (Inr nonce) l u p dek aad = Inr (w, v)" and "dek \<noteq> []"
  shows "ld_DeleteUserKeys u = None \<and> ld_UnwrapDEK A mac l u p w aad = Inr dek"
  using ld.dek_survives [of "(A, mac)" "Inr nonce" l u p dek aad w v "[]"] assms
  by (simp add: kms_history_def ld_DeleteUserKeys_def)

end
