(* ===== verification/Job_Queue.thy ===== *)
theory Job_Queue
  imports Json Tenant
begin

text \<open>
  Package \<^verbatim>\<open>jobqueue\<close> (\<^verbatim>\<open>src/jobqueue/\<close>): the envelope around every task payload, the
  client with its default options, the request-id decorator, the worker
  middlewares that unwrap the envelope, the constructors and the queue metrics.

  Third-party code is a parameter: \<open>uuid\<close> is \<^verbatim>\<open>uuid.Parse\<close> (\<open>None\<close> when it accepts the
  text), \<open>enq\<close> is \<^verbatim>\<open>EnqueueContext\<close> of asynq and the inspector of the metrics is a pair
  of functions. The operations that hand work to asynq return the calls they made.
  A payload is what \<^verbatim>\<open>json.Marshal\<close> makes of it: an error or a JSON value.
\<close>

section \<open>Model\<close>

subsection \<open>Configuration\<close>

definition DefaultMaxRetry :: int where "DefaultMaxRetry = 2"
definition DefaultTaskTimeout :: duration where "DefaultTaskTimeout = 5 * minute"
definition DefaultRetention :: duration where "DefaultRetention = 48 * 60 * minute"
definition DefaultConcurrency :: int where "DefaultConcurrency = 4"

record job_config =
  jc_Addr :: string
  jc_Password :: string
  jc_QueueName :: string
  jc_Concurrency :: int
  jc_ShutdownTimeout :: duration

definition jc_validate :: "job_config \<Rightarrow> go_error" where
  "jc_validate c =
     (if jc_Addr c = [] then Some ''jobqueue: Addr is required''
      else if jc_Password c = [] then Some ''jobqueue: Password is required (no empty-password dev path)''
      else if jc_QueueName c = [] then Some ''jobqueue: QueueName is required''
      else None)"

definition jc_concurrency :: "job_config \<Rightarrow> int" where
  "jc_concurrency c = (if jc_Concurrency c \<le> 0 then DefaultConcurrency else jc_Concurrency c)"

subsection \<open>The envelope\<close>

definition EnvelopeVersion :: int where "EnvelopeVersion = 1"

record Envelope =
  env_Version :: int
  env_TenantID :: string
  env_RequestID :: string
  env_Payload :: string

datatype envelope_reason =
    MalformedJSON
  | MissingVersion
  | UnsupportedVersion int
  | TenantNotUUID string
  | EmptyPayload

text \<open>
  The errors of the package. \<open>SkipRetry\<close> and \<open>ErrInvalidEnvelope\<close> are the sentinels that
  \<^verbatim>\<open>errors.Is\<close> finds anywhere in the chain.
\<close>

datatype job_error =
    ErrInvalidEnvelope envelope_reason
  | MarshalPayload string
  | SkipRetry job_error
  | EnqueueError job_error
  | OtherError string

fun is_skip_retry :: "job_error \<Rightarrow> bool" where
  "is_skip_retry (SkipRetry e) = True"
| "is_skip_retry (EnqueueError e) = is_skip_retry e"
| "is_skip_retry _ = False"

fun IsInvalidEnvelopeError :: "job_error \<Rightarrow> bool" where
  "IsInvalidEnvelopeError (ErrInvalidEnvelope r) = True"
| "IsInvalidEnvelopeError (SkipRetry e) = IsInvalidEnvelopeError e"
| "IsInvalidEnvelopeError (EnqueueError e) = IsInvalidEnvelopeError e"
| "IsInvalidEnvelopeError _ = False"

text \<open>
  \<^verbatim>\<open>json.Marshal\<close> of the envelope. The payload is already the compact output of
  \<^verbatim>\<open>json.Marshal\<close>, which marshalling it again as a raw message leaves as it is.
\<close>

definition envelope_members :: "string \<Rightarrow> string \<Rightarrow> json \<Rightarrow> (string \<times> json) list" where
  "envelope_members tenantID requestID payload =
     [(''version'', JNum (Itoa EnvelopeVersion)), (''tenant_id'', JStr tenantID)]
     @ (if requestID = [] then [] else [(''request_id'', JStr requestID)])
     @ [(''payload'', payload)]"

definition WrapWithRequestID ::
  "(string \<Rightarrow> go_error) \<Rightarrow> string \<Rightarrow> string \<Rightarrow> string + json \<Rightarrow> job_error + string" where
  "WrapWithRequestID uuid tenantID requestID payload =
     (case uuid tenantID of
        Some err \<Rightarrow> Inl (ErrInvalidEnvelope (TenantNotUUID err))
      | None \<Rightarrow>
          (case payload of
             Inl err \<Rightarrow> Inl (MarshalPayload err)
           | Inr j \<Rightarrow> Inr (json_print (JObj (envelope_members tenantID requestID j)))))"

definition job_Wrap :: "(string \<Rightarrow> go_error) \<Rightarrow> string \<Rightarrow> string + json \<Rightarrow> job_error + string" where
  "job_Wrap uuid tenantID payload = WrapWithRequestID uuid tenantID [] payload"

definition env_fields :: "string list" where
  "env_fields = [''version'', ''tenant_id'', ''request_id'', ''payload'']"

text \<open>
  \<^verbatim>\<open>json.Unmarshal\<close> into the envelope: the payload keeps the bytes of the last member
  that sets it, also those of a null.
\<close>

definition decode_envelope :: "string \<Rightarrow> Envelope option" where
  "decode_envelope data =
     (case parse_object data of
        None \<Rightarrow> None
      | Some ms \<Rightarrow>
          (let vals = (\<lambda>f. field_values env_fields f (map (\<lambda>(k, raw, v). (k, v)) ms));
               raws = map (\<lambda>(k, raw, v). raw) (filter (\<lambda>(k, raw, v). match_field env_fields k = Some ''payload'') ms)
           in case (set_int 0 (vals ''version''), set_string [] (vals ''tenant_id''),
                    set_string [] (vals ''request_id'')) of
                (Some v, Some tid, Some rid) \<Rightarrow>
                  Some \<lparr>env_Version = v, env_TenantID = tid, env_RequestID = rid,
                        env_Payload = (if raws = [] then [] else last raws)\<rparr>
              | _ \<Rightarrow> None))"

definition job_Unwrap :: "(string \<Rightarrow> go_error) \<Rightarrow> string \<Rightarrow> job_error + Envelope" where
  "job_Unwrap uuid data =
     (case decode_envelope data of
        None \<Rightarrow> Inl (ErrInvalidEnvelope MalformedJSON)
      | Some env \<Rightarrow>
          if env_Version env = 0 then Inl (ErrInvalidEnvelope MissingVersion)
          else if env_Version env > EnvelopeVersion
          then Inl (ErrInvalidEnvelope (UnsupportedVersion (env_Version env)))
          else (case uuid (env_TenantID env) of
                  Some err \<Rightarrow> Inl (ErrInvalidEnvelope (TenantNotUUID err))
                | None \<Rightarrow>
                    if env_Payload env = [] then Inl (ErrInvalidEnvelope EmptyPayload) else Inr env))"

subsection \<open>Tasks and the client\<close>

text \<open>The options of asynq the package sets; any other option is \<open>OtherOption\<close>.\<close>

datatype asynq_option =
    MaxRetry int
  | Timeout duration
  | Retention duration
  | QueueOption string
  | OtherOption string string

record job_task =
  task_Type :: string
  task_Payload :: string

definition defaultOptions :: "asynq_option list" where
  "defaultOptions = [MaxRetry DefaultMaxRetry, Timeout DefaultTaskTimeout, Retention DefaultRetention]"

definition NewTask ::
  "(string \<Rightarrow> go_error) \<Rightarrow> string \<Rightarrow> string \<Rightarrow> string + json \<Rightarrow> asynq_option list
   \<Rightarrow> job_error + job_task \<times> asynq_option list" where
  "NewTask uuid taskType tenantID payload opts =
     (case job_Wrap uuid tenantID payload of
        Inl err \<Rightarrow> Inl err
      | Inr body \<Rightarrow> Inr (\<lparr>task_Type = taskType, task_Payload = body\<rparr>, defaultOptions @ opts))"

record redis_opt =
  ro_Addr :: string
  ro_Password :: string

record JobClient =
  jcl_asynq :: "redis_opt option"
  jcl_queue :: string

definition config_redis :: "job_config \<Rightarrow> redis_opt" where
  "config_redis cfg = \<lparr>ro_Addr = jc_Addr cfg, ro_Password = jc_Password cfg\<rparr>"

definition job_NewClient :: "job_config \<Rightarrow> string + JobClient" where
  "job_NewClient cfg =
     (case jc_validate cfg of
        Some err \<Rightarrow> Inl err
      | None \<Rightarrow> Inr \<lparr>jcl_asynq = Some (config_redis cfg), jcl_queue = jc_QueueName cfg\<rparr>)"

type_synonym asynq_call = "job_task \<times> asynq_option list"

definition client_Enqueue ::
  "(string \<Rightarrow> go_error) \<Rightarrow> (ctx \<Rightarrow> asynq_call \<Rightarrow> job_error + 'i) \<Rightarrow> JobClient \<Rightarrow> ctx \<Rightarrow> string \<Rightarrow> string
   \<Rightarrow> string + json \<Rightarrow> asynq_option list \<Rightarrow> (job_error + 'i) \<times> asynq_call list" where
  "client_Enqueue uuid enq c ctx taskType tenantID payload opts =
     (case NewTask uuid taskType tenantID payload opts of
        Inl err \<Rightarrow> (Inl err, [])
      | Inr (task, defaults) \<Rightarrow>
          (let call = (task, defaults @ [QueueOption (jcl_queue c)])
           in (case enq ctx call of Inl err \<Rightarrow> Inl (EnqueueError err) | Inr info \<Rightarrow> Inr info, [call])))"

text \<open>\<open>None\<close> is the nil client; \<open>cl\<close> is \<^verbatim>\<open>Close\<close> of the asynq client.\<close>

definition client_Close :: "(redis_opt \<Rightarrow> go_error) \<Rightarrow> JobClient option \<Rightarrow> go_error" where
  "client_Close cl c =
     (case c of
        None \<Rightarrow> None
      | Some c \<Rightarrow> (case jcl_asynq c of None \<Rightarrow> None | Some a \<Rightarrow> cl a))"

subsection \<open>Correlation ids\<close>

definition job_WithRequestID :: "ctx \<Rightarrow> string \<Rightarrow> ctx" where
  "job_WithRequestID c requestID = WithValue c JobRequestIDKey (CtxString requestID)"

definition RequestIDFromContext :: "ctx \<Rightarrow> string" where
  "RequestIDFromContext c = ctx_string c JobRequestIDKey"

record EnqueueMiddleware =
  em_inner :: "JobClient option"

definition NewEnqueueMiddleware :: "JobClient option \<Rightarrow> EnqueueMiddleware" where
  "NewEnqueueMiddleware c = \<lparr>em_inner = c\<rparr>"

text \<open>The decorator around a client (a nil inner client panics and is not modelled here).\<close>

definition middleware_Enqueue ::
  "(string \<Rightarrow> go_error) \<Rightarrow> (ctx \<Rightarrow> asynq_call \<Rightarrow> job_error + 'i) \<Rightarrow> JobClient \<Rightarrow> ctx \<Rightarrow> string \<Rightarrow> string
   \<Rightarrow> string + json \<Rightarrow> asynq_option list \<Rightarrow> (job_error + 'i) \<times> asynq_call list" where
  "middleware_Enqueue uuid enq inner ctx taskType tenantID payload opts =
     (let requestID = RequestIDFromContext ctx in
      if requestID = [] then client_Enqueue uuid enq inner ctx taskType tenantID payload opts
      else (case WrapWithRequestID uuid tenantID requestID payload of
              Inl err \<Rightarrow> (Inl err, [])
            | Inr body \<Rightarrow>
                (let task = \<lparr>task_Type = taskType, task_Payload = body\<rparr>;
                     full = (defaultOptions @ opts) @ [QueueOption (jcl_queue inner)]
                 in (enq ctx (task, full), [(task, full)]))))"

definition middleware_Close :: "(redis_opt \<Rightarrow> go_error) \<Rightarrow> EnqueueMiddleware option \<Rightarrow> go_error" where
  "middleware_Close cl m =
     (case m of
        None \<Rightarrow> None
      | Some m \<Rightarrow> (case em_inner m of None \<Rightarrow> None | Some c \<Rightarrow> client_Close cl (Some c)))"

subsection \<open>Workers\<close>

type_synonym 's job_handler = "ctx \<Rightarrow> job_task \<Rightarrow> 's \<Rightarrow> job_error option \<times> 's"

definition job_WithTenant :: "(string \<Rightarrow> go_error) \<Rightarrow> 's job_handler \<Rightarrow> 's job_handler" where
  "job_WithTenant uuid next c t s =
     (case job_Unwrap uuid (task_Payload t) of
        Inl err \<Rightarrow> (Some (SkipRetry err), s)
      | Inr env \<Rightarrow>
          next (tenant_WithID c (env_TenantID env)) \<lparr>task_Type = task_Type t, task_Payload = env_Payload env\<rparr> s)"

definition job_WithTenantFunc :: "(string \<Rightarrow> go_error) \<Rightarrow> 's job_handler \<Rightarrow> 's job_handler" where
  "job_WithTenantFunc uuid h = (let wrapped = job_WithTenant uuid h in (\<lambda>c t. wrapped c t))"

definition WithEnvelope :: "(string \<Rightarrow> go_error) \<Rightarrow> 's job_handler \<Rightarrow> 's job_handler" where
  "WithEnvelope uuid next c t s =
     (case job_Unwrap uuid (task_Payload t) of
        Inl err \<Rightarrow> (Some (SkipRetry err), s)
      | Inr env \<Rightarrow>
          (let c = tenant_WithID c (env_TenantID env);
               c = (if env_RequestID env \<noteq> [] then job_WithRequestID c (env_RequestID env) else c)
           in next c \<lparr>task_Type = task_Type t, task_Payload = env_Payload env\<rparr> s))"

text \<open>The settings the constructors give to asynq.\<close>

record asynq_server =
  as_redis :: redis_opt
  as_Concurrency :: int
  as_Queues :: "string \<rightharpoonup> int"
  as_ShutdownTimeout :: duration

definition NewServer :: "job_config \<Rightarrow> string + asynq_server" where
  "NewServer cfg =
     (case jc_validate cfg of
        Some err \<Rightarrow> Inl err
      | None \<Rightarrow> Inr \<lparr>as_redis = config_redis cfg, as_Concurrency = jc_concurrency cfg,
                      as_Queues = [jc_QueueName cfg \<mapsto> 1], as_ShutdownTimeout = jc_ShutdownTimeout cfg\<rparr>)"

definition NewInspector :: "job_config \<Rightarrow> string + redis_opt" where
  "NewInspector cfg =
     (case jc_validate cfg of Some err \<Rightarrow> Inl err | None \<Rightarrow> Inr (config_redis cfg))"

definition job_NewScheduler :: "job_config \<Rightarrow> string + redis_opt" where
  "job_NewScheduler cfg =
     (case jc_validate cfg of Some err \<Rightarrow> Inl err | None \<Rightarrow> Inr (config_redis cfg))"

subsection \<open>Queue metrics\<close>

text \<open>
  What \<^verbatim>\<open>GetQueueInfo\<close> of asynq reports. A gauge is emitted with the number it is
  converted from: an integer, or a duration in seconds.
\<close>

record queue_info =
  qi_Queue :: string
  qi_Size :: int
  qi_Pending :: int
  qi_Active :: int
  qi_Scheduled :: int
  qi_Retry :: int
  qi_Archived :: int
  qi_Completed :: int
  qi_Aggregating :: int
  qi_Latency :: duration
  qi_MemoryUsage :: int
  qi_Paused :: bool
  qi_Processed :: int
  qi_Failed :: int

datatype metric_value = FromInt int | FromSeconds duration

datatype metric = Gauge string metric_value "string list" | InspectorErrors nat

record QueueMetricsCollector =
  qm_service :: string
  qm_errors :: nat

definition NewQueueMetricsCollector :: "string \<Rightarrow> QueueMetricsCollector" where
  "NewQueueMetricsCollector service = \<lparr>qm_service = service, qm_errors = 0\<rparr>"

definition Describe :: "string list" where
  "Describe =
     [''asynq_queue_size'', ''asynq_queue_pending'', ''asynq_queue_active'', ''asynq_queue_scheduled'',
      ''asynq_queue_retry'', ''asynq_queue_archived'', ''asynq_queue_completed'', ''asynq_queue_aggregating'',
      ''asynq_queue_latency_seconds'', ''asynq_queue_memory_bytes'', ''asynq_queue_paused'',
      ''asynq_queue_processed_today'', ''asynq_queue_failed_today'', ''asynq_inspector_errors_total'']"

definition queue_gauges :: "string \<Rightarrow> queue_info \<Rightarrow> metric list" where
  "queue_gauges service info =
     (let paused = (if qi_Paused info then 1 else 0); labels = [service, qi_Queue info] in
      [Gauge ''asynq_queue_size'' (FromInt (qi_Size info)) labels,
       Gauge ''asynq_queue_pending'' (FromInt (qi_Pending info)) labels,
       Gauge ''asynq_queue_active'' (FromInt (qi_Active info)) labels,
       Gauge ''asynq_queue_scheduled'' (FromInt (qi_Scheduled info)) labels,
       Gauge ''asynq_queue_retry'' (FromInt (qi_Retry info)) labels,
       Gauge ''asynq_queue_archived'' (FromInt (qi_Archived info)) labels,
       Gauge ''asynq_queue_completed'' (FromInt (qi_Completed info)) labels,
       Gauge ''asynq_queue_aggregating'' (FromInt (qi_Aggregating info)) labels,
       Gauge ''asynq_queue_latency_seconds'' (FromSeconds (qi_Latency info)) labels,
       Gauge ''asynq_queue_memory_bytes'' (FromInt (qi_MemoryUsage info)) labels,
       Gauge ''asynq_queue_paused'' (FromInt paused) labels,
       Gauge ''asynq_queue_processed_today'' (FromInt (qi_Processed info)) labels,
       Gauge ''asynq_queue_failed_today'' (FromInt (qi_Failed info)) labels])"

fun collect_queues ::
  "(string \<Rightarrow> string + queue_info) \<Rightarrow> string list \<Rightarrow> QueueMetricsCollector \<Rightarrow> metric list \<times> QueueMetricsCollector" where
  "collect_queues info [] c = ([], c)"
| "collect_queues info (q # qs) c =
     (case info q of
        Inl err \<Rightarrow> collect_queues info qs (c\<lparr>qm_errors := qm_errors c + 1\<rparr>)
      | Inr i \<Rightarrow> (let (ms, c') = collect_queues info qs c in (queue_gauges (qm_service c) i @ ms, c')))"

definition Collect ::
  "string + string list \<Rightarrow> (string \<Rightarrow> string + queue_info) \<Rightarrow> QueueMetricsCollector
   \<Rightarrow> metric list \<times> QueueMetricsCollector" where
  "Collect queues info c =
     (case queues of
        Inl err \<Rightarrow> (let c = c\<lparr>qm_errors := qm_errors c + 1\<rparr> in ([InspectorErrors (qm_errors c)], c))
      | Inr qs \<Rightarrow> (let (ms, c) = collect_queues info qs c in (ms @ [InspectorErrors (qm_errors c)], c)))"

section \<open>Lemmas\<close>

lemma env_field [simp]: "f \<in> set env_fields \<Longrightarrow> match_field env_fields f = Some f"
  by (simp add: match_field_def)

lemma env_fields_mem [simp]:
  "''version'' \<in> set env_fields" "''tenant_id'' \<in> set env_fields"
  "''request_id'' \<in> set env_fields" "''payload'' \<in> set env_fields"
  by (simp_all add: env_fields_def)

lemma decode_envelope_print:
  assumes "num_prefix v = Some v" and "ParseInt v = Some n" and "valid_utf8 tid" and "valid_utf8 rid" and "json_wf j"
  shows "decode_envelope (json_print (JObj ([(''version'', JNum v), (''tenant_id'', JStr tid)]
            @ (if rid = [] then [] else [(''request_id'', JStr rid)]) @ [(''payload'', j)]))) =
     Some \<lparr>env_Version = n, env_TenantID = tid, env_RequestID = rid, env_Payload = json_print j\<rparr>"
proof -
  let ?ms = "[(''version'', JNum v), (''tenant_id'', JStr tid)]
            @ (if rid = [] then [] else [(''request_id'', JStr rid)]) @ [(''payload'', j)]"
  have wf: "json_wf (JObj ?ms)" using assms by simp
  show ?thesis
    unfolding decode_envelope_def parse_object_print [OF wf]
    using assms(2) by (simp add: with_raw_def field_values_def Let_def del: json_print.simps)
qed

lemma num_one: "num_prefix ''1'' = Some ''1''" "num_prefix ''-7'' = Some ''-7''"
  by code_simp+

lemma parse_one: "ParseInt ''1'' = Some 1" "ParseInt ''-7'' = Some (- 7)"
  by (simp_all add: ParseInt_def parse_nat_def is_digit_def)

lemma decode_envelope_members:
  assumes "valid_utf8 tid" and "valid_utf8 rid" and "json_wf j"
  shows "decode_envelope (json_print (JObj (envelope_members tid rid j))) =
     Some \<lparr>env_Version = 1, env_TenantID = tid, env_RequestID = rid, env_Payload = json_print j\<rparr>"
proof -
  have v: "Itoa EnvelopeVersion = ''1''" by code_simp
  show ?thesis
    unfolding envelope_members_def v by (rule decode_envelope_print [OF num_one(1) parse_one(1) assms])
qed

lemma job_Unwrap_body:
  assumes "uuid tid = None" and "valid_utf8 tid" and "valid_utf8 rid" and "json_wf j"
  shows "job_Unwrap uuid (json_print (JObj (envelope_members tid rid j))) =
     Inr \<lparr>env_Version = 1, env_TenantID = tid, env_RequestID = rid, env_Payload = json_print j\<rparr>"
proof -
  obtain c r where "json_print j = c # r" using json_print_head [OF assms(4)] by metis
  then show ?thesis
    using assms(1) by (simp add: job_Unwrap_def decode_envelope_members [OF assms(2-4)] EnvelopeVersion_def del: json_print.simps)
qed

lemma job_Unwrap_invalid: "job_Unwrap uuid data = Inl err \<Longrightarrow> IsInvalidEnvelopeError err"
  by (auto simp: job_Unwrap_def split: option.splits if_splits)

subsection \<open>The enqueue and worker contracts\<close>

text \<open>
  What both enqueuers promise: an accepted call submits exactly one task, whose body
  unwraps to the tenant, the payload and the correlation id the enqueuer forwards,
  with the options of the caller after the defaults and the queue of the client last.
\<close>

locale job_enqueuer =
  fixes uuid :: "string \<Rightarrow> go_error"
    and enqueue :: "(ctx \<Rightarrow> asynq_call \<Rightarrow> job_error + 'i) \<Rightarrow> JobClient \<Rightarrow> ctx \<Rightarrow> string \<Rightarrow> string
      \<Rightarrow> string + json \<Rightarrow> asynq_option list \<Rightarrow> (job_error + 'i) \<times> asynq_call list"
    and forwarded :: "ctx \<Rightarrow> string"
  assumes submits: "\<lbrakk>uuid tid = None; valid_utf8 tid; valid_utf8 (forwarded c); json_wf j\<rbrakk> \<Longrightarrow>
      \<exists>body. snd (enqueue enq cl c ty tid (Inr j) opts) =
          [(\<lparr>task_Type = ty, task_Payload = body\<rparr>, defaultOptions @ opts @ [QueueOption (jcl_queue cl)])] \<and>
        job_Unwrap uuid body = Inr \<lparr>env_Version = 1, env_TenantID = tid, env_RequestID = forwarded c,
          env_Payload = json_print j\<rparr>"
    and rejects: "uuid tid = Some e \<Longrightarrow>
      enqueue enq cl c ty tid p opts = (Inl (ErrInvalidEnvelope (TenantNotUUID e)), [])"

interpretation direct: job_enqueuer uuid "client_Enqueue uuid" "\<lambda>c. []"
proof unfold_locales
  fix tid :: string and c :: ctx and j enq cl ty opts
  assume a: "uuid tid = None" "valid_utf8 tid" "valid_utf8 []" "json_wf j"
  show "\<exists>body. snd (client_Enqueue uuid enq cl c ty tid (Inr j) opts) =
          [(\<lparr>task_Type = ty, task_Payload = body\<rparr>, defaultOptions @ opts @ [QueueOption (jcl_queue cl)])] \<and>
        job_Unwrap uuid body = Inr \<lparr>env_Version = 1, env_TenantID = tid, env_RequestID = [],
          env_Payload = json_print j\<rparr>"
    using a(1) job_Unwrap_body [of uuid, OF a]
    by (simp add: client_Enqueue_def NewTask_def job_Wrap_def WrapWithRequestID_def Let_def del: json_print.simps)
qed (simp add: client_Enqueue_def NewTask_def job_Wrap_def WrapWithRequestID_def)

interpretation correlated: job_enqueuer uuid "middleware_Enqueue uuid" RequestIDFromContext
proof unfold_locales
  fix tid :: string and c :: ctx and j enq cl ty opts
  assume a: "uuid tid = None" "valid_utf8 tid" "valid_utf8 (RequestIDFromContext c)" "json_wf j"
  show "\<exists>body. snd (middleware_Enqueue uuid enq cl c ty tid (Inr j) opts) =
          [(\<lparr>task_Type = ty, task_Payload = body\<rparr>, defaultOptions @ opts @ [QueueOption (jcl_queue cl)])] \<and>
        job_Unwrap uuid body = Inr \<lparr>env_Version = 1, env_TenantID = tid, env_RequestID = RequestIDFromContext c,
          env_Payload = json_print j\<rparr>"
  proof (cases "RequestIDFromContext c = []")
    case True
    then show ?thesis using direct.submits [of uuid tid j] a by (simp add: middleware_Enqueue_def)
  next
    case False
    then show ?thesis using a(1) job_Unwrap_body [of uuid, OF a]
      by (simp add: middleware_Enqueue_def WrapWithRequestID_def Let_def del: json_print.simps)
  qed
qed (simp add: middleware_Enqueue_def WrapWithRequestID_def direct.rejects Let_def)

text \<open>
  What both worker middlewares promise: a task that does not unwrap is archived without
  running the handler, any other runs it on the inner payload in a context that
  differs from the worker's in the tenant of the envelope and, at most, in its
  correlation id.
\<close>

locale envelope_middleware =
  fixes uuid :: "string \<Rightarrow> go_error"
    and mw :: "'s job_handler \<Rightarrow> 's job_handler"
    and adopted :: "ctx \<Rightarrow> string \<Rightarrow> string"
  assumes malformed: "job_Unwrap uuid (task_Payload t) = Inl e \<Longrightarrow> mw nxt c t s = (Some (SkipRetry e), s)"
    and wellformed: "job_Unwrap uuid (task_Payload t) = Inr env \<Longrightarrow>
      \<exists>c'. mw nxt c t s = nxt c' \<lparr>task_Type = task_Type t, task_Payload = env_Payload env\<rparr> s \<and>
        ctx_string c' TenantKey = env_TenantID env \<and>
        RequestIDFromContext c' = adopted c (env_RequestID env)"
begin

lemma archived:
  assumes "job_Unwrap uuid (task_Payload t) = Inl e"
  shows "\<exists>err. mw nxt c t s = (Some err, s) \<and> is_skip_retry err \<and> IsInvalidEnvelopeError err"
  using malformed [OF assms] job_Unwrap_invalid [OF assms] by auto

end

interpretation with_tenant: envelope_middleware uuid "job_WithTenant uuid" "\<lambda>c rid. RequestIDFromContext c"
proof unfold_locales
  fix t :: job_task and nxt c s env assume "job_Unwrap uuid (task_Payload t) = Inr env"
  then show "\<exists>c'. job_WithTenant uuid nxt c t s = nxt c' \<lparr>task_Type = task_Type t, task_Payload = env_Payload env\<rparr> s \<and>
      ctx_string c' TenantKey = env_TenantID env \<and> RequestIDFromContext c' = RequestIDFromContext c"
    by (intro exI [of _ "tenant_WithID c (env_TenantID env)"])
      (simp add: job_WithTenant_def tenant_WithID_def RequestIDFromContext_def)
qed (simp add: job_WithTenant_def)

interpretation with_envelope:
  envelope_middleware uuid "WithEnvelope uuid" "\<lambda>c rid. if rid = [] then RequestIDFromContext c else rid"
proof unfold_locales
  fix t :: job_task and nxt c s env assume "job_Unwrap uuid (task_Payload t) = Inr env"
  then show "\<exists>c'. WithEnvelope uuid nxt c t s = nxt c' \<lparr>task_Type = task_Type t, task_Payload = env_Payload env\<rparr> s \<and>
      ctx_string c' TenantKey = env_TenantID env \<and>
      RequestIDFromContext c' = (if env_RequestID env = [] then RequestIDFromContext c else env_RequestID env)"
    by (cases "env_RequestID env = []")
      (auto simp: WithEnvelope_def tenant_WithID_def job_WithRequestID_def RequestIDFromContext_def Let_def)
qed (simp add: WithEnvelope_def)

text \<open>An enqueuer and a worker together.\<close>

locale job_pipeline = job_enqueuer uuid enqueue forwarded + envelope_middleware uuid mw adopted
  for uuid and enqueue :: "(ctx \<Rightarrow> asynq_call \<Rightarrow> job_error + 'i) \<Rightarrow> JobClient \<Rightarrow> ctx \<Rightarrow> string \<Rightarrow> string
      \<Rightarrow> string + json \<Rightarrow> asynq_option list \<Rightarrow> (job_error + 'i) \<times> asynq_call list"
    and forwarded and mw :: "'s job_handler \<Rightarrow> 's job_handler" and adopted
begin

lemma delivered:
  assumes "uuid tid = None" and "valid_utf8 tid" and "valid_utf8 (forwarded c)" and "json_wf j"
  shows "\<exists>t c'. snd (enqueue enq cl c ty tid (Inr j) opts) =
             [(t, defaultOptions @ opts @ [QueueOption (jcl_queue cl)])] \<and>
           mw nxt wc t s = nxt c' \<lparr>task_Type = ty, task_Payload = json_print j\<rparr> s \<and>
           ctx_string c' TenantKey = tid \<and> RequestIDFromContext c' = adopted wc (forwarded c)"
proof -
  from submits [OF assms] obtain body where b:
    "snd (enqueue enq cl c ty tid (Inr j) opts) =
        [(\<lparr>task_Type = ty, task_Payload = body\<rparr>, defaultOptions @ opts @ [QueueOption (jcl_queue cl)])]"
    "job_Unwrap uuid body = Inr \<lparr>env_Version = 1, env_TenantID = tid, env_RequestID = forwarded c,
        env_Payload = json_print j\<rparr>" by blast
  with wellformed [of "\<lparr>task_Type = ty, task_Payload = body\<rparr>" _ nxt wc s] show ?thesis by fastforce
qed

end

interpretation correlated_envelope: job_pipeline uuid "middleware_Enqueue uuid" RequestIDFromContext
    "WithEnvelope uuid" "\<lambda>c rid. if rid = [] then RequestIDFromContext c else rid"
  by unfold_locales

interpretation direct_tenant: job_pipeline uuid "client_Enqueue uuid" "\<lambda>c. []"
    "job_WithTenant uuid" "\<lambda>c rid. RequestIDFromContext c"
  by unfold_locales

section \<open>Properties\<close>

text \<open>
  C17. The envelope round trip over the actual JSON text: unwrapping what was wrapped
  gives back version 1, the tenant, the correlation id and the exact bytes of the
  payload, for every JSON value as payload and all UTF-8 ids, whether or not the
  correlation id was omitted.
\<close>

theorem envelope_roundtrip:
  assumes "WrapWithRequestID uuid tid rid (Inr j) = Inr body"
    and "valid_utf8 tid" and "valid_utf8 rid" and "json_wf j"
  shows "job_Unwrap uuid body =
    Inr \<lparr>env_Version = 1, env_TenantID = tid, env_RequestID = rid, env_Payload = json_print j\<rparr>"
proof -
  have u: "uuid tid = None" and b: "body = json_print (JObj (envelope_members tid rid j))"
    using assms(1) by (auto simp: WrapWithRequestID_def simp del: json_print.simps split: option.splits)
  show ?thesis unfolding b by (rule job_Unwrap_body [of uuid, OF u assms(2-4)])
qed

definition accept_all :: "string \<Rightarrow> go_error" where "accept_all s = None"

theorem envelope_roundtrip_witness:
  "\<exists>body. WrapWithRequestID accept_all ''t1'' ''r1'' (Inr (JArr [JNull, JBool True])) = Inr body \<and>
     job_Unwrap accept_all body =
       Inr \<lparr>env_Version = 1, env_TenantID = ''t1'', env_RequestID = ''r1'', env_Payload = ''[null,true]''\<rparr>"
proof -
  have w: "WrapWithRequestID accept_all ''t1'' ''r1'' (Inr (JArr [JNull, JBool True])) =
      Inr (json_print (JObj (envelope_members ''t1'' ''r1'' (JArr [JNull, JBool True]))))"
    by (simp add: WrapWithRequestID_def accept_all_def)
  have "json_print (JArr [JNull, JBool True]) = ''[null,true]''" by code_simp
  with envelope_roundtrip [OF w] w show ?thesis by (simp del: json_print.simps)
qed

text \<open>
  C5. A job crosses the queue whole: what the request-id decorator submits is one task
  with the options of the caller after the defaults and the queue of the client
  last, and when a worker behind \<^verbatim>\<open>WithEnvelope\<close> receives it, its handler runs on the
  payload of the enqueuer, in a context with the tenant of the enqueuer and the
  correlation id of the enqueuing request if it had one.
\<close>

theorem job_reaches_handler:
  assumes "uuid tid = None" and "valid_utf8 tid" and "valid_utf8 (RequestIDFromContext c)" and "json_wf j"
  shows "\<exists>t c'. snd (middleware_Enqueue uuid enq cl c ty tid (Inr j) opts) =
             [(t, defaultOptions @ opts @ [QueueOption (jcl_queue cl)])] \<and>
           WithEnvelope uuid h wc t s = h c' \<lparr>task_Type = ty, task_Payload = json_print j\<rparr> s \<and>
           tenant_FromContext c' = tid \<and>
           RequestIDFromContext c' =
             (if RequestIDFromContext c = [] then RequestIDFromContext wc else RequestIDFromContext c)"
  unfolding tenant_FromContext_def
  by (rule correlated_envelope.delivered [of uuid, OF assms])

theorem job_reaches_handler_witness:
  "\<exists>t c'. snd (middleware_Enqueue accept_all (\<lambda>_ _. Inr ()) \<lparr>jcl_asynq = None, jcl_queue = ''pulse''\<rparr>
             (job_WithRequestID [] ''r1'') ''pulse:sync'' ''t1'' (Inr JNull) []) =
        [(t, defaultOptions @ [QueueOption ''pulse''])] \<and>
      WithEnvelope accept_all (\<lambda>c t s. (None, [(c, t)])) [] t [] =
        (None, [(c', \<lparr>task_Type = ''pulse:sync'', task_Payload = ''null''\<rparr>)]) \<and>
      tenant_FromContext c' = ''t1'' \<and> RequestIDFromContext c' = ''r1''"
proof -
  have "RequestIDFromContext (job_WithRequestID [] ''r1'') = ''r1''"
    by (simp add: RequestIDFromContext_def job_WithRequestID_def)
  then show ?thesis
    using job_reaches_handler [of accept_all "''t1''" "job_WithRequestID [] ''r1''" JNull "\<lambda>_ _. Inr ()"
        "\<lparr>jcl_asynq = None, jcl_queue = ''pulse''\<rparr>" "''pulse:sync''" "[]" "\<lambda>c t s. (None, [(c, t)])" "[]" "[]"]
    by (auto simp: accept_all_def)
qed

text \<open>
  A task whose body is not a valid envelope never reaches the handler: both worker
  middlewares leave the state alone and return an error that asynq does not retry
  and that is recognised as an envelope error; in particular no handler runs for a
  tenant that is not a UUID. A negative version, however, passes the check.
\<close>

lemma malformed_job_archived:
  "(\<forall>t e. job_Unwrap uuid (task_Payload t) = Inl e \<longrightarrow>
      (\<exists>err. job_WithTenant uuid h c t s = (Some err, s) \<and> WithEnvelope uuid h c t s = (Some err, s) \<and>
         is_skip_retry err \<and> IsInvalidEnvelopeError err)) \<and>
   (\<forall>(t :: job_task) env. job_Unwrap uuid (task_Payload t) = Inr env \<longrightarrow>
      uuid (env_TenantID env) = None \<and> env_Payload env \<noteq> [] \<and> env_Version env \<le> 1 \<and> env_Version env \<noteq> 0) \<and>
   (uuid ''t1'' = None \<longrightarrow>
      (\<exists>env. job_Unwrap uuid (json_print (JObj [(''version'', JNum ''-7''), (''tenant_id'', JStr ''t1''), (''payload'', JNull)]))
         = Inr env \<and> env_Version env = - 7))"
proof (intro conjI allI impI)
  fix t :: job_task and e assume "job_Unwrap uuid (task_Payload t) = Inl e"
  then show "\<exists>err. job_WithTenant uuid h c t s = (Some err, s) \<and> WithEnvelope uuid h c t s = (Some err, s) \<and>
         is_skip_retry err \<and> IsInvalidEnvelopeError err"
    using with_tenant.malformed with_envelope.malformed with_tenant.archived by (metis prod.inject option.inject)
next
  fix t :: job_task and env assume "job_Unwrap uuid (task_Payload t) = Inr env"
  then show "uuid (env_TenantID env) = None" "env_Payload env \<noteq> []" "env_Version env \<le> 1" "env_Version env \<noteq> 0"
    by (auto simp: job_Unwrap_def EnvelopeVersion_def split: option.splits if_splits)
next
  assume u: "uuid ''t1'' = None"
  show "\<exists>env. job_Unwrap uuid (json_print (JObj [(''version'', JNum ''-7''), (''tenant_id'', JStr ''t1''), (''payload'', JNull)]))
         = Inr env \<and> env_Version env = - 7"
    using u decode_envelope_print [OF num_one(2) parse_one(2), of "''t1''" "[]" JNull]
    by (simp add: job_Unwrap_def EnvelopeVersion_def del: json_print.simps) simp
qed

lemma malformed_job_archived_witness:
  "\<exists>err. WithEnvelope accept_all (\<lambda>c t s. (None, s + 1)) [] \<lparr>task_Type = ''x'', task_Payload = ''{}''\<rparr> (0::nat) = (Some err, 0) \<and>
     is_skip_retry err"
proof -
  have "job_Unwrap accept_all ''{}'' = Inl (ErrInvalidEnvelope MissingVersion)" by code_simp
  then show ?thesis
    using conjunct1 [OF malformed_job_archived [of accept_all "\<lambda>c t s. (None, s + 1)" "[]" "0::nat"], rule_format,
        of "\<lparr>task_Type = ''x'', task_Payload = ''{}''\<rparr>"] by auto
qed

text \<open>
  A scrape emits the described gauges of every queue whose information loads, counts
  every failed lookup, and ends with the error counter.
\<close>

fun metric_name :: "metric \<Rightarrow> string" where
  "metric_name (Gauge n v ls) = n"
| "metric_name (InspectorErrors n) = ''asynq_inspector_errors_total''"

fun loaded :: "(string \<Rightarrow> string + queue_info) \<Rightarrow> string list \<Rightarrow> queue_info list" where
  "loaded info [] = []"
| "loaded info (q # qs) = (case info q of Inl e \<Rightarrow> loaded info qs | Inr i \<Rightarrow> i # loaded info qs)"

lemma collect_queues_spec:
  "collect_queues info qs c =
     (concat (map (queue_gauges (qm_service c)) (loaded info qs)),
      c\<lparr>qm_errors := qm_errors c + length (filter (\<lambda>q. isl (info q)) qs)\<rparr>)"
  by (induction qs arbitrary: c) (auto split: sum.splits prod.splits)

lemma gauge_names: "map metric_name (queue_gauges s i) = butlast Describe"
  by (simp add: queue_gauges_def Describe_def Let_def)

lemma Collect_described: "set (map metric_name (fst (Collect queues info c))) \<subseteq> set Describe"
proof -
  have "metric_name ` set (queue_gauges s i) \<subseteq> set Describe" for s i
    using gauge_names [of s i] set_map [of metric_name "queue_gauges s i"] in_set_butlastD by fastforce
  moreover have "''asynq_inspector_errors_total'' \<in> set Describe" by (simp add: Describe_def)
  ultimately show ?thesis
    by (auto simp: Collect_def collect_queues_spec Let_def split: sum.splits)
qed

end
