(* ===== verification/Go_Maps.thy ===== *)
theory Go_Maps
  imports Json "HOL-Library.AList" "HOL-Library.List_Lexorder" "HOL-Library.Char_ord"
begin

text \<open>
  Go maps with string keys that are marshalled to JSON or merged: association lists
  with distinct keys. \<^verbatim>\<open>json.Marshal\<close> writes the members of a map in the ascending
  byte order of their names, the order of \<^typ>\<open>string\<close> in \<^verbatim>\<open>List_Lexorder\<close>.
\<close>

definition sorted_members :: "(string \<times> 'a) list \<Rightarrow> (string \<times> 'a) list" where
  "sorted_members ms = map (\<lambda>k. (k, the (map_of (rev ms) k))) (sort (remdups (map fst ms)))"

text \<open>Assigning every member in turn: the later of two members with one name wins.\<close>

definition map_assign :: "(string \<times> 'a) list \<Rightarrow> (string \<times> 'a) list \<Rightarrow> (string \<times> 'a) list" where
  "map_assign ms m = fold (\<lambda>(k, v). AList.update k v) ms m"

text \<open>
  Decoding an object into \<^verbatim>\<open>map[string]string\<close>: a null member gives the empty string, any
  other value that is not a string is an error; null instead of an object is the
  nil map.
\<close>

fun string_members :: "(string \<times> string \<times> json) list \<Rightarrow> (string \<times> string) list option" where
  "string_members [] = Some []"
| "string_members ((k, raw, JStr s) # ms) = map_option (\<lambda>r. (k, s) # r) (string_members ms)"
| "string_members ((k, raw, JNull) # ms) = map_option (\<lambda>r. (k, []) # r) (string_members ms)"
| "string_members (m # ms) = None"

definition decode_string_map :: "string \<Rightarrow> (string \<times> string) list option" where
  "decode_string_map s = (case parse_object s of None \<Rightarrow> None | Some ms \<Rightarrow> string_members ms)"

definition marshal_string_map :: "(string \<times> string) list \<Rightarrow> string" where
  "marshal_string_map m = json_print (JObj (map (\<lambda>(k, v). (k, JStr v)) (sorted_members m)))"

lemma map_of_assign: "map_of (map_assign ms m) = map_of m ++ map_of (rev ms)"
  unfolding map_assign_def
  by (induction ms arbitrary: m) (auto simp: AList.update_conv' map_add_def fun_eq_iff split: option.splits)

lemma distinct_assign: "distinct (map fst m) \<Longrightarrow> distinct (map fst (map_assign ms m))"
  unfolding map_assign_def by (induction ms arbitrary: m) (auto intro: AList.distinct_update)

lemma map_of_key_list: "map_of (map (\<lambda>k. (k, f k)) ks) k = (if k \<in> set ks then Some (f k) else None)"
  by (induction ks) auto

lemma map_of_sorted: "map_of (sorted_members ms) = map_of (rev ms)"
proof
  fix k
  show "map_of (sorted_members ms) k = map_of (rev ms) k"
  proof (cases "map_of (rev ms) k")
    case None
    then have "k \<notin> fst ` set ms" by (simp add: map_of_eq_None_iff)
    then show ?thesis using None by (simp add: sorted_members_def map_of_key_list)
  next
    case (Some v)
    then have "k \<in> fst ` set ms" by (force dest: map_of_SomeD)
    then show ?thesis using Some by (simp add: sorted_members_def map_of_key_list)
  qed
qed

lemma map_of_rev: "distinct (map fst m) \<Longrightarrow> map_of (rev m) = map_of m"
  by (subst map_of_inject_set) (simp_all add: rev_map [symmetric])

lemma distinct_sorted: "distinct (map fst (sorted_members m))"
  by (simp add: sorted_members_def o_def)

lemma string_members_raw: "string_members (with_raw (map (\<lambda>(k, v). (k, JStr v)) m)) = Some m"
  by (induction m) (auto simp: with_raw_def)

text \<open>What was written for a map of UTF-8 strings reads back as the map.\<close>

lemma string_map_roundtrip:
  assumes "\<And>k v. (k, v) \<in> set m \<Longrightarrow> valid_utf8 k \<and> valid_utf8 v" and "distinct (map fst m)"
  shows "\<exists>ms. decode_string_map (marshal_string_map m) = Some ms \<and> map_of (rev ms) = map_of m"
proof (intro exI conjI)
  have "set (sorted_members m) \<subseteq> set m"
  proof
    fix x assume "x \<in> set (sorted_members m)"
    then obtain k where k: "k \<in> fst ` set m" "x = (k, the (map_of m k))"
      by (auto simp: sorted_members_def map_of_rev [OF assms(2)])
    then obtain v where "map_of m k = Some v" by (metis map_of_eq_None_iff option.exhaust)
    then show "x \<in> set m" using k by (simp add: map_of_SomeD)
  qed
  then have "valid_utf8 k \<and> valid_utf8 v" if "(k, v) \<in> set (sorted_members m)" for k v
    using that assms(1) by blast
  then have "json_wf (JObj (map (\<lambda>(k, v). (k, JStr v)) (sorted_members m)))"
    by (auto simp: list_all_iff)
  from parse_object_print [OF this]
  show "decode_string_map (marshal_string_map m) = Some (sorted_members m)"
    by (simp add: decode_string_map_def marshal_string_map_def string_members_raw del: json_print.simps)
  show "map_of (rev (sorted_members m)) = map_of m"
    by (simp add: map_of_rev [OF distinct_sorted] map_of_sorted map_of_rev [OF assms(2)])
qed

end
