(* ===== verification/Cron_Scheduler.thy ===== *)
theory Cron_Scheduler
  imports Job_Queue Go_Maps
begin

text \<open>
  Package \<^verbatim>\<open>scheduler\<close> (\<^verbatim>\<open>src/scheduler/scheduler.go\<close>): the loop that reconciles the cron
  entries registered with asynq with the rows of the providers table.

  The asynq scheduler behind the interface \<^verbatim>\<open>Asynq\<close> is a record of operations on a
  world \<open>'w\<close> that it keeps; the optional enqueuer acts on the same world. The entry
  table is an association list. Go visits the keys of a map in any order, so the
  two loops of \<^verbatim>\<open>reconcile\<close> take the order as a parameter. A provider configuration is
  what \<^verbatim>\<open>json.Marshal\<close> makes of it. SHA-256 and the text of floating-point numbers
  are parameters. Log output is not modelled.
\<close>

section \<open>Model\<close>

subsection \<open>Providers\<close>

record Provider =
  pv_TenantID :: string
  pv_Name :: string
  pv_Config :: "string + json"

text \<open>
  Decoding into \<^verbatim>\<open>map[string]any\<close> and marshalling again: the last of several members with
  a name counts, names are written in ascending order, and a number literal is the
  text of its floating-point value, which \<open>fnum\<close> gives unless it is out of range.
\<close>

fun any_json :: "(string \<Rightarrow> string option) \<Rightarrow> json \<Rightarrow> json option" where
  "any_json fnum (JNum l) = map_option JNum (fnum l)"
| "any_json fnum (JArr vs) = map_option JArr (those (map (any_json fnum) vs))"
| "any_json fnum (JObj ms) =
     map_option (\<lambda>ms. JObj (sorted_members ms)) (those (map (\<lambda>(k, v). map_option (Pair k) (any_json fnum v)) ms))"
| "any_json fnum j = Some j"

definition decode_config :: "(string \<Rightarrow> string option) \<Rightarrow> string \<Rightarrow> json" where
  "decode_config fnum s =
     (case json_parse s of
        Some JNull \<Rightarrow> JNull
      | Some (JObj ms) \<Rightarrow> (case any_json fnum (JObj ms) of Some j \<Rightarrow> j | None \<Rightarrow> JObj [])
      | _ \<Rightarrow> JObj [])"

text \<open>\<^verbatim>\<open>PgxProviderSource.FetchProviders\<close>, given the outcome of its query.\<close>

fun scan_providers :: "(string \<Rightarrow> string option) \<Rightarrow> (string + string \<times> string \<times> string) list \<Rightarrow> Provider list" where
  "scan_providers fnum [] = []"
| "scan_providers fnum (Inl err # rs) = scan_providers fnum rs"
| "scan_providers fnum (Inr (tid, name, configJSON) # rs) =
     \<lparr>pv_TenantID = tid, pv_Name = name, pv_Config = Inr (decode_config fnum configJSON)\<rparr> # scan_providers fnum rs"

definition FetchProviders ::
  "(string \<Rightarrow> string option) \<Rightarrow> (string \<Rightarrow> (string \<times> string \<times> string) rows) \<Rightarrow> string \<Rightarrow> Provider list \<times> go_error" where
  "FetchProviders fnum query kind =
     (case query kind of
        QueryFailed err \<Rightarrow> ([], Some err)
      | Rows rs err \<Rightarrow> (scan_providers fnum rs, err))"

text \<open>The query: rows of one kind that are enabled.\<close>

record provider_row =
  pr_tenant :: string
  pr_name :: string
  pr_kind :: string
  pr_enabled :: bool
  pr_config :: string

definition select_providers :: "provider_row list \<Rightarrow> string \<Rightarrow> (string \<times> string \<times> string) rows" where
  "select_providers tbl kind =
     Rows (map (\<lambda>r. Inr (pr_tenant r, pr_name r, pr_config r)) (filter (\<lambda>r. pr_kind r = kind \<and> pr_enabled r) tbl)) None"

subsection \<open>The scheduler\<close>

record registeredEntry =
  re_entryID :: string
  re_hash :: string
  re_cronspec :: string

record 'w Asynq =
  aq_Register :: "string \<Rightarrow> job_task \<Rightarrow> asynq_option list \<Rightarrow> 'w \<Rightarrow> (string + string) \<times> 'w"
  aq_Unregister :: "string \<Rightarrow> 'w \<Rightarrow> go_error \<times> 'w"
  aq_Start :: "'w \<Rightarrow> go_error \<times> 'w"
  aq_Shutdown :: "'w \<Rightarrow> 'w"

type_synonym 'w enqueuer = "string \<Rightarrow> string \<Rightarrow> string + json \<Rightarrow> asynq_option list \<Rightarrow> 'w \<Rightarrow> go_error \<times> 'w"

definition DefaultPollInterval :: duration where
  "DefaultPollInterval = 10 * second"

type_synonym entry_table = "(string \<times> registeredEntry) list"

record 'w Scheduler =
  sc_asynq :: "'w Asynq"
  sc_kind :: string
  sc_queue :: string
  sc_taskType :: string
  sc_deriveCron :: "Provider \<Rightarrow> string \<times> bool"
  sc_pollInterval :: duration
  sc_enqueuer :: "'w enqueuer option"
  sc_entries :: entry_table

definition WithPollInterval :: "duration \<Rightarrow> 'w Scheduler \<Rightarrow> 'w Scheduler" where
  "WithPollInterval d s = s\<lparr>sc_pollInterval := d\<rparr>"

definition WithImmediateOnRegister :: "'w enqueuer \<Rightarrow> 'w Scheduler \<Rightarrow> 'w Scheduler" where
  "WithImmediateOnRegister e s = s\<lparr>sc_enqueuer := Some e\<rparr>"

definition scheduler_New ::
  "'w Asynq \<Rightarrow> string \<Rightarrow> string \<Rightarrow> string \<Rightarrow> (Provider \<Rightarrow> string \<times> bool) \<Rightarrow> ('w Scheduler \<Rightarrow> 'w Scheduler) list \<Rightarrow> 'w Scheduler" where
  "scheduler_New aq kind queue taskType deriveCron opts =
     fold (\<lambda>f s. f s) opts
       \<lparr>sc_asynq = aq, sc_kind = kind, sc_queue = queue, sc_taskType = taskType, sc_deriveCron = deriveCron,
        sc_pollInterval = DefaultPollInterval, sc_enqueuer = None, sc_entries = []\<rparr>"

definition sched_key :: "string \<Rightarrow> string \<Rightarrow> string" where
  "sched_key tenant name = tenant @ '':'' @ name"

definition hash_input :: "string \<Rightarrow> string + json \<Rightarrow> string" where
  "hash_input cronspec cfg =
     cronspec @ [CHR 0x00] @ (case cfg of Inl err \<Rightarrow> [] | Inr j \<Rightarrow> json_print j)"

definition hex_string :: "string \<Rightarrow> string" where
  "hex_string s = concat (map (\<lambda>c. [hex_digit (byte c div 16), hex_digit (byte c mod 16)]) s)"

definition configHash :: "(string \<Rightarrow> string) \<Rightarrow> string \<Rightarrow> string + json \<Rightarrow> string" where
  "configHash sha256 cronspec cfg = hex_string (sha256 (hash_input cronspec cfg))"

definition buildPayload :: "Provider \<Rightarrow> json" where
  "buildPayload p =
     JObj [(''provider_name'', JStr (pv_Name p)),
           (''config'', case pv_Config p of Inl err \<Rightarrow> JObj [] | Inr cfg \<Rightarrow> cfg)]"

text \<open>The parameters that stand for code outside the repository.\<close>

record sched_env =
  se_uuid :: "string \<Rightarrow> go_error"
  se_sha256 :: "string \<Rightarrow> string"

definition registerOne ::
  "sched_env \<Rightarrow> 'w Scheduler \<Rightarrow> Provider \<Rightarrow> string \<Rightarrow> 'w \<Rightarrow> (job_error + string) \<times> 'w" where
  "registerOne E s p cronspec w =
     (case job_Wrap (se_uuid E) (pv_TenantID p) (Inr (buildPayload p)) of
        Inl err \<Rightarrow> (Inl err, w)
      | Inr body \<Rightarrow>
          (case aq_Register (sc_asynq s) cronspec \<lparr>task_Type = sc_taskType s, task_Payload = body\<rparr>
                  [QueueOption (sc_queue s)] w of
             (Inl err, w) \<Rightarrow> (Inl (OtherError err), w)
           | (Inr entryID, w) \<Rightarrow> (Inr entryID, w)))"

subsection \<open>Reconciliation\<close>

definition desired_rows :: "Provider list \<Rightarrow> (string \<times> Provider) list" where
  "desired_rows rows = fold (\<lambda>r. AList.update (sched_key (pv_TenantID r) (pv_Name r)) r) rows []"

definition unregister_stale ::
  "'w Asynq \<Rightarrow> (string \<times> Provider) list \<Rightarrow> string \<Rightarrow> entry_table \<times> 'w \<Rightarrow> entry_table \<times> 'w" where
  "unregister_stale aq desired k = (\<lambda>(es, w).
     (case map_of es k of
        None \<Rightarrow> (es, w)
      | Some ent \<Rightarrow>
          if map_of desired k = None then
            (case aq_Unregister aq (re_entryID ent) w of
               (Some err, w) \<Rightarrow> (es, w)
             | (None, w) \<Rightarrow> (AList.delete k es, w))
          else (es, w)))"

definition immediate_poll :: "'w Scheduler \<Rightarrow> Provider \<Rightarrow> 'w \<Rightarrow> 'w" where
  "immediate_poll s p w =
     (case sc_enqueuer s of
        None \<Rightarrow> w
      | Some enq \<Rightarrow> snd (enq (sc_taskType s) (pv_TenantID p) (Inr (buildPayload p)) [QueueOption (sc_queue s)] w))"

definition register_new ::
  "sched_env \<Rightarrow> 'w Scheduler \<Rightarrow> string \<Rightarrow> Provider \<Rightarrow> string \<Rightarrow> string \<Rightarrow> entry_table \<times> 'w \<Rightarrow> entry_table \<times> 'w" where
  "register_new E s k p cronspec h = (\<lambda>(es, w).
     (case registerOne E s p cronspec w of
        (Inl err, w) \<Rightarrow> (es, w)
      | (Inr entryID, w) \<Rightarrow>
          (AList.update k \<lparr>re_entryID = entryID, re_hash = h, re_cronspec = cronspec\<rparr> es, immediate_poll s p w)))"

definition register_changed ::
  "sched_env \<Rightarrow> 'w Scheduler \<Rightarrow> (string \<times> Provider) list \<Rightarrow> string \<Rightarrow> entry_table \<times> 'w \<Rightarrow> entry_table \<times> 'w" where
  "register_changed E s desired k = (\<lambda>(es, w).
     (case map_of desired k of
        None \<Rightarrow> (es, w)
      | Some p \<Rightarrow>
          (let (cronspec, ok) = sc_deriveCron s p in
           if \<not> ok then (es, w)
           else
             (let h = configHash (se_sha256 E) cronspec (pv_Config p) in
              case map_of es k of
                Some existing \<Rightarrow>
                  if re_hash existing = h then (es, w)
                  else (case aq_Unregister (sc_asynq s) (re_entryID existing) w of
                          (Some err, w) \<Rightarrow> (es, w)
                        | (None, w) \<Rightarrow> register_new E s k p cronspec h (AList.delete k es, w))
              | None \<Rightarrow> register_new E s k p cronspec h (es, w)))))"

definition reconcile ::
  "sched_env \<Rightarrow> (string list \<Rightarrow> string list) \<Rightarrow> (string list \<Rightarrow> string list) \<Rightarrow> (string \<Rightarrow> Provider list \<times> go_error)
   \<Rightarrow> 'w Scheduler \<times> 'w \<Rightarrow> 'w Scheduler \<times> 'w" where
  "reconcile E ord1 ord2 fetch = (\<lambda>(s, w).
     (case fetch (sc_kind s) of
        (rows, Some err) \<Rightarrow> (s, w)
      | (rows, None) \<Rightarrow>
          (let desired = desired_rows rows;
               (es, w) = fold (unregister_stale (sc_asynq s) desired) (ord1 (map fst (sc_entries s))) (sc_entries s, w);
               (es, w) = fold (register_changed E s desired) (ord2 (map fst desired)) (es, w)
           in (s\<lparr>sc_entries := es\<rparr>, w))))"

text \<open>
  The loop: one tick is an outcome of the fetch with the two orders; it ends with the
  ticks when the context is cancelled. \<^verbatim>\<open>Start\<close> reconciles once before the loop and \<^verbatim>\<open>Stop\<close>
  shuts asynq down after it.
\<close>

type_synonym tick = "(string list \<Rightarrow> string list) \<times> (string list \<Rightarrow> string list) \<times> (string \<Rightarrow> Provider list \<times> go_error)"

fun runLoop :: "sched_env \<Rightarrow> tick list \<Rightarrow> 'w Scheduler \<times> 'w \<Rightarrow> 'w Scheduler \<times> 'w" where
  "runLoop E [] sw = sw"
| "runLoop E ((ord1, ord2, fetch) # ts) sw = runLoop E ts (reconcile E ord1 ord2 fetch sw)"

definition scheduler_Start :: "sched_env \<Rightarrow> tick \<Rightarrow> 'w Scheduler \<times> 'w \<Rightarrow> go_error \<times> 'w Scheduler \<times> 'w" where
  "scheduler_Start E t = (\<lambda>(s, w).
     (case aq_Start (sc_asynq s) w of
        (Some err, w) \<Rightarrow> (Some (''asynq scheduler start: '' @ err), s, w)
      | (None, w) \<Rightarrow> (case t of (ord1, ord2, fetch) \<Rightarrow> (None, reconcile E ord1 ord2 fetch (s, w)))))"

definition scheduler_Stop :: "'w Scheduler \<times> 'w \<Rightarrow> 'w Scheduler \<times> 'w" where
  "scheduler_Stop = (\<lambda>(s, w). (s, aq_Shutdown (sc_asynq s) w))"

definition sched_Entries :: "'w Scheduler \<Rightarrow> string list" where
  "sched_Entries s = sort (map fst (sc_entries s))"

section \<open>Lemmas\<close>

subsection \<open>Keys and hashes\<close>

lemma hex_digit_inject: "a < 16 \<Longrightarrow> b < 16 \<Longrightarrow> hex_digit a = hex_digit b \<longleftrightarrow> a = b"
  by (metis hex_value_digit option.inject)

lemma hex_string_inject: "hex_string s = hex_string t \<longleftrightarrow> s = t"
proof (induction s arbitrary: t)
  case Nil
  then show ?case by (cases t) (auto simp: hex_string_def)
next
  case (Cons c s)
  have eq: "byte c = byte d" if "byte c div 16 = byte d div 16" "byte c mod 16 = byte d mod 16" for d
    using that by (metis div_mult_mod_eq)
  have lt: "byte c div 16 < 16" for c :: char using byte_less [of c] by (simp add: less_mult_imp_div_less)
  show ?case
  proof (cases t)
    case (Cons d t')
    have "hex_string (c # s) = hex_string (d # t') \<longleftrightarrow>
        byte c div 16 = byte d div 16 \<and> byte c mod 16 = byte d mod 16 \<and> hex_string s = hex_string t'"
      using lt by (simp add: hex_string_def hex_digit_inject)
    then show ?thesis using Cons.IH eq local.Cons by auto
  qed (simp add: hex_string_def)
qed

lemma configHash_inject:
  "configHash sha c cfg = configHash sha c' cfg' \<longleftrightarrow> sha (hash_input c cfg) = sha (hash_input c' cfg')"
  by (simp add: configHash_def hex_string_inject)

lemma sched_key_inject:
  "CHR '':'' \<notin> set t \<Longrightarrow> CHR '':'' \<notin> set t' \<Longrightarrow> sched_key t n = sched_key t' n' \<longleftrightarrow> t = t' \<and> n = n'"
  using sep_inject [of "CHR '':''" t t'] by (simp add: sched_key_def)

lemma map_of_desired:
  "map_of (desired_rows rows) = map_of (rev (map (\<lambda>r. (sched_key (pv_TenantID r) (pv_Name r), r)) rows))"
  unfolding desired_rows_def
  by (induction rows rule: rev_induct) (auto simp: AList.update_conv')

lemma distinct_desired: "distinct (map fst (desired_rows rows))"
  unfolding desired_rows_def
  by (induction rows rule: rev_induct) (simp_all add: AList.distinct_update)

subsection \<open>Registrations and entries\<close>

text \<open>
  The registrations asynq keeps are observed with \<open>reg\<close>: a successful \<^verbatim>\<open>Register\<close> adds one
  under a fresh id, a successful \<^verbatim>\<open>Unregister\<close> removes it, nothing else changes them.
\<close>

type_synonym 'w registrations = "'w \<Rightarrow> string \<rightharpoonup> string \<times> job_task \<times> asynq_option list"

definition asynq_laws :: "'w Scheduler \<Rightarrow> 'w registrations \<Rightarrow> bool" where
  "asynq_laws s reg \<longleftrightarrow>
     (\<forall>c t os w. case aq_Register (sc_asynq s) c t os w of
        (Inl e, w') \<Rightarrow> reg w' = reg w
      | (Inr i, w') \<Rightarrow> reg w i = None \<and> reg w' = (reg w)(i \<mapsto> (c, t, os))) \<and>
     (\<forall>i w. case aq_Unregister (sc_asynq s) i w of
        (Some e, w') \<Rightarrow> reg w' = reg w
      | (None, w') \<Rightarrow> reg w' = (reg w)(i := None)) \<and>
     (\<forall>enq ty tid p os w. sc_enqueuer s = Some enq \<longrightarrow> reg (snd (enq ty tid p os w)) = reg w)"

lemma laws_Unregister:
  assumes "asynq_laws s reg" and "aq_Unregister (sc_asynq s) i w = (r, w')"
  shows "reg w' = (if r = None then (reg w)(i := None) else reg w)"
proof -
  have "case aq_Unregister (sc_asynq s) i w of (Some e, w') \<Rightarrow> reg w' = reg w
      | (None, w') \<Rightarrow> reg w' = (reg w)(i := None)"
    using assms(1) by (auto simp: asynq_laws_def)
  with assms(2) show ?thesis by (cases r) auto
qed

lemma laws_Register:
  assumes "asynq_laws s reg" and "aq_Register (sc_asynq s) c t os w = (r, w')"
  shows "case r of Inl e \<Rightarrow> reg w' = reg w | Inr i \<Rightarrow> reg w i = None \<and> reg w' = (reg w)(i \<mapsto> (c, t, os))"
proof -
  have "case aq_Register (sc_asynq s) c t os w of (Inl e, w') \<Rightarrow> reg w' = reg w
      | (Inr i, w') \<Rightarrow> reg w i = None \<and> reg w' = (reg w)(i \<mapsto> (c, t, os))"
    using assms(1) by (auto simp: asynq_laws_def)
  with assms(2) show ?thesis by (cases r) auto
qed

lemma laws_poll: "asynq_laws s reg \<Longrightarrow> reg (immediate_poll s p w) = reg w"
  by (auto simp: asynq_laws_def immediate_poll_def split: option.splits)

text \<open>An entry is registered as its provider asks.\<close>

definition entry_ok ::
  "sched_env \<Rightarrow> 'w Scheduler \<Rightarrow> 'w registrations \<Rightarrow> 'w \<Rightarrow> string \<Rightarrow> registeredEntry \<Rightarrow> bool" where
  "entry_ok E s reg w k e \<longleftrightarrow>
     (\<exists>p body. k = sched_key (pv_TenantID p) (pv_Name p) \<and> sc_deriveCron s p = (re_cronspec e, True) \<and>
        re_hash e = configHash (se_sha256 E) (re_cronspec e) (pv_Config p) \<and>
        job_Wrap (se_uuid E) (pv_TenantID p) (Inr (buildPayload p)) = Inr body \<and>
        reg w (re_entryID e) =
          Some (re_cronspec e, \<lparr>task_Type = sc_taskType s, task_Payload = body\<rparr>, [QueueOption (sc_queue s)]))"

definition sched_inv ::
  "sched_env \<Rightarrow> 'w Scheduler \<Rightarrow> 'w registrations \<Rightarrow> entry_table \<times> 'w \<Rightarrow> bool" where
  "sched_inv E s reg = (\<lambda>(es, w). distinct (map fst es) \<and>
     (\<forall>k e. map_of es k = Some e \<longrightarrow> entry_ok E s reg w k e) \<and>
     (\<forall>k k' e e'. map_of es k = Some e \<and> map_of es k' = Some e' \<and> re_entryID e = re_entryID e' \<longrightarrow> k = k') \<and>
     (\<forall>i. reg w i \<noteq> None \<longrightarrow> (\<exists>k e. map_of es k = Some e \<and> re_entryID e = i)))"

lemma entry_ok_cong:
  "reg w' (re_entryID e) = reg w (re_entryID e) \<Longrightarrow> entry_ok E s reg w' k e = entry_ok E s reg w k e"
  by (simp add: entry_ok_def)

lemma sched_invD:
  assumes "sched_inv E s reg (es, w)"
  shows "distinct (map fst es)"
    and "map_of es k = Some e \<Longrightarrow> entry_ok E s reg w k e"
    and "map_of es k = Some e \<Longrightarrow> map_of es k' = Some e' \<Longrightarrow> re_entryID e = re_entryID e' \<Longrightarrow> k = k'"
    and "reg w i \<noteq> None \<Longrightarrow> \<exists>k e. map_of es k = Some e \<and> re_entryID e = i"
  using assms unfolding sched_inv_def prod.case by blast+

lemma inv_delete:
  assumes "sched_inv E s reg (es, w)" and "map_of es k = Some ent" and "reg w' = (reg w)(re_entryID ent := None)"
  shows "sched_inv E s reg (AList.delete k es, w')"
proof -
  note inv = sched_invD [OF assms(1)]
  have ok: "entry_ok E s reg w' k' e" if "map_of es k' = Some e" "k' \<noteq> k" for k' e
  proof -
    have "re_entryID e \<noteq> re_entryID ent" using inv(3) [OF that(1) assms(2)] that(2) by blast
    then show ?thesis
      using inv(2) [OF that(1)] assms(3) entry_ok_cong [of reg w' e w] by simp
  qed
  have cover: "\<exists>k' e. k' \<noteq> k \<and> map_of es k' = Some e \<and> re_entryID e = i" if "reg w' i \<noteq> None" for i
  proof -
    have i: "i \<noteq> re_entryID ent" "reg w i \<noteq> None" using that assms(3) by (auto split: if_splits)
    obtain k' e where "map_of es k' = Some e" "re_entryID e = i" using inv(4) [OF i(2)] by blast
    then show ?thesis using i(1) assms(2) by (intro exI [of _ k'] exI [of _ e]) auto
  qed
  show ?thesis
    unfolding sched_inv_def prod.case AList.delete_conv'
  proof (intro conjI allI impI)
    show "distinct (map fst (AList.delete k es))" by (rule AList.distinct_delete [OF inv(1)])
  next
    fix k' e assume "((map_of es)(k := None)) k' = Some e"
    then show "entry_ok E s reg w' k' e" using ok by (simp split: if_splits)
  next
    fix k1 k2 e1 e2
    assume "((map_of es)(k := None)) k1 = Some e1 \<and> ((map_of es)(k := None)) k2 = Some e2 \<and> re_entryID e1 = re_entryID e2"
    then show "k1 = k2" using inv(3) by (simp split: if_splits)
  next
    fix i assume "reg w' i \<noteq> None"
    from cover [OF this] show "\<exists>k' e. ((map_of es)(k := None)) k' = Some e \<and> re_entryID e = i" by auto
  qed
qed

lemma inv_insert:
  assumes "sched_inv E s reg (es, w)" and k: "map_of es k = None" and i: "reg w (re_entryID e) = None"
    and w': "\<And>j. j \<noteq> re_entryID e \<Longrightarrow> reg w' j = reg w j" and ok: "entry_ok E s reg w' k e"
  shows "sched_inv E s reg (AList.update k e es, w')"
proof -
  note inv = sched_invD [OF assms(1)]
  have other: "re_entryID e' \<noteq> re_entryID e \<and> entry_ok E s reg w' k' e'" if "map_of es k' = Some e'" for k' e'
  proof -
    have "reg w (re_entryID e') \<noteq> None" using inv(2) [OF that] by (auto simp: entry_ok_def)
    then have "re_entryID e' \<noteq> re_entryID e" using i by auto
    then show ?thesis using inv(2) [OF that] w' entry_ok_cong [of reg w' e' w] by simp
  qed
  have cover: "\<exists>k' e'. ((map_of es)(k \<mapsto> e)) k' = Some e' \<and> re_entryID e' = j" if "reg w' j \<noteq> None" for j
  proof (cases "j = re_entryID e")
    case False
    then have "reg w j \<noteq> None" using that w' by simp
    from inv(4) [OF this] obtain k' e' where "map_of es k' = Some e'" "re_entryID e' = j" by blast
    then show ?thesis using k by (intro exI [of _ k'] exI [of _ e']) auto
  qed (intro exI [of _ k] exI [of _ e], simp)
  show ?thesis
    unfolding sched_inv_def prod.case AList.update_conv'
  proof (intro conjI allI impI)
    show "distinct (map fst (AList.update k e es))" by (rule AList.distinct_update [OF inv(1)])
  next
    fix k' e' assume "((map_of es)(k \<mapsto> e)) k' = Some e'"
    then show "entry_ok E s reg w' k' e'" using ok other [of k' e'] by (simp split: if_splits)
  next
    fix k1 k2 a b
    assume "((map_of es)(k \<mapsto> e)) k1 = Some a \<and> ((map_of es)(k \<mapsto> e)) k2 = Some b \<and> re_entryID a = re_entryID b"
    then show "k1 = k2"
      using other [of k1 a] other [of k2 b] inv(3) [of k1 a k2 b] by (auto split: if_splits)
  next
    fix j assume "reg w' j \<noteq> None"
    then show "\<exists>k' e'. ((map_of es)(k \<mapsto> e)) k' = Some e' \<and> re_entryID e' = j" by (rule cover)
  qed
qed

lemma inv_cong: "reg w' = reg w \<Longrightarrow> sched_inv E s reg (es, w) \<Longrightarrow> sched_inv E s reg (es, w')"
  by (auto simp: sched_inv_def entry_ok_def)

subsection \<open>Every step keeps the invariant\<close>

lemma unregister_stale_inv:
  assumes "asynq_laws s reg" and "sched_inv E s reg (es, w)"
  shows "sched_inv E s reg (unregister_stale (sc_asynq s) desired k (es, w))"
proof (cases "map_of es k")
  case (Some ent)
  obtain r w' where u: "aq_Unregister (sc_asynq s) (re_entryID ent) w = (r, w')" by fastforce
  note reg = laws_Unregister [OF assms(1) u]
  show ?thesis
  proof (cases r)
    case None
    then show ?thesis
      using Some u reg inv_delete [OF assms(2) Some] assms(2) by (auto simp: unregister_stale_def)
  next
    case (Some err)
    then show ?thesis
      using \<open>map_of es k = _\<close> u reg assms(2) inv_cong [of reg w' w] by (auto simp: unregister_stale_def)
  qed
qed (use assms(2) in \<open>simp add: unregister_stale_def\<close>)

lemma registerOne_cases:
  assumes "asynq_laws s reg" and "registerOne E s p c w = (r, w')"
  obtains (failed) err where "r = Inl err" and "reg w' = reg w"
  | (registered) i body where "r = Inr i" and "reg w i = None"
      and "job_Wrap (se_uuid E) (pv_TenantID p) (Inr (buildPayload p)) = Inr body"
      and "reg w' = (reg w)(i \<mapsto> (c, \<lparr>task_Type = sc_taskType s, task_Payload = body\<rparr>, [QueueOption (sc_queue s)]))"
proof (cases "job_Wrap (se_uuid E) (pv_TenantID p) (Inr (buildPayload p))")
  case (Inl err)
  then show ?thesis using assms(2) by (intro failed [of err]) (simp_all add: registerOne_def)
next
  case (Inr body)
  obtain r0 w0 where a: "aq_Register (sc_asynq s) c \<lparr>task_Type = sc_taskType s, task_Payload = body\<rparr>
      [QueueOption (sc_queue s)] w = (r0, w0)" by fastforce
  show ?thesis
    using laws_Register [OF assms(1) a] assms(2) Inr a failed registered
    by (cases r0) (auto simp: registerOne_def)
qed

lemma register_new_inv:
  assumes "asynq_laws s reg" and "sched_inv E s reg (es, w)" and "map_of es k = None"
    and "k = sched_key (pv_TenantID p) (pv_Name p)" and "sc_deriveCron s p = (c, True)"
    and "h = configHash (se_sha256 E) c (pv_Config p)"
  shows "sched_inv E s reg (register_new E s k p c h (es, w))"
proof -
  obtain r w' where r: "registerOne E s p c w = (r, w')" by fastforce
  from assms(1) r show ?thesis
  proof (cases rule: registerOne_cases)
    case (failed err)
    then show ?thesis using r inv_cong [OF _ assms(2)] by (simp add: register_new_def)
  next
    case (registered i body)
    let ?e = "\<lparr>re_entryID = i, re_hash = h, re_cronspec = c\<rparr>"
    have "sched_inv E s reg (AList.update k ?e es, immediate_poll s p w')"
    proof (rule inv_insert [OF assms(2,3)])
      show "entry_ok E s reg (immediate_poll s p w') k ?e"
        unfolding entry_ok_def using registered assms(4-6)
        by (intro exI [of _ p] exI [of _ body]) (simp add: laws_poll [OF assms(1)])
    qed (use registered in \<open>simp_all add: laws_poll [OF assms(1)]\<close>)
    then show ?thesis using r registered by (simp add: register_new_def)
  qed
qed

text \<open>The desired rows are filed under their own keys.\<close>

lemma desired_key: "map_of (desired_rows rows) k = Some p \<Longrightarrow> k = sched_key (pv_TenantID p) (pv_Name p)"
  unfolding map_of_desired by (auto dest: map_of_SomeD)

lemma register_changed_inv:
  assumes "asynq_laws s reg" and "sched_inv E s reg (es, w)"
  shows "sched_inv E s reg (register_changed E s (desired_rows rows) k (es, w))"
proof (cases "map_of (desired_rows rows) k")
  case (Some p)
  note k = desired_key [OF Some]
  obtain c ok where c: "sc_deriveCron s p = (c, ok)" by fastforce
  let ?h = "configHash (se_sha256 E) c (pv_Config p)"
  show ?thesis
  proof (cases "ok")
    case True
    note new = register_new_inv [OF assms(1) _ _ k, of _ _ _ c ?h] c True
    show ?thesis
    proof (cases "map_of es k")
      case None
      then show ?thesis using new(1) [OF assms(2)] Some c True by (simp add: register_changed_def Let_def)
    next
      case e: (Some e)
      obtain r w' where u: "aq_Unregister (sc_asynq s) (re_entryID e) w = (r, w')" by fastforce
      note reg = laws_Unregister [OF assms(1) u]
      have del: "r = None \<Longrightarrow> sched_inv E s reg (AList.delete k es, w')"
        using inv_delete [OF assms(2) e] reg by simp
      have absent: "map_of (AList.delete k es) k = None" by (simp add: AList.delete_conv')
      have keep: "r \<noteq> None \<Longrightarrow> sched_inv E s reg (es, w')" using reg inv_cong [OF _ assms(2), of w'] by auto
      show ?thesis
        using new(1) [OF del absent] keep Some c True e u assms(2)
        by (cases r) (simp_all add: register_changed_def Let_def)
    qed
  qed (use Some c assms(2) in \<open>simp add: register_changed_def\<close>)
qed (use assms(2) in \<open>simp add: register_changed_def\<close>)

lemma reconcile_inv:
  assumes "asynq_laws s reg" and "sched_inv E s reg (sc_entries s, w)"
    and "reconcile E ord1 ord2 fetch (s, w) = (s', w')"
  shows "s' = s\<lparr>sc_entries := sc_entries s'\<rparr> \<and> sched_inv E s reg (sc_entries s', w')"
proof (cases "fetch (sc_kind s)")
  case (Pair rows err)
  show ?thesis
  proof (cases err)
    case None
    let ?d = "desired_rows rows"
    let ?st1 = "fold (unregister_stale (sc_asynq s) ?d) (ord1 (map fst (sc_entries s))) (sc_entries s, w)"
    let ?st2 = "fold (register_changed E s ?d) (ord2 (map fst ?d)) ?st1"
    have "sched_inv E s reg ?st1"
    proof (rule fold_inv [of "sched_inv E s reg", OF _ assms(2)])
      fix k st assume "sched_inv E s reg st"
      then show "sched_inv E s reg (unregister_stale (sc_asynq s) ?d k st)"
        using unregister_stale_inv [OF assms(1)] by (cases st) simp
    qed
    then have "sched_inv E s reg ?st2"
    proof (rule fold_inv [of "sched_inv E s reg", rotated])
      fix k st assume "sched_inv E s reg st"
      then show "sched_inv E s reg (register_changed E s ?d k st)"
        using register_changed_inv [OF assms(1)] by (cases st) simp
    qed
    moreover have "s' = s\<lparr>sc_entries := fst ?st2\<rparr>" "w' = snd ?st2"
      using assms(3) Pair None by (simp_all add: reconcile_def Let_def case_prod_beta)
    ultimately show ?thesis by simp
  qed (use assms Pair in \<open>simp add: reconcile_def\<close>)
qed

subsection \<open>What the calls keep\<close>

text \<open>
  A property of the world that every call of asynq keeps, and the immediate poll of every
  provider in \<open>Q\<close>, holds after any rounds that fetch only providers in \<open>Q\<close>.
\<close>

definition keeps :: "('w \<Rightarrow> bool) \<Rightarrow> (Provider \<Rightarrow> bool) \<Rightarrow> 'w Scheduler \<Rightarrow> bool" where
  "keeps P Q s \<longleftrightarrow>
     (\<forall>c t os w. P w \<longrightarrow> P (snd (aq_Register (sc_asynq s) c t os w))) \<and>
     (\<forall>i w. P w \<longrightarrow> P (snd (aq_Unregister (sc_asynq s) i w))) \<and>
     (\<forall>p w. Q p \<and> snd (sc_deriveCron s p) \<and> P w \<longrightarrow> P (immediate_poll s p w))"

lemma keeps_call:
  assumes "keeps P Q s" and "P w"
  shows "aq_Register (sc_asynq s) c t os w = (r, w') \<Longrightarrow> P w'" and "aq_Unregister (sc_asynq s) i w = (r', w') \<Longrightarrow> P w'"
    and "Q p \<Longrightarrow> snd (sc_deriveCron s p) \<Longrightarrow> P (immediate_poll s p w)"
  using assms unfolding keeps_def by (metis snd_conv)+

lemma unregister_stale_keeps:
  assumes "keeps P Q s" and "P (snd st)"
  shows "P (snd (unregister_stale (sc_asynq s) d k st))"
  using assms(2) keeps_call(2) [OF assms(1)]
  by (cases st) (auto simp: unregister_stale_def split: option.splits prod.splits)

lemma register_new_keeps:
  assumes "keeps P Q s" and "P w" and "Q p" and "snd (sc_deriveCron s p)"
  shows "P (snd (register_new E s k p c h (es, w)))"
  using assms(2) keeps_call(1,3) [OF assms(1)] assms(3,4)
  by (fastforce simp: register_new_def registerOne_def split: sum.splits prod.splits)

lemma register_changed_keeps:
  assumes "keeps P Q s" and "P (snd st)" and "\<And>p. map_of d k = Some p \<Longrightarrow> Q p"
  shows "P (snd (register_changed E s d k st))"
proof (cases st)
  case (Pair es w)
  have new: "P (snd (register_new E s k p c h (es', w')))" if "map_of d k = Some p" "sc_deriveCron s p = (c, True)" "P w'" for p c h es' w'
    using register_new_keeps [OF assms(1) that(3) assms(3) [OF that(1)]] that(2) by simp
  show ?thesis
    using assms(2) new keeps_call(2) [OF assms(1)]
    by (auto simp: Pair register_changed_def Let_def split: option.splits prod.splits)
qed

lemma desired_row: "map_of (desired_rows rows) k = Some p \<Longrightarrow> p \<in> set rows"
  unfolding map_of_desired by (auto dest!: map_of_SomeD)

lemma reconcile_keeps:
  assumes "keeps P Q s" and "P w" and "\<forall>p \<in> set (fst (fetch (sc_kind s))). Q p"
  shows "P (snd (reconcile E ord1 ord2 fetch (s, w)))"
proof (cases "fetch (sc_kind s)")
  case (Pair rows err)
  let ?d = "desired_rows rows"
  let ?st1 = "fold (unregister_stale (sc_asynq s) ?d) (ord1 (map fst (sc_entries s))) (sc_entries s, w)"
  have "P (snd ?st1)"
    by (rule fold_inv [of "\<lambda>st. P (snd st)"]) (use assms(2) unregister_stale_keeps [OF assms(1)] in auto)
  moreover have "Q p" if "map_of ?d k = Some p" for k p using desired_row [OF that] assms(3) Pair by simp
  ultimately have "P (snd (fold (register_changed E s ?d) (ord2 (map fst ?d)) ?st1))"
    using register_changed_keeps [OF assms(1)]
    by (intro fold_inv [of "\<lambda>st. P (snd st)" "register_changed E s ?d"]) blast+
  then show ?thesis using assms(2) Pair by (simp add: reconcile_def Let_def case_prod_beta split: option.splits)
qed

lemma reconcile_same:
  assumes "reconcile E ord1 ord2 fetch (s, w) = (s', w')"
  shows "\<exists>es. s' = s\<lparr>sc_entries := es\<rparr>"
proof (cases "fetch (sc_kind s)")
  case (Pair rows err)
  have "s = s\<lparr>sc_entries := sc_entries s\<rparr>" by simp
  then have "\<exists>es. s = s\<lparr>sc_entries := es\<rparr>" ..
  then show ?thesis using assms Pair by (auto simp: reconcile_def Let_def split: prod.splits option.splits)
qed

lemma runLoop_same: "runLoop E ts (s, w) = (s', w') \<Longrightarrow> \<exists>es. s' = s\<lparr>sc_entries := es\<rparr>"
proof (induction ts arbitrary: s w)
  case Nil
  then have "s' = s\<lparr>sc_entries := sc_entries s\<rparr>" by simp
  then show ?case ..
next
  case (Cons t ts)
  obtain ord1 ord2 fetch where t: "t = (ord1, ord2, fetch)" by (cases t)
  obtain s1 w1 where r: "reconcile E ord1 ord2 fetch (s, w) = (s1, w1)" by fastforce
  obtain es where "s1 = s\<lparr>sc_entries := es\<rparr>" using reconcile_same [OF r] by blast
  moreover obtain es' where "s' = s1\<lparr>sc_entries := es'\<rparr>" using Cons t r by fastforce
  ultimately show ?case by auto
qed

lemma runLoop_append: "runLoop E (ts @ ts') sw = runLoop E ts' (runLoop E ts sw)"
  by (induction E ts sw rule: runLoop.induct) simp_all

text \<open>The providers that the rounds have fetched.\<close>

definition fetched :: "string \<Rightarrow> tick list \<Rightarrow> Provider list" where
  "fetched kind ts = concat (map (\<lambda>(ord1, ord2, fetch). fst (fetch kind)) ts)"

lemma fetched_simps [simp]:
  "fetched kind [] = []" "fetched kind ((ord1, ord2, fetch) # ts) = fst (fetch kind) @ fetched kind ts"
  "fetched kind (ts @ ts') = fetched kind ts @ fetched kind ts'"
  by (simp_all add: fetched_def)

lemma immediate_poll_entries [simp]: "immediate_poll (s\<lparr>sc_entries := es\<rparr>) = immediate_poll s"
  by (intro ext) (simp add: immediate_poll_def split: option.split)

lemma runLoop_keeps:
  assumes "keeps P Q s" and "P w" and "\<forall>p \<in> set (fetched (sc_kind s) ts). Q p" and "runLoop E ts (s, w) = (s', w')"
  shows "P w'"
  using assms
proof (induction ts arbitrary: s w)
  case (Cons t ts)
  obtain ord1 ord2 fetch where t: "t = (ord1, ord2, fetch)" by (cases t)
  obtain s1 w1 where r: "reconcile E ord1 ord2 fetch (s, w) = (s1, w1)" by fastforce
  obtain es where s1: "s1 = s\<lparr>sc_entries := es\<rparr>" using reconcile_same [OF r] by blast
  have "keeps P Q s1" using Cons.prems(1) s1 by (simp add: keeps_def)
  moreover have "P w1" using reconcile_keeps [OF Cons.prems(1,2), of fetch E ord1 ord2] Cons.prems(3) r t by simp
  ultimately show ?case using Cons.IH [of s1 w1] Cons.prems(3,4) r t s1 by simp
qed simp

subsection \<open>Convergence\<close>

text \<open>
  Asynq is up in a set of worlds: there registering succeeds for every specification that it
  accepts, unregistering succeeds for what is registered, and it stays up.
\<close>

definition asynq_up :: "('w \<Rightarrow> bool) \<Rightarrow> (string \<Rightarrow> bool) \<Rightarrow> 'w Scheduler \<Rightarrow> 'w registrations \<Rightarrow> bool" where
  "asynq_up up valid s reg \<longleftrightarrow> keeps up (\<lambda>p. True) s \<and>
     (\<forall>c t os w. up w \<and> valid c \<longrightarrow> (\<exists>i w'. aq_Register (sc_asynq s) c t os w = (Inr i, w'))) \<and>
     (\<forall>i w. up w \<and> reg w i \<noteq> None \<longrightarrow> fst (aq_Unregister (sc_asynq s) i w) = None)"

lemma up_keeps: "asynq_up up valid s reg \<Longrightarrow> keeps up (\<lambda>p. True) s"
  by (simp add: asynq_up_def)

lemma up_Unregister:
  assumes "asynq_up up valid s reg" and "sched_inv E s reg (es, w)" and "up w" and "map_of es k = Some e"
  obtains w' where "aq_Unregister (sc_asynq s) (re_entryID e) w = (None, w')" and "up w'"
proof -
  have "reg w (re_entryID e) \<noteq> None" using sched_invD(2) [OF assms(2,4)] by (auto simp: entry_ok_def)
  then obtain w' where "aq_Unregister (sc_asynq s) (re_entryID e) w = (None, w')"
    using assms(1,3) unfolding asynq_up_def by (metis eq_fst_iff)
  then show ?thesis using keeps_call(2) [OF up_keeps [OF assms(1)] assms(3)] that by blast
qed

lemma unregister_stale_up:
  assumes "asynq_up up valid s reg" and "sched_inv E s reg (es, w)" and "up w"
  shows "map_of (fst (unregister_stale (sc_asynq s) d k (es, w))) =
           (if map_of d k = None then (map_of es)(k := None) else map_of es)"
proof (cases "map_of es k")
  case None
  then show ?thesis by (auto simp: unregister_stale_def)
next
  case (Some e)
  from assms Some obtain w' where "aq_Unregister (sc_asynq s) (re_entryID e) w = (None, w')"
    by (rule up_Unregister)
  then show ?thesis using Some by (simp add: unregister_stale_def AList.delete_conv')
qed

lemma stale_fold:
  assumes "asynq_laws s reg" and "asynq_up up valid s reg" and "sched_inv E s reg st" and "up (snd st)"
  shows "map_of (fst (fold (unregister_stale (sc_asynq s) d) ks st)) =
           (\<lambda>k. if k \<in> set ks \<and> map_of d k = None then None else map_of (fst st) k)"
  using assms(3,4)
proof (induction ks arbitrary: st)
  case (Cons k ks)
  obtain es w where st: "st = (es, w)" by fastforce
  let ?st = "unregister_stale (sc_asynq s) d k st"
  have "sched_inv E s reg ?st" using unregister_stale_inv [OF assms(1)] Cons.prems st by simp
  moreover have "up (snd ?st)" by (rule unregister_stale_keeps [OF up_keeps [OF assms(2)] Cons.prems(2)])
  ultimately show ?case
    using Cons.IH [of ?st] unregister_stale_up [OF assms(2)] Cons.prems st by (auto simp: fun_eq_iff)
qed simp

lemma register_new_other: "k' \<noteq> k \<Longrightarrow> map_of (fst (register_new E s k p c h (es, w))) k' = map_of es k'"
  by (simp add: register_new_def AList.update_conv' split: prod.splits sum.splits)

lemma register_changed_other:
  "k' \<noteq> k \<Longrightarrow> map_of (fst (register_changed E s d k (es, w))) k' = map_of es k'"
  by (auto simp: register_changed_def Let_def register_new_other AList.delete_conv'
      split: prod.splits option.splits)

definition settled :: "sched_env \<Rightarrow> string \<Rightarrow> Provider \<Rightarrow> string \<Rightarrow> entry_table \<Rightarrow> bool" where
  "settled E c p k es \<longleftrightarrow> (\<exists>e. map_of es k = Some e \<and> re_hash e = configHash (se_sha256 E) c (pv_Config p))"

lemma register_new_up:
  assumes "asynq_up up valid s reg" and "up w" and "valid c" and "se_uuid E (pv_TenantID p) = None"
  shows "settled E c p k (fst (register_new E s k p c (configHash (se_sha256 E) c (pv_Config p)) (es, w)))"
proof -
  obtain body where b: "job_Wrap (se_uuid E) (pv_TenantID p) (Inr (buildPayload p)) = Inr body"
    using assms(4) by (simp add: job_Wrap_def WrapWithRequestID_def del: json_print.simps)
  obtain i w' where "aq_Register (sc_asynq s) c \<lparr>task_Type = sc_taskType s, task_Payload = body\<rparr>
      [QueueOption (sc_queue s)] w = (Inr i, w')"
    using assms(1-3) unfolding asynq_up_def by blast
  then show ?thesis using b by (simp add: register_new_def registerOne_def settled_def AList.update_conv')
qed

lemma register_changed_settled:
  assumes "map_of d k = Some p" and "sc_deriveCron s p = (c, True)" and "settled E c p k es"
  shows "register_changed E s d k (es, w) = (es, w)"
  using assms by (auto simp: register_changed_def settled_def)

lemma register_changed_up:
  assumes "asynq_up up valid s reg" and "sched_inv E s reg (es, w)" and "up w" and "valid c"
    and "se_uuid E (pv_TenantID p) = None" and "map_of d k = Some p" and "sc_deriveCron s p = (c, True)"
  shows "settled E c p k (fst (register_changed E s d k (es, w)))"
proof (cases "map_of es k")
  case None
  then show ?thesis
    using assms(6,7) register_new_up [OF assms(1,3,4,5)] by (simp add: register_changed_def Let_def)
next
  case (Some e)
  from assms(1-3) Some obtain w' where "aq_Unregister (sc_asynq s) (re_entryID e) w = (None, w')" "up w'"
    by (rule up_Unregister)
  then show ?thesis
    using assms(6,7) Some register_new_up [OF assms(1) _ assms(4,5)]
    by (simp add: register_changed_def Let_def settled_def)
qed

lemma settled_fold:
  assumes "map_of d k = Some p" and "sc_deriveCron s p = (c, True)" and "settled E c p k (fst st)"
  shows "settled E c p k (fst (fold (register_changed E s d) ks st))"
proof (rule fold_inv [of "\<lambda>st. settled E c p k (fst st)", OF _ assms(3)])
  fix x and st :: "entry_table \<times> 'a" assume "settled E c p k (fst st)"
  then show "settled E c p k (fst (register_changed E s d x st))"
    using register_changed_settled [OF assms(1,2)] register_changed_other [of k x E s d]
    by (cases st; cases "x = k") (auto simp: settled_def)
qed

lemma register_fold:
  assumes "asynq_laws s reg" and "asynq_up up valid s reg" and "sched_inv E s reg st" and "up (snd st)" and "valid c"
    and "se_uuid E (pv_TenantID p) = None" and "k \<in> set ks"
    and "map_of (desired_rows rows) k = Some p" and "sc_deriveCron s p = (c, True)"
  shows "settled E c p k (fst (fold (register_changed E s (desired_rows rows)) ks st))"
  using assms(3,4,7)
proof (induction ks arbitrary: st)
  case (Cons x ks)
  obtain es w where st: "st = (es, w)" by fastforce
  let ?st = "register_changed E s (desired_rows rows) x st"
  have inv: "sched_inv E s reg ?st" using register_changed_inv [OF assms(1)] Cons.prems(1) st by simp
  have up: "up (snd ?st)" by (rule register_changed_keeps [OF up_keeps [OF assms(2)] Cons.prems(2)]) simp
  show ?case
  proof (cases "x = k")
    case True
    then have "settled E c p k (fst ?st)"
      using register_changed_up [OF assms(2) _ _ assms(5,6,8,9)] Cons.prems(1,2) st by simp
    from settled_fold [OF assms(8,9) this] show ?thesis by simp
  next
    case False
    with Cons.prems(3) have "k \<in> set ks" by simp
    from Cons.IH [OF inv up this] show ?thesis by simp
  qed
qed simp

lemma register_fold_other:
  assumes "\<And>p c. map_of d k = Some p \<Longrightarrow> sc_deriveCron s p \<noteq> (c, True)"
  shows "map_of (fst (fold (register_changed E s d) ks st)) k = map_of (fst st) k"
proof (rule fold_inv [of "\<lambda>st'. map_of (fst st') k = map_of (fst st) k"])
  fix x and st' :: "entry_table \<times> 'a" assume a: "map_of (fst st') k = map_of (fst st) k"
  obtain es w where st: "st' = (es, w)" by fastforce
  have "register_changed E s d k (es, w) = (es, w)"
    using assms by (auto simp: register_changed_def split: option.splits prod.splits)
  then show "map_of (fst (register_changed E s d x st')) k = map_of (fst st) k"
    using a st register_changed_other [of k x E s d] by (cases "x = k") auto
qed simp

text \<open>The first loop of a round while asynq is up, and then the round.\<close>

lemma stale_loop_up:
  fixes d :: "(string \<times> Provider) list"
  assumes "asynq_laws s reg" and "asynq_up up valid s reg" and "sched_inv E s reg (sc_entries s, w)" and "up w"
    and "range_order ord1"
  defines "st1 \<equiv> fold (unregister_stale (sc_asynq s) d) (ord1 (map fst (sc_entries s))) (sc_entries s, w)"
  shows "sched_inv E s reg st1" and "up (snd st1)"
    and "map_of (fst st1) k = (if map_of d k = None then None else map_of (sc_entries s) k)"
proof -
  show "sched_inv E s reg st1"
    unfolding st1_def
  proof (rule fold_inv [of "sched_inv E s reg", OF _ assms(3)])
    fix k st assume "sched_inv E s reg st"
    then show "sched_inv E s reg (unregister_stale (sc_asynq s) d k st)"
      using unregister_stale_inv [OF assms(1)] by (cases st) simp
  qed
  show "up (snd st1)"
    unfolding st1_def
    by (rule fold_inv [of "\<lambda>st. up (snd st)"]) (use assms(4) unregister_stale_keeps [OF up_keeps [OF assms(2)]] in auto)
  have "set (ord1 (map fst (sc_entries s))) = fst ` set (sc_entries s)"
    using assms(5) sched_invD(1) [OF assms(3)] by (simp add: range_order_def)
  then show "map_of (fst st1) k = (if map_of d k = None then None else map_of (sc_entries s) k)"
    using stale_fold [OF assms(1-3), of d "ord1 (map fst (sc_entries s))"] assms(4)
    by (auto simp: st1_def map_of_eq_None_iff)
qed

lemma reconcile_up:
  assumes "asynq_laws s reg" and "asynq_up up valid s reg" and "sched_inv E s reg (sc_entries s, w)" and "up w"
    and "range_order ord1" and "range_order ord2" and "fetch (sc_kind s) = (rows, None)"
    and "\<And>p. p \<in> set rows \<Longrightarrow> se_uuid E (pv_TenantID p) = None"
    and "reconcile E ord1 ord2 fetch (s, w) = (s', w')"
  shows "case map_of (desired_rows rows) k of
           None \<Rightarrow> map_of (sc_entries s') k = None
         | Some p \<Rightarrow> (case sc_deriveCron s p of (c, ok) \<Rightarrow>
             if ok then valid c \<longrightarrow> settled E c p k (sc_entries s')
             else map_of (sc_entries s') k = map_of (sc_entries s) k)"
proof -
  let ?d = "desired_rows rows"
  let ?ks2 = "ord2 (map fst ?d)"
  let ?st1 = "fold (unregister_stale (sc_asynq s) ?d) (ord1 (map fst (sc_entries s))) (sc_entries s, w)"
  let ?st2 = "fold (register_changed E s ?d) ?ks2 ?st1"
  note st1 = stale_loop_up [OF assms(1-5), of ?d]
  have s': "sc_entries s' = fst ?st2" using assms(7,9) by (auto simp: reconcile_def Let_def case_prod_beta)
  have ks2: "set ?ks2 = fst ` set ?d" using assms(6) distinct_desired by (simp add: range_order_def)
  show ?thesis
  proof (cases "map_of ?d k")
    case None
    then show ?thesis using register_fold_other [of ?d k s E ?ks2 ?st1] st1(3) s' by simp
  next
    case (Some p)
    have u: "se_uuid E (pv_TenantID p) = None" by (rule assms(8) [OF desired_row [OF Some]])
    have k: "k \<in> set ?ks2" using ks2 Some by (force dest: map_of_SomeD)
    obtain c ok where c: "sc_deriveCron s p = (c, ok)" by fastforce
    show ?thesis
    proof (cases "ok")
      case True
      then show ?thesis
        using register_fold [OF assms(1,2) st1(1,2) _ u k Some] c s' Some by simp
    next
      case False
      have "map_of (fst ?st2) k = map_of (fst ?st1) k"
        by (rule register_fold_other) (use c False Some in auto)
      then show ?thesis using st1(3) s' c Some False by simp
    qed
  qed
qed

subsection \<open>Runs\<close>

lemma runLoop_inv:
  assumes "asynq_laws s reg" and "sched_inv E s reg (sc_entries s, w)" and "runLoop E ts (s, w) = (s', w')"
  shows "sched_inv E s reg (sc_entries s', w')"
  using assms
proof (induction ts arbitrary: s w)
  case (Cons t ts)
  obtain ord1 ord2 fetch where t: "t = (ord1, ord2, fetch)" by (cases t)
  obtain s1 w1 where r: "reconcile E ord1 ord2 fetch (s, w) = (s1, w1)" by fastforce
  from reconcile_inv [OF Cons.prems(1,2) r] obtain es where s1: "s1 = s\<lparr>sc_entries := es\<rparr>"
      "sched_inv E s reg (sc_entries s1, w1)" by blast
  have same: "sched_inv E s1 reg = sched_inv E s reg" "asynq_laws s1 reg"
    using Cons.prems(1) s1(1) by (simp_all add: sched_inv_def entry_ok_def asynq_laws_def)
  have "runLoop E ts (s1, w1) = (s', w')" using Cons.prems(3) t r by simp
  from Cons.IH [OF same(2) _ this] show ?case using same(1) s1(2) by simp
qed simp

text \<open>
  Every registration stems from a provider that some round has fetched. A deriver that
  accepts only such providers behaves the same in these rounds, so the invariant holds
  for it.
\<close>

definition restrict_cron :: "(Provider \<Rightarrow> bool) \<Rightarrow> 'w Scheduler \<Rightarrow> 'w Scheduler" where
  "restrict_cron Q s = s\<lparr>sc_deriveCron := (\<lambda>p. if Q p then sc_deriveCron s p else ([], False))\<rparr>"

lemma restrict_cron_sel [simp]:
  "sc_asynq (restrict_cron Q s) = sc_asynq s" "sc_kind (restrict_cron Q s) = sc_kind s"
  "sc_queue (restrict_cron Q s) = sc_queue s" "sc_taskType (restrict_cron Q s) = sc_taskType s"
  "sc_enqueuer (restrict_cron Q s) = sc_enqueuer s" "sc_entries (restrict_cron Q s) = sc_entries s"
  "sc_deriveCron (restrict_cron Q s) = (\<lambda>p. if Q p then sc_deriveCron s p else ([], False))"
  by (simp_all add: restrict_cron_def)

lemma restrict_cron_entries [simp]: "restrict_cron Q (s\<lparr>sc_entries := es\<rparr>) = (restrict_cron Q s)\<lparr>sc_entries := es\<rparr>"
  by (cases s) (simp add: restrict_cron_def cong: if_cong)

lemma register_changed_restrict:
  assumes "\<forall>p \<in> set rows. Q p"
  shows "register_changed E (restrict_cron Q s) (desired_rows rows) = register_changed E s (desired_rows rows)"
proof (intro ext)
  fix k ew
  have same: "registerOne E (restrict_cron Q s) = registerOne E s" "immediate_poll (restrict_cron Q s) = immediate_poll s"
    by (intro ext; simp add: registerOne_def immediate_poll_def split: sum.split option.split)+
  have "register_new E (restrict_cron Q s) = register_new E s"
    unfolding register_new_def [abs_def] same ..
  moreover have "Q p" if "map_of (desired_rows rows) k = Some p" for p
    using that assms unfolding map_of_desired by (auto dest!: map_of_SomeD)
  ultimately show "register_changed E (restrict_cron Q s) (desired_rows rows) k ew = register_changed E s (desired_rows rows) k ew"
    by (auto simp: register_changed_def Let_def split: option.splits prod.splits)
qed

lemma runLoop_restrict:
  assumes "\<forall>p \<in> set (fetched (sc_kind s) ts). Q p" and "runLoop E ts (s, w) = (s', w')"
  shows "runLoop E ts (restrict_cron Q s, w) = (restrict_cron Q s', w')"
  using assms
proof (induction ts arbitrary: s w)
  case (Cons t ts)
  obtain ord1 ord2 fetch where t: "t = (ord1, ord2, fetch)" by (cases t)
  obtain s1 w1 where r: "reconcile E ord1 ord2 fetch (s, w) = (s1, w1)" by fastforce
  have "\<forall>p \<in> set (fst (fetch (sc_kind s))). Q p" using Cons.prems(1) t by simp
  then have "reconcile E ord1 ord2 fetch (restrict_cron Q s, w) = (restrict_cron Q s1, w1)" and "sc_kind s1 = sc_kind s"
    using r by (auto simp: reconcile_def register_changed_restrict Let_def split: prod.splits option.splits)
  then show ?case using Cons t r by simp
qed simp

lemma restricted_inv:
  assumes "asynq_laws s reg" and "sc_entries s = []" and "reg w = Map.empty" and "runLoop E ts (s, w) = (s', w')"
  shows "sched_inv E (restrict_cron (\<lambda>p. p \<in> set (fetched (sc_kind s) ts)) s) reg (sc_entries s', w')"
proof -
  let ?Q = "\<lambda>p. p \<in> set (fetched (sc_kind s) ts)"
  have laws: "asynq_laws (restrict_cron ?Q s) reg" using assms(1) by (simp add: asynq_laws_def)
  have "sched_inv E (restrict_cron ?Q s) reg (sc_entries (restrict_cron ?Q s), w)"
    using assms(2,3) by (simp add: sched_inv_def)
  from runLoop_inv [OF laws this runLoop_restrict [OF _ assms(4)]] show ?thesis by simp
qed

lemma registered_provider:
  assumes "asynq_laws s reg" and "sc_entries s = []" and "reg w = Map.empty" and "runLoop E ts (s, w) = (s', w')"
    and "reg w' i = Some (cron, t, opts)"
  shows "\<exists>p body. p \<in> set (fetched (sc_kind s) ts) \<and> sc_deriveCron s p = (cron, True) \<and>
     job_Wrap (se_uuid E) (pv_TenantID p) (Inr (buildPayload p)) = Inr body \<and>
     t = \<lparr>task_Type = sc_taskType s, task_Payload = body\<rparr> \<and> opts = [QueueOption (sc_queue s)]"
proof -
  note inv = sched_invD [OF restricted_inv [OF assms(1-4)]]
  obtain k e where e: "map_of (sc_entries s') k = Some e" "re_entryID e = i" using inv(4) [of i] assms(5) by auto
  show ?thesis using inv(2) [OF e(1)] e(2) assms(5) by (auto simp: entry_ok_def split: if_splits)
qed

text \<open>
  The tasks that the immediate polls have submitted are observed with \<open>sub\<close>, for an enqueuer
  that is the client of \<^verbatim>\<open>jobqueue\<close>, whose tasks nothing else of asynq changes.
\<close>

definition submits_via :: "(string \<Rightarrow> go_error) \<Rightarrow> ('w \<Rightarrow> asynq_call list) \<Rightarrow> 'w Scheduler \<Rightarrow> bool" where
  "submits_via uuid sub s \<longleftrightarrow>
     (\<forall>c t os w. sub (snd (aq_Register (sc_asynq s) c t os w)) = sub w) \<and>
     (\<forall>i w. sub (snd (aq_Unregister (sc_asynq s) i w)) = sub w) \<and>
     (\<forall>enq. sc_enqueuer s = Some enq \<longrightarrow>
        (\<exists>send :: ctx \<Rightarrow> asynq_call \<Rightarrow> job_error + unit. \<exists>cl ctx. \<forall>ty tid p os w.
           sub (snd (enq ty tid p os w)) = sub w @ snd (client_Enqueue uuid send cl ctx ty tid p os)))"

lemma client_Enqueue_calls:
  "(t, opts) \<in> set (snd (client_Enqueue uuid send cl ctx ty tid p os)) \<Longrightarrow>
     \<exists>body. job_Wrap uuid tid p = Inr body \<and> t = \<lparr>task_Type = ty, task_Payload = body\<rparr> \<and> set os \<subseteq> set opts"
  by (auto simp: client_Enqueue_def NewTask_def Let_def split: sum.splits)

lemma enqueued_provider:
  assumes "submits_via (se_uuid E) sub s" and "sub w = []" and "runLoop E ts (s, w) = (s', w')"
    and "(t, opts) \<in> set (sub w')"
  shows "\<exists>p body. p \<in> set (fetched (sc_kind s) ts) \<and> snd (sc_deriveCron s p) \<and>
     job_Wrap (se_uuid E) (pv_TenantID p) (Inr (buildPayload p)) = Inr body \<and>
     t = \<lparr>task_Type = sc_taskType s, task_Payload = body\<rparr> \<and> QueueOption (sc_queue s) \<in> set opts"
proof -
  let ?Q = "\<lambda>p. p \<in> set (fetched (sc_kind s) ts)"
  define good where "good = (\<lambda>(t, opts). \<exists>p body. ?Q p \<and> snd (sc_deriveCron s p) \<and>
     job_Wrap (se_uuid E) (pv_TenantID p) (Inr (buildPayload p)) = Inr body \<and>
     t = \<lparr>task_Type = sc_taskType s, task_Payload = body\<rparr> \<and> QueueOption (sc_queue s) \<in> set opts)"
  let ?P = "\<lambda>w. \<forall>x \<in> set (sub w). good x"
  have "?P (immediate_poll s p w)" if "?Q p" "snd (sc_deriveCron s p)" "?P w" for p w
  proof (cases "sc_enqueuer s")
    case (Some enq)
    then obtain send :: "ctx \<Rightarrow> asynq_call \<Rightarrow> job_error + unit" and cl ctx where sub:
        "sub (snd (enq ty tid p os w)) = sub w @ snd (client_Enqueue (se_uuid E) send cl ctx ty tid p os)" for ty tid p os w
      using assms(1) unfolding submits_via_def by blast
    show ?thesis
      using that Some by (fastforce simp: immediate_poll_def sub good_def dest: client_Enqueue_calls)
  qed (use that in \<open>simp add: immediate_poll_def\<close>)
  moreover have "sub (snd (aq_Register (sc_asynq s) c t os w)) = sub w" "sub (snd (aq_Unregister (sc_asynq s) i w)) = sub w"
    for c t os i w using assms(1) by (simp_all add: submits_via_def)
  ultimately have "keeps ?P ?Q s" unfolding keeps_def by auto
  from runLoop_keeps [OF this _ _ assms(3)] have "?P w'" using assms(2) by simp
  then show ?thesis using assms(4) by (fastforce simp: good_def)
qed

subsection \<open>A concrete scheduler\<close>

text \<open>
  A scheduler back end that keeps its registrations in a list; the id of a
  registration is its position in unary.
\<close>

type_synonym demo_world = "(string \<times> job_task \<times> asynq_option list) option list"

definition demo_id :: "nat \<Rightarrow> string" where
  "demo_id n = replicate n CHR ''i''"

definition demo_reg :: "demo_world registrations" where
  "demo_reg w i = (if i = demo_id (length i) \<and> length i < length w then w ! length i else None)"

definition demo_asynq :: "demo_world Asynq" where
  "demo_asynq = \<lparr>aq_Register = (\<lambda>c t os w. (Inr (demo_id (length w)), w @ [Some (c, t, os)])),
     aq_Unregister = (\<lambda>i w. (None, if i = demo_id (length i) then w[length i := None] else w)),
     aq_Start = (\<lambda>w. (None, w)), aq_Shutdown = (\<lambda>w. w)\<rparr>"

definition demo_scheduler :: "demo_world Scheduler" where
  "demo_scheduler = scheduler_New demo_asynq ''collector'' ''scheduler'' ''scheduler:provider-sync''
     (\<lambda>p. (''@hourly'', pv_Name p \<noteq> ''manual'')) []"

definition demo_provider :: Provider where
  "demo_provider = \<lparr>pv_TenantID = ''t1'', pv_Name = ''fitbit'', pv_Config = Inr (JObj [])\<rparr>"

definition demo_sched_env :: sched_env where
  "demo_sched_env = \<lparr>se_uuid = (\<lambda>_. None), se_sha256 = (\<lambda>s. s)\<rparr>"

lemma demo_id_inject [simp]: "demo_id m = demo_id n \<longleftrightarrow> m = n" "length (demo_id n) = n"
  by (auto simp: demo_id_def replicate_eq_replicate)

lemma demo_reg_append: "demo_reg (w @ [Some x]) = (demo_reg w)(demo_id (length w) \<mapsto> x)"
proof
  fix i
  show "demo_reg (w @ [Some x]) i = ((demo_reg w)(demo_id (length w) \<mapsto> x)) i"
    by (cases "length i = length w") (auto simp: demo_reg_def nth_append)
qed

lemma demo_reg_remove:
  "demo_reg (if i = demo_id (length i) then w[length i := None] else w) = (demo_reg w)(i := None)"
proof
  fix j
  show "demo_reg (if i = demo_id (length i) then w[length i := None] else w) j = ((demo_reg w)(i := None)) j"
  proof (cases "j = i")
    case False
    then have "length j \<noteq> length i" if "i = demo_id (length i)" "j = demo_id (length j)" using that by metis
    with False show ?thesis by (auto simp: demo_reg_def)
  qed (auto simp: demo_reg_def)
qed

lemma demo_scheduler_sel [simp]:
  "sc_asynq demo_scheduler = demo_asynq" "sc_entries demo_scheduler = []" "sc_enqueuer demo_scheduler = None"
  "sc_kind demo_scheduler = ''collector''" "sc_queue demo_scheduler = ''scheduler''"
  "sc_deriveCron demo_scheduler = (\<lambda>p. (''@hourly'', pv_Name p \<noteq> ''manual''))"
  by (simp_all add: demo_scheduler_def scheduler_New_def)

lemma demo_laws: "asynq_laws demo_scheduler demo_reg" "asynq_up (\<lambda>w. True) (\<lambda>c. True) demo_scheduler demo_reg"
proof -
  have fresh: "demo_reg w (demo_id (length w)) = None" for w by (simp add: demo_reg_def)
  show "asynq_laws demo_scheduler demo_reg"
    unfolding asynq_laws_def
    by (simp add: demo_asynq_def fresh demo_reg_append demo_reg_remove del: if_split_asm split del: if_split)
  show "asynq_up (\<lambda>w. True) (\<lambda>c. True) demo_scheduler demo_reg" by (simp add: asynq_up_def keeps_def demo_asynq_def)
qed

lemma demo_reg_empty: "demo_reg [] = Map.empty"
  by (simp add: fun_eq_iff demo_reg_def)

lemma demo_start: "sched_inv E demo_scheduler demo_reg (sc_entries demo_scheduler, [])"
  by (simp add: sched_inv_def demo_reg_def)

abbreviation demo_fetch :: "string \<Rightarrow> Provider list \<times> go_error" where
  "demo_fetch \<equiv> (\<lambda>kind. ([demo_provider], None))"

definition demo_round :: "demo_world Scheduler \<times> demo_world" where
  "demo_round = reconcile demo_sched_env (\<lambda>ks. ks) rev demo_fetch (demo_scheduler, [])"

section \<open>Properties\<close>

text \<open>
  C6. The scheduler never loses track of what it registered: after any number of
  reconcile rounds, whatever the fetches and the calls of asynq return, every live
  registration belongs to exactly one entry of the table, and every entry is
  registered with the cron specification and hash of a provider of its key and with
  the envelope of that provider as task.
\<close>

theorem registrations_tracked:
  assumes "asynq_laws s reg" and "sc_entries s = []" and "reg w = Map.empty"
    and "runLoop E ts (s, w) = (s', w')"
  shows "(\<forall>i r. reg w' i = Some r \<longrightarrow> (\<exists>!k. \<exists>e. map_of (sc_entries s') k = Some e \<and> re_entryID e = i)) \<and>
         (\<forall>k e. map_of (sc_entries s') k = Some e \<longrightarrow> entry_ok E s reg w' k e)"
proof -
  have "sched_inv E s reg (sc_entries s, w)" using assms(2,3) by (simp add: sched_inv_def)
  note inv = sched_invD [OF runLoop_inv [OF assms(1) this assms(4)]]
  show ?thesis
  proof (intro conjI allI impI)
    fix i r assume "reg w' i = Some r"
    then show "\<exists>!k. \<exists>e. map_of (sc_entries s') k = Some e \<and> re_entryID e = i"
      using inv(3) inv(4) [of i] by (metis option.distinct(1))
  qed (rule inv(2))
qed

theorem registrations_tracked_witness:
  "\<exists>e. map_of (sc_entries (fst demo_round)) ''t1:fitbit'' = Some e \<and>
     entry_ok demo_sched_env demo_scheduler demo_reg (snd demo_round) ''t1:fitbit'' e"
proof -
  have "runLoop demo_sched_env [((\<lambda>ks. ks), rev, demo_fetch)] (demo_scheduler, []) = (fst demo_round, snd demo_round)"
    by (simp add: demo_round_def)
  from registrations_tracked [OF demo_laws(1) _ _ this]
  have "entry_ok demo_sched_env demo_scheduler demo_reg (snd demo_round) k e"
    if "map_of (sc_entries (fst demo_round)) k = Some e" for k e
    using that by (simp add: demo_reg_def fun_eq_iff)
  moreover have "\<exists>e. map_of (sc_entries (fst demo_round)) ''t1:fitbit'' = Some e"
    using reconcile_up [OF demo_laws demo_start TrueI range_order_id range_order_rev, of demo_fetch "[demo_provider]"
        demo_sched_env "fst demo_round" "snd demo_round" "''t1:fitbit''"]
    by (auto simp: demo_round_def desired_rows_def sched_key_def demo_provider_def demo_sched_env_def settled_def)
  ultimately show ?thesis by blast
qed

text \<open>
  C16. Reconciliation reaches its goal in one round: after any earlier rounds, with any
  failures, a round that fetches its rows while asynq is up registers every row whose
  schedule can be derived and is one that asynq accepts, with exactly that schedule, and
  leaves no entry for a key without a row. A row whose schedule can no longer be
  derived keeps whatever was registered for it before. The tenants of the rows are UUIDs,
  schedules contain no NUL, and SHA-256 separates the finitely many texts that the
  rounds have hashed.
\<close>

theorem reconcile_converges:
  assumes "asynq_laws s0 reg" and "sc_entries s0 = []" and "reg w0 = Map.empty" and "runLoop E ts (s0, w0) = (s, w)"
    and "asynq_up up valid s0 reg" and "up w"
    and "range_order ord1" and "range_order ord2" and "fetch (sc_kind s0) = (rows, None)"
    and "\<And>p. p \<in> set rows \<Longrightarrow> se_uuid E (pv_TenantID p) = None"
    and "inj_on (se_sha256 E) ((\<lambda>p. hash_input (fst (sc_deriveCron s0 p)) (pv_Config p)) ` set (fetched (sc_kind s0) ts @ rows))"
    and "\<And>p. p \<in> set (fetched (sc_kind s0) ts @ rows) \<Longrightarrow> CHR 0x00 \<notin> set (fst (sc_deriveCron s0 p))"
    and "reconcile E ord1 ord2 fetch (s, w) = (s', w')"
  shows "(\<forall>p c. map_of (desired_rows rows) k = Some p \<and> sc_deriveCron s0 p = (c, True) \<and> valid c \<longrightarrow>
            (\<exists>e t. map_of (sc_entries s') k = Some e \<and>
               reg w' (re_entryID e) = Some (c, t, [QueueOption (sc_queue s0)]))) \<and>
         (map_of (desired_rows rows) k = None \<longrightarrow> map_of (sc_entries s') k = None) \<and>
         (\<forall>p c. map_of (desired_rows rows) k = Some p \<and> sc_deriveCron s0 p = (c, False) \<longrightarrow>
            map_of (sc_entries s') k = map_of (sc_entries s) k)"
proof -
  let ?ps = "fetched (sc_kind s0) ts @ rows" and ?text = "\<lambda>p. hash_input (fst (sc_deriveCron s0 p)) (pv_Config p)"
  obtain es where same: "s = s0\<lparr>sc_entries := es\<rparr>" using runLoop_same [OF assms(4)] by blast
  have start: "sched_inv E s0 reg (sc_entries s0, w0)" using assms(2,3) by (simp add: sched_inv_def)
  have inv: "sched_inv E s reg (sc_entries s, w)"
    using runLoop_inv [OF assms(1) start assms(4)] same by (auto simp: sched_inv_def entry_ok_def)
  have laws: "asynq_laws s reg" "asynq_up up valid s reg"
    using assms(1,5) by (simp_all add: same asynq_laws_def asynq_up_def keeps_def)
  have f: "fetch (sc_kind s) = (rows, None)" using assms(9) same by auto
  have up: "case map_of (desired_rows rows) k of
      None \<Rightarrow> map_of (sc_entries s') k = None
    | Some p \<Rightarrow> (case sc_deriveCron s p of (c, ok) \<Rightarrow>
        if ok then valid c \<longrightarrow> settled E c p k (sc_entries s') else map_of (sc_entries s') k = map_of (sc_entries s) k)"
    by (rule reconcile_up [OF laws inv assms(6-8) f assms(10,13)])
  have all: "runLoop E (ts @ [(ord1, ord2, fetch)]) (s0, w0) = (s', w')" using assms(4,13) by (simp add: runLoop_append)
  have ps: "fetched (sc_kind s0) (ts @ [(ord1, ord2, fetch)]) = ?ps" using assms(9) by simp
  note inv' = sched_invD [OF restricted_inv [OF assms(1-3) all, unfolded ps]]
  have "\<exists>e t. map_of (sc_entries s') k = Some e \<and> reg w' (re_entryID e) = Some (c, t, [QueueOption (sc_queue s0)])"
    if p: "map_of (desired_rows rows) k = Some p" "sc_deriveCron s0 p = (c, True)" "valid c" for p c
  proof -
    obtain e where e: "map_of (sc_entries s') k = Some e" "re_hash e = configHash (se_sha256 E) c (pv_Config p)"
      using up p same by (auto simp: settled_def)
    from inv'(2) [OF e(1)] obtain p' t where p': "p' \<in> set ?ps" "sc_deriveCron s0 p' = (re_cronspec e, True)"
        "re_hash e = configHash (se_sha256 E) (re_cronspec e) (pv_Config p')"
        "reg w' (re_entryID e) = Some (re_cronspec e, t, [QueueOption (sc_queue s0)])"
      by (auto simp: entry_ok_def split: if_splits)
    have row: "p \<in> set ?ps" using desired_row [OF p(1)] by simp
    have "?text p' = ?text p"
      using e(2) p'(2,3) p(2) by (intro inj_onD [OF assms(11) _ imageI [OF p'(1)] imageI [OF row]]) (simp add: configHash_inject)
    then have "re_cronspec e = c"
      using assms(12) [OF p'(1)] assms(12) [OF row] p(2) p'(2) by (auto simp: hash_input_def sep_inject)
    with p'(4) e(1) show ?thesis by blast
  qed
  then show ?thesis using up same by (auto split: option.splits)
qed

theorem reconcile_converges_witness:
  "\<exists>e t. map_of (sc_entries (fst demo_round)) ''t1:fitbit'' = Some e \<and>
     demo_reg (snd demo_round) (re_entryID e) = Some (''@hourly'', t, [QueueOption ''scheduler''])"
proof -
  have "reconcile demo_sched_env (\<lambda>ks. ks) rev demo_fetch (demo_scheduler, []) = (fst demo_round, snd demo_round)"
    by (simp add: demo_round_def)
  note r = reconcile_converges [OF demo_laws(1) _ _ _ demo_laws(2) TrueI range_order_id range_order_rev _ _ _ _ this,
      of "[]" "[]" "[demo_provider]" "''t1:fitbit''"]
  have "map_of (desired_rows [demo_provider]) ''t1:fitbit'' = Some demo_provider"
    by (simp add: desired_rows_def sched_key_def demo_provider_def)
  with r show ?thesis by (simp add: demo_sched_env_def demo_provider_def demo_reg_empty)
qed

text \<open>
  Reconciliation is idempotent: once a round has succeeded, further rounds over the
  same rows, with schedules that asynq accepts, change no entry and make no call to asynq or the enqueuer, in whatever
  order the maps are visited.
\<close>

lemma reconcile_idempotent:
  assumes "asynq_laws s reg" and "asynq_up up valid s reg" and "sched_inv E s reg (sc_entries s, w)" and "up w"
    and "range_order ord1" and "range_order ord2" and "fetch (sc_kind s) = (rows, None)"
    and "\<And>p. p \<in> set rows \<Longrightarrow> se_uuid E (pv_TenantID p) = None"
    and "reconcile E ord1 ord2 fetch (s, w) = (s', w')"
    and "\<And>p. p \<in> set rows \<Longrightarrow> valid (fst (sc_deriveCron s p))"
  shows "reconcile E ord3 ord4 fetch (s', w') = (s', w')"
proof -
  let ?d = "desired_rows rows"
  note round = reconcile_up [OF assms(1-9)]
  from reconcile_inv [OF assms(1,3,9)] obtain es where s': "s' = s\<lparr>sc_entries := es\<rparr>" by blast
  have fix_fold: "fold f ks st = st" if "\<And>k. k \<in> set ks \<Longrightarrow> f k st = st"
    for f :: "string \<Rightarrow> entry_table \<times> 'a \<Rightarrow> entry_table \<times> 'a" and ks st
    using that by (induction ks) auto
  have 1: "unregister_stale (sc_asynq s') ?d k (es, w') = (es, w')" for k
    using round [of k] s' by (auto simp: unregister_stale_def split: option.splits)
  have 2: "register_changed E s' ?d k (es, w') = (es, w')" for k
  proof (cases "map_of ?d k")
    case (Some p)
    obtain c ok where c: "sc_deriveCron s' p = (c, ok)" by fastforce
    show ?thesis
    proof (cases ok)
      case True
      then show ?thesis
        using round [of k] Some c s' assms(10) [OF desired_row [OF Some]]
          register_changed_settled [of ?d k p s' c E es w'] by simp
    qed (use Some c in \<open>simp add: register_changed_def\<close>)
  qed (simp add: register_changed_def)
  show ?thesis
    using assms(7) s' fix_fold [of _ "unregister_stale (sc_asynq s') ?d" "(es, w')"]
      fix_fold [of _ "register_changed E s' ?d" "(es, w')"] 1 2
    by (simp add: reconcile_def)
qed

lemma reconcile_idempotent_witness:
  "reconcile demo_sched_env rev rev demo_fetch demo_round = demo_round"
proof -
  have "reconcile demo_sched_env (\<lambda>ks. ks) rev demo_fetch (demo_scheduler, []) = (fst demo_round, snd demo_round)"
    by (simp add: demo_round_def)
  from reconcile_idempotent [OF demo_laws demo_start TrueI range_order_id range_order_rev _ _ this, of "[demo_provider]" rev rev]
  show ?thesis by (simp add: demo_sched_env_def)
qed

lemma sched_Entries_keys: "set (sched_Entries s) = dom (map_of (sc_entries s)) \<and> sorted (sched_Entries s)"
  by (simp add: sched_Entries_def dom_map_of_conv_image_fst)

end
