(* ===== verification/Settings.thy ===== *)
theory Settings
  imports Go_Maps
begin

text \<open>
  Package \<^verbatim>\<open>settings\<close> (\<^verbatim>\<open>src/settings/manager.go\<close>): the in-memory copy of the table
  \<^verbatim>\<open>app_settings\<close>, its live updates by polling or by messages, its listeners and its
  file on disk.

  Times are counted from Go's zero time, so \<open>0\<close> is the zero value of \<^verbatim>\<open>time.Time\<close>. The
  results of queries are parameters; \<open>select_settings\<close> and \<open>select_since\<close> say what the
  queries select from a table. A listener is known by its number, and the
  operations return the calls of listeners in order. Of the file system only the
  two paths the package uses matter: a map from paths to contents, with the
  outcome of each call as a parameter.
\<close>

section \<open>Model\<close>

subsection \<open>The manager\<close>

definition BackendPostgres :: string where "BackendPostgres = ''postgres''"
definition BackendRedis :: string where "BackendRedis = ''redis''"

type_synonym notification = "nat \<times> string \<times> string"

record Manager =
  mg_cache :: "(string \<times> string) list"
  mg_listeners :: "string \<Rightarrow> nat list"
  mg_cachePath :: string
  mg_db :: bool
  mg_valkey :: "string option"
  mg_tenantID :: string
  mg_service :: string
  mg_pollInterval :: duration
  mg_pollLastSeen :: time
  mg_backend :: string
  mg_stopped :: bool

record settings_config =
  st_Pool :: bool
  st_TenantID :: string
  st_Service :: string
  st_CachePath :: string
  st_ValkeyAddr :: string
  st_PollInterval :: duration

definition empty_manager :: "bool \<Rightarrow> Manager" where
  "empty_manager db = \<lparr>mg_cache = [], mg_listeners = (\<lambda>_. []), mg_cachePath = [], mg_db = db, mg_valkey = None,
     mg_tenantID = [], mg_service = [], mg_pollInterval = 0, mg_pollLastSeen = 0, mg_backend = [], mg_stopped = False\<rparr>"

definition WithValkey :: "string \<Rightarrow> Manager \<Rightarrow> Manager" where
  "WithValkey addr m = m\<lparr>mg_valkey := Some addr\<rparr>"

definition WithCache :: "string \<Rightarrow> Manager \<Rightarrow> Manager" where
  "WithCache path m = m\<lparr>mg_cachePath := path\<rparr>"

definition WithService :: "string \<Rightarrow> Manager \<Rightarrow> Manager" where
  "WithService name m = m\<lparr>mg_service := name\<rparr>"

definition WithTenantID :: "string \<Rightarrow> Manager \<Rightarrow> Manager" where
  "WithTenantID i m = m\<lparr>mg_tenantID := i\<rparr>"

definition settings_WithPollInterval :: "duration \<Rightarrow> Manager \<Rightarrow> Manager" where
  "settings_WithPollInterval d m = m\<lparr>mg_pollInterval := d\<rparr>"

definition default_poll :: "Manager \<Rightarrow> Manager" where
  "default_poll m = (if mg_pollInterval m = 0 then m\<lparr>mg_pollInterval := 5 * second\<rparr> else m)"

definition settings_New :: "bool \<Rightarrow> (Manager \<Rightarrow> Manager) list \<Rightarrow> Manager" where
  "settings_New db opts =
     (let m = fold (\<lambda>f m. f m) opts (empty_manager db);
          m = (if mg_backend m = []
               then m\<lparr>mg_backend := (if mg_valkey m \<noteq> None then BackendRedis else BackendPostgres)\<rparr> else m)
      in default_poll m)"

definition backendFromEnv :: "string \<Rightarrow> string + string" where
  "backendFromEnv v =
     (if v = [] then Inr BackendPostgres
      else if v = BackendPostgres \<or> v = BackendRedis then Inr v
      else Inl (''unknown backend '' @ go_quote v))"

definition NewFromConfig :: "string \<Rightarrow> settings_config \<Rightarrow> Manager" where
  "NewFromConfig env cfg =
     (let backend = (case backendFromEnv env of Inl err \<Rightarrow> BackendPostgres | Inr b \<Rightarrow> b);
          m = (empty_manager (st_Pool cfg))\<lparr>mg_tenantID := st_TenantID cfg, mg_service := st_Service cfg,
                mg_cachePath := st_CachePath cfg, mg_pollInterval := st_PollInterval cfg, mg_backend := backend\<rparr>;
          m = default_poll m
      in if backend = BackendRedis \<and> st_ValkeyAddr cfg \<noteq> []
         then m\<lparr>mg_valkey := Some (st_ValkeyAddr cfg)\<rparr> else m)"

definition settings_Get :: "Manager \<Rightarrow> string \<Rightarrow> string" where
  "settings_Get m k = (case map_of (mg_cache m) k of None \<Rightarrow> [] | Some v \<Rightarrow> v)"

definition GetAll :: "Manager \<Rightarrow> (string \<times> string) list" where
  "GetAll m = map_assign (mg_cache m) []"

definition OnChange :: "string \<Rightarrow> nat \<Rightarrow> Manager \<Rightarrow> Manager" where
  "OnChange k fn m = m\<lparr>mg_listeners := (mg_listeners m)(k := mg_listeners m k @ [fn])\<rparr>"

definition ApplyChange :: "string \<Rightarrow> string \<Rightarrow> Manager \<Rightarrow> notification list \<times> Manager" where
  "ApplyChange k v m =
     (map (\<lambda>fn. (fn, k, v)) (mg_listeners m k), m\<lparr>mg_cache := AList.update k v (mg_cache m)\<rparr>)"

subsection \<open>Rows\<close>

record setting_row =
  sr_key :: string
  sr_value_json :: string
  sr_is_secret :: bool
  sr_updated_at :: time

definition select_settings :: "setting_row list \<Rightarrow> setting_row rows" where
  "select_settings tbl = Rows (map Inr tbl) None"

definition select_since :: "setting_row list \<Rightarrow> time \<Rightarrow> setting_row rows" where
  "select_since tbl since =
     Rows (map Inr (sort_key sr_updated_at (filter (\<lambda>r. sr_updated_at r > since) tbl))) None"

text \<open>
  \<^verbatim>\<open>json.Unmarshal\<close> into a string: a JSON string gives its value and null the empty
  string; any other text is kept as it is.
\<close>

definition setting_value :: "string \<Rightarrow> string" where
  "setting_value valueJSON =
     (case json_parse valueJSON of
        Some (JStr s) \<Rightarrow> s
      | Some JNull \<Rightarrow> []
      | _ \<Rightarrow> valueJSON)"

fun load_rows :: "(string + setting_row) list \<Rightarrow> Manager \<Rightarrow> Manager" where
  "load_rows [] m = m"
| "load_rows (Inl err # rs) m = load_rows rs m"
| "load_rows (Inr r # rs) m =
     (let m = (if sr_updated_at r > mg_pollLastSeen m then m\<lparr>mg_pollLastSeen := sr_updated_at r\<rparr> else m)
      in load_rows rs
           (if sr_is_secret r then m
            else m\<lparr>mg_cache := AList.update (sr_key r) (setting_value (sr_value_json r)) (mg_cache m)\<rparr>))"

definition loadFromDB :: "setting_row rows \<Rightarrow> Manager \<Rightarrow> go_error \<times> Manager" where
  "loadFromDB q m =
     (if \<not> mg_db m then (Some ''no db pool'', m)
      else (case q of
              QueryFailed err \<Rightarrow> (Some err, m)
            | Rows rs err \<Rightarrow> (err, load_rows rs m)))"

fun poll_rows ::
  "(string + setting_row) list \<Rightarrow> time \<Rightarrow> Manager \<Rightarrow> notification list \<times> time \<times> Manager" where
  "poll_rows [] latest m = ([], latest, m)"
| "poll_rows (Inl err # rs) latest m = poll_rows rs latest m"
| "poll_rows (Inr r # rs) latest m =
     (let latest = (if sr_updated_at r > latest then sr_updated_at r else latest) in
      if sr_is_secret r then poll_rows rs latest m
      else (let (ns, m) = ApplyChange (sr_key r) (setting_value (sr_value_json r)) m;
                (ns', latest, m) = poll_rows rs latest m
            in (ns @ ns', latest, m)))"

definition settings_pollOnce ::
  "(time \<Rightarrow> setting_row rows) \<Rightarrow> Manager \<Rightarrow> notification list \<times> go_error \<times> Manager" where
  "settings_pollOnce q m =
     (let since = mg_pollLastSeen m in
      case q since of
        QueryFailed err \<Rightarrow> ([], Some err, m)
      | Rows rs err \<Rightarrow>
          (let (ns, latest, m) = poll_rows rs 0 m
           in (ns, err, if latest \<noteq> 0 then m\<lparr>mg_pollLastSeen := latest\<rparr> else m)))"

text \<open>The loop ends at the first tick after the manager was stopped or the context cancelled.\<close>

datatype poll_event = Tick "time \<Rightarrow> setting_row rows" | StopSignal | Cancelled

fun pollLoop :: "poll_event list \<Rightarrow> Manager \<Rightarrow> notification list \<times> Manager" where
  "pollLoop [] m = ([], m)"
| "pollLoop (StopSignal # es) m = ([], m)"
| "pollLoop (Cancelled # es) m = ([], m)"
| "pollLoop (Tick q # es) m =
     (case settings_pollOnce q m of
        (ns, err, m) \<Rightarrow> (case pollLoop es m of (ns', m) \<Rightarrow> (ns @ ns', m)))"

definition handleMessage :: "string \<Rightarrow> Manager \<Rightarrow> notification list \<times> Manager" where
  "handleMessage payload m =
     (case parse_object payload of
        None \<Rightarrow> ([], m)
      | Some ms \<Rightarrow>
          (let vals = (\<lambda>f. field_values [''key'', ''value''] f (map (\<lambda>(k, raw, v). (k, v)) ms)) in
           case (set_string [] (vals ''key''), set_string [] (vals ''value'')) of
             (Some k, Some v) \<Rightarrow> ApplyChange k v m
           | _ \<Rightarrow> ([], m)))"

definition settings_Stop :: "Manager \<Rightarrow> Manager" where
  "settings_Stop m = (if mg_stopped m then m else m\<lparr>mg_stopped := True\<rparr>)"

subsection \<open>The file\<close>

type_synonym disk = "string \<rightharpoonup> string"

text \<open>
  The outcomes of the calls: \<open>None\<close> for success; a failed \<^verbatim>\<open>WriteFile\<close> may leave the given
  content in the file it was writing.
\<close>

record disk_faults =
  df_write :: "(string \<times> string option) option"
  df_chmod :: go_error
  df_rename :: go_error

definition WriteCache :: "disk_faults \<Rightarrow> Manager \<Rightarrow> disk \<Rightarrow> go_error \<times> disk" where
  "WriteCache f m fs =
     (if mg_cachePath m = [] then (None, fs)
      else
        (let data = marshal_string_map (mg_cache m); tmp = mg_cachePath m @ ''.tmp'' in
         case df_write f of
           Some (err, left) \<Rightarrow> (Some err, case left of None \<Rightarrow> fs | Some c \<Rightarrow> fs(tmp \<mapsto> c))
         | None \<Rightarrow>
             (let fs = fs(tmp \<mapsto> data) in
              case df_chmod f of
                Some err \<Rightarrow> (Some err, fs)
              | None \<Rightarrow>
                  (case df_rename f of
                     Some err \<Rightarrow> (Some err, fs)
                   | None \<Rightarrow> (None, (fs(tmp := None))(mg_cachePath m \<mapsto> data))))))"

definition LoadCache :: "disk \<Rightarrow> Manager \<Rightarrow> go_error \<times> Manager" where
  "LoadCache fs m =
     (if mg_cachePath m = [] then (None, m)
      else (case fs (mg_cachePath m) of
              None \<Rightarrow> (Some ''open: no such file or directory'', m)
            | Some data \<Rightarrow>
                (case decode_string_map data of
                   None \<Rightarrow> (Some ''json: cannot unmarshal'', m)
                 | Some loaded \<Rightarrow> (None, m\<lparr>mg_cache := map_assign loaded (mg_cache m)\<rparr>))))"

subsection \<open>Start\<close>

datatype worker = NoWorker | PollWorker | SubscribeWorker string

definition settings_Start :: "setting_row rows \<Rightarrow> disk \<Rightarrow> Manager \<Rightarrow> Manager \<times> worker" where
  "settings_Start q fs m =
     (let m = (case loadFromDB q m of (None, m) \<Rightarrow> m | (Some err, m) \<Rightarrow> snd (LoadCache fs m)) in
      (m, if mg_backend m = BackendRedis then
            (if mg_valkey m \<noteq> None then SubscribeWorker (''omur:settings:'' @ mg_tenantID m) else NoWorker)
          else if mg_backend m = BackendPostgres then (if mg_db m then PollWorker else NoWorker)
          else NoWorker))"

section \<open>Lemmas\<close>

lemma ApplyChange_sel [simp]:
  "map_of (mg_cache (snd (ApplyChange k v m))) = (map_of (mg_cache m))(k \<mapsto> v)"
  "mg_pollLastSeen (snd (ApplyChange k v m)) = mg_pollLastSeen m"
  by (simp_all add: ApplyChange_def AList.update_conv')

text \<open>Loading is polling without the calls of listeners.\<close>

lemma seen_cache_commute:
  "m\<lparr>mg_pollLastSeen := t, mg_cache := c\<rparr> = m\<lparr>mg_cache := c, mg_pollLastSeen := t\<rparr>"
  by simp

lemma poll_rows_seen_free:
  "poll_rows rs l (m\<lparr>mg_pollLastSeen := t\<rparr>) =
     (case poll_rows rs l m of (ns, l', m') \<Rightarrow> (ns, l', m'\<lparr>mg_pollLastSeen := t\<rparr>))"
proof (induction rs arbitrary: l m)
  case (Cons x rs)
  show ?case
  proof (cases x)
    case (Inr r)
    then show ?thesis
      by (simp add: ApplyChange_def Let_def seen_cache_commute Cons.IH case_prod_beta)
  qed (simp add: Cons.IH)
qed simp

lemma load_rows_poll:
  "load_rows rs m = (case poll_rows rs (mg_pollLastSeen m) m of (ns, l, m') \<Rightarrow> m'\<lparr>mg_pollLastSeen := l\<rparr>)"
proof (induction rs arbitrary: m)
  case (Cons x rs)
  show ?case
  proof (cases x)
    case (Inr r)
    then show ?thesis
      by (simp add: ApplyChange_def Let_def seen_cache_commute Cons.IH poll_rows_seen_free case_prod_beta)
  qed (simp add: Cons.IH)
qed simp

definition applied :: "setting_row \<Rightarrow> Manager \<Rightarrow> bool" where
  "applied r m \<longleftrightarrow> map_of (mg_cache m) (sr_key r) = Some (setting_value (sr_value_json r))"

lemma poll_rows_step:
  assumes "poll_rows (map Inr (r # rs)) l m = (ns, l', m')"
  obtains ns1 m1 where "poll_rows (map Inr rs) (if sr_updated_at r > l then sr_updated_at r else l) m1 = (ns1, l', m')"
    and "mg_pollLastSeen m1 = mg_pollLastSeen m"
    and "map_of (mg_cache m1) = (if sr_is_secret r then map_of (mg_cache m)
           else (map_of (mg_cache m))(sr_key r \<mapsto> setting_value (sr_value_json r)))"
proof -
  let ?a = "ApplyChange (sr_key r) (setting_value (sr_value_json r)) m"
  let ?l = "if sr_updated_at r > l then sr_updated_at r else l"
  let ?m1 = "if sr_is_secret r then m else snd ?a"
  obtain ns1 l1 m2 where p: "poll_rows (map Inr rs) ?l ?m1 = (ns1, l1, m2)" by (metis prod_cases3)
  have "l1 = l' \<and> m2 = m'" using assms p by (auto simp: Let_def case_prod_beta split: if_splits)
  then show ?thesis using p by (intro that [of ?m1 ns1]) auto
qed

lemma poll_rows_seen:
  assumes "poll_rows (map Inr rs) l m = (ns, l', m')"
  shows "mg_pollLastSeen m' = mg_pollLastSeen m \<and> l \<le> l' \<and> (\<forall>r \<in> set rs. sr_updated_at r \<le> l') \<and>
         (l' = l \<or> (\<exists>r \<in> set rs. sr_updated_at r = l'))"
  using assms
proof (induction rs arbitrary: l m ns)
  case (Cons r rs)
  from Cons.prems show ?case
  proof (rule poll_rows_step)
    fix ns1 m1
    assume "poll_rows (map Inr rs) (if sr_updated_at r > l then sr_updated_at r else l) m1 = (ns1, l', m')"
      and "mg_pollLastSeen m1 = mg_pollLastSeen m"
    with Cons.IH [OF this(1)] show ?thesis by (auto split: if_splits)
  qed
qed simp

lemma poll_rows_other:
  assumes "poll_rows (map Inr rs) l m = (ns, l', m')" and "\<And>r. r \<in> set rs \<Longrightarrow> \<not> sr_is_secret r \<Longrightarrow> sr_key r \<noteq> k"
  shows "map_of (mg_cache m') k = map_of (mg_cache m) k"
  using assms
proof (induction rs arbitrary: l m ns)
  case (Cons r rs)
  from Cons.prems(1) show ?case
  proof (rule poll_rows_step)
    fix ns1 m1
    assume p: "poll_rows (map Inr rs) (if sr_updated_at r > l then sr_updated_at r else l) m1 = (ns1, l', m')"
      and c: "map_of (mg_cache m1) = (if sr_is_secret r then map_of (mg_cache m)
           else (map_of (mg_cache m))(sr_key r \<mapsto> setting_value (sr_value_json r)))"
    have "map_of (mg_cache m') k = map_of (mg_cache m1) k" using Cons.prems(2) by (intro Cons.IH [OF p]) simp
    then show ?thesis using c Cons.prems(2) [of r] by auto
  qed
qed simp

lemma poll_rows_applied:
  assumes "poll_rows (map Inr rs) l m = (ns, l', m')" and "distinct (map sr_key rs)"
    and "r \<in> set rs" and "\<not> sr_is_secret r"
  shows "applied r m'"
  using assms
proof (induction rs arbitrary: l m ns)
  case (Cons x rs)
  from Cons.prems(1) show ?case
  proof (rule poll_rows_step)
    fix ns1 m1
    assume p: "poll_rows (map Inr rs) (if sr_updated_at x > l then sr_updated_at x else l) m1 = (ns1, l', m')"
      and c: "map_of (mg_cache m1) = (if sr_is_secret x then map_of (mg_cache m)
           else (map_of (mg_cache m))(sr_key x \<mapsto> setting_value (sr_value_json x)))"
    show ?thesis
    proof (cases "r = x")
      case True
      have "map_of (mg_cache m') (sr_key x) = map_of (mg_cache m1) (sr_key x)"
        using Cons.prems(2) by (intro poll_rows_other [OF p]) (auto simp: image_iff)
      then show ?thesis using True Cons.prems(4) c by (simp add: applied_def)
    next
      case False
      then show ?thesis using Cons.IH [OF p] Cons.prems(2-4) by simp
    qed
  qed
qed simp

subsection \<open>Following the table\<close>

text \<open>
  The table changes by upserts; the manager polls. An upsert is in order when its
  time stamp is later than what the manager has already seen.
\<close>

datatype table_event = WriteRow setting_row | PollTable

definition write_row :: "setting_row \<Rightarrow> setting_row list \<Rightarrow> setting_row list" where
  "write_row r tbl = r # filter (\<lambda>x. sr_key x \<noteq> sr_key r) tbl"

fun settings_step :: "table_event \<Rightarrow> setting_row list \<times> Manager \<Rightarrow> setting_row list \<times> Manager" where
  "settings_step (WriteRow r) (tbl, m) = (write_row r tbl, m)"
| "settings_step PollTable (tbl, m) = (tbl, snd (snd (settings_pollOnce (select_since tbl) m)))"

fun in_order :: "table_event list \<Rightarrow> setting_row list \<times> Manager \<Rightarrow> bool" where
  "in_order [] st = True"
| "in_order (e # es) st =
     ((case e of WriteRow r \<Rightarrow> mg_pollLastSeen (snd st) < sr_updated_at r | PollTable \<Rightarrow> True) \<and>
      in_order es (settings_step e st))"

definition synced :: "setting_row list \<times> Manager \<Rightarrow> bool" where
  "synced = (\<lambda>(tbl, m). distinct (map sr_key tbl) \<and> 0 \<le> mg_pollLastSeen m \<and>
     (\<forall>r \<in> set tbl. \<not> sr_is_secret r \<and> sr_updated_at r \<le> mg_pollLastSeen m \<longrightarrow> applied r m))"

lemma distinct_map_filter_key: "distinct (map f xs) \<Longrightarrow> distinct (map f (filter P xs))"
  by (induction xs) auto

lemma write_synced:
  assumes "synced (tbl, m)" and "mg_pollLastSeen m < sr_updated_at r"
  shows "synced (write_row r tbl, m)"
proof -
  have "distinct (map sr_key (write_row r tbl))"
    using assms(1) by (auto simp: write_row_def synced_def distinct_map_filter_key)
  then show ?thesis using assms by (auto simp: synced_def write_row_def)
qed

lemma distinct_sort_key: "distinct (map f xs) \<Longrightarrow> distinct (map f (sort_key g xs))"
  by (metis distinct_map distinct_sort set_sort)

text \<open>After a poll every row counts as seen, and the manager is in step with all of them.\<close>

lemma poll_synced:
  assumes "synced (tbl, m)" and "m' = snd (snd (settings_pollOnce (select_since tbl) m))"
  shows "synced (tbl, m') \<and> (\<forall>r \<in> set tbl. sr_updated_at r \<le> mg_pollLastSeen m')"
proof -
  let ?rs = "sort_key sr_updated_at (filter (\<lambda>r. sr_updated_at r > mg_pollLastSeen m) tbl)"
  have dist: "distinct (map sr_key tbl)" "distinct (map sr_key ?rs)" and pos: "0 \<le> mg_pollLastSeen m"
    using assms(1) by (auto simp: synced_def intro!: distinct_sort_key distinct_map_filter_key)
  obtain ns l m1 where p: "poll_rows (map Inr ?rs) 0 m = (ns, l, m1)" by (metis prod_cases3)
  note seen = poll_rows_seen [OF p]
  have m': "m' = (if l \<noteq> 0 then m1\<lparr>mg_pollLastSeen := l\<rparr> else m1)"
    using assms(2) p by (simp add: settings_pollOnce_def select_since_def Let_def)
  have last: "mg_pollLastSeen m \<le> mg_pollLastSeen m'" "\<forall>r \<in> set tbl. sr_updated_at r \<le> mg_pollLastSeen m'"
    using seen m' pos by (auto simp: not_le split: if_splits)
  have "applied r m1" if "r \<in> set tbl" "\<not> sr_is_secret r" for r
  proof (cases "sr_updated_at r > mg_pollLastSeen m")
    case True
    then show ?thesis using poll_rows_applied [OF p dist(2)] that by simp
  next
    case False
    then have "applied r m" using assms(1) that by (auto simp: synced_def)
    moreover have "map_of (mg_cache m1) (sr_key r) = map_of (mg_cache m) (sr_key r)"
    proof (rule poll_rows_other [OF p])
      fix x assume "x \<in> set ?rs"
      then have "x \<in> set tbl" "x \<noteq> r" using False by auto
      then show "sr_key x \<noteq> sr_key r" using dist(1) that(1) by (auto simp: distinct_map dest: inj_onD)
    qed
    ultimately show ?thesis by (simp add: applied_def)
  qed
  then have "\<forall>r \<in> set tbl. \<not> sr_is_secret r \<longrightarrow> applied r m'" using m' by (simp add: applied_def)
  then show ?thesis using last pos dist(1) by (auto simp: synced_def)
qed

lemma load_synced:
  assumes "distinct (map sr_key tbl)" and "mg_db m" and "0 \<le> mg_pollLastSeen m"
    and "loadFromDB (select_settings tbl) m = (err, m')"
  shows "err = None \<and> synced (tbl, m')"
proof -
  obtain ns l m1 where p: "poll_rows (map Inr tbl) (mg_pollLastSeen m) m = (ns, l, m1)" by (metis prod_cases3)
  have m': "err = None" "m' = m1\<lparr>mg_pollLastSeen := l\<rparr>"
    using assms(2,4) p by (auto simp: loadFromDB_def select_settings_def load_rows_poll)
  have "applied r m'" if "r \<in> set tbl" "\<not> sr_is_secret r" for r
    using poll_rows_applied [OF p assms(1) that] m' by (simp add: applied_def)
  then show ?thesis using m' assms(1,3) poll_rows_seen [OF p] by (auto simp: synced_def)
qed

lemma run_synced:
  assumes "synced st" and "in_order es st"
  shows "synced (fold settings_step es st)"
  using assms
proof (induction es arbitrary: st)
  case (Cons e es)
  obtain tbl m where st: "st = (tbl, m)" by fastforce
  have "synced (settings_step e st)"
  proof (cases e)
    case (WriteRow r)
    then show ?thesis using Cons.prems st write_synced by simp
  next
    case PollTable
    then show ?thesis using Cons.prems st poll_synced [of tbl m] by simp
  qed
  then show ?case using Cons by simp
qed simp

section \<open>Properties\<close>

text \<open>
  C9. The manager follows the table: after a start that loaded it, any writes to the
  table, each stamped later than what the manager had seen, and any polls, one more
  poll makes the manager serve the current value of every row that is not secret.
\<close>

theorem settings_follow_table:
  assumes "distinct (map sr_key tbl)" and "mg_db m" and "0 \<le> mg_pollLastSeen m"
    and "settings_Start (select_settings tbl) fs m = (m1, wk)"
    and "in_order es (tbl, m1)" and "fold settings_step (es @ [PollTable]) (tbl, m1) = (tbl', m')"
    and "r \<in> set tbl'" and "\<not> sr_is_secret r"
  shows "settings_Get m' (sr_key r) = setting_value (sr_value_json r)"
proof -
  obtain err m0 where l: "loadFromDB (select_settings tbl) m = (err, m0)" by fastforce
  from load_synced [OF assms(1-3) this] have s1: "synced (tbl, m1)"
    using assms(4) l by (simp add: settings_Start_def)
  obtain tbl2 m2 where f: "fold settings_step es (tbl, m1) = (tbl2, m2)" by fastforce
  have "synced (tbl2, m2)" using run_synced [OF s1 assms(5)] f by simp
  from poll_synced [OF this] have "synced (tbl', m')" "sr_updated_at r \<le> mg_pollLastSeen m'"
    using assms(6,7) f by auto
  then show ?thesis using assms(7,8) by (auto simp: synced_def applied_def settings_Get_def)
qed

definition demo_row :: setting_row where
  "demo_row = \<lparr>sr_key = ''theme'', sr_value_json = ''dark'', sr_is_secret = False, sr_updated_at = 7\<rparr>"

theorem settings_follow_table_witness:
  "\<exists>m'. snd (fold settings_step [WriteRow demo_row, PollTable]
       ([], fst (settings_Start (select_settings []) Map.empty (empty_manager True)))) = m' \<and>
     settings_Get m' ''theme'' = ''dark''"
proof -
  let ?m = "empty_manager True"
  let ?st = "settings_Start (select_settings []) Map.empty ?m"
  let ?f = "fold settings_step ([WriteRow demo_row] @ [PollTable]) ([], fst ?st)"
  have seen: "mg_pollLastSeen (fst ?st) = 0"
    by (simp add: settings_Start_def loadFromDB_def select_settings_def empty_manager_def Let_def)
  have "settings_Get (snd ?f) (sr_key demo_row) = setting_value (sr_value_json demo_row)"
  proof (rule settings_follow_table [of "[]" ?m Map.empty "fst ?st" "snd ?st" "[WriteRow demo_row]" "fst ?f" "snd ?f" demo_row])
    show "in_order [WriteRow demo_row] ([], fst ?st)" using seen by (simp add: demo_row_def)
    show "demo_row \<in> set (fst ?f)" by (simp add: write_row_def)
  qed (simp_all add: empty_manager_def demo_row_def)
  moreover have "setting_value ''dark'' = ''dark''" by code_simp
  ultimately show ?thesis by (simp add: demo_row_def)
qed

text \<open>
  C40. The file is replaced as a whole: whatever call fails, after \<^verbatim>\<open>WriteCache\<close> the cache
  path holds what it held before or the complete new content; and after a
  successful write any manager that loads the file gets every value of the writer
  and keeps its other values.
\<close>

theorem cache_file_roundtrip:
  assumes "distinct (map fst (mg_cache m))" and "mg_cachePath m \<noteq> []"
    and "\<And>k v. (k, v) \<in> set (mg_cache m) \<Longrightarrow> valid_utf8 k \<and> valid_utf8 v"
    and "WriteCache f m fs = (err, fs')"
  shows "fs' (mg_cachePath m) \<in> {fs (mg_cachePath m), Some (marshal_string_map (mg_cache m))} \<and>
         (err = None \<and> mg_cachePath m2 = mg_cachePath m \<longrightarrow>
            (\<exists>m3. LoadCache fs' m2 = (None, m3) \<and> map_of (mg_cache m3) = map_of (mg_cache m2) ++ map_of (mg_cache m)))"
proof -
  have tmp: "mg_cachePath m @ ''.tmp'' \<noteq> mg_cachePath m" by simp
  have one: "fs' (mg_cachePath m) \<in> {fs (mg_cachePath m), Some (marshal_string_map (mg_cache m))}"
    using assms(4) tmp by (auto simp: WriteCache_def Let_def split: if_splits option.splits prod.splits)
  have two: "\<exists>m3. LoadCache fs' m2 = (None, m3) \<and> map_of (mg_cache m3) = map_of (mg_cache m2) ++ map_of (mg_cache m)"
    if "err = None" "mg_cachePath m2 = mg_cachePath m"
  proof -
    have "fs' (mg_cachePath m) = Some (marshal_string_map (mg_cache m))"
      using assms(2,4) that(1) by (auto simp: WriteCache_def Let_def split: option.splits prod.splits)
    moreover obtain ms where "decode_string_map (marshal_string_map (mg_cache m)) = Some ms"
        "map_of (rev ms) = map_of (mg_cache m)"
      using string_map_roundtrip [OF assms(3,1)] by blast
    ultimately show ?thesis using assms(2) that(2) by (simp add: LoadCache_def map_of_assign)
  qed
  from one two show ?thesis by blast
qed

theorem cache_file_roundtrip_witness:
  "\<exists>fs' m3. WriteCache \<lparr>df_write = None, df_chmod = None, df_rename = None\<rparr>
       ((empty_manager False)\<lparr>mg_cachePath := ''/c'', mg_cache := [(''theme'', ''dark'')]\<rparr>) Map.empty = (None, fs') \<and>
     LoadCache fs' ((empty_manager False)\<lparr>mg_cachePath := ''/c''\<rparr>) = (None, m3) \<and>
     settings_Get m3 ''theme'' = ''dark''"
proof -
  let ?m = "(empty_manager False)\<lparr>mg_cachePath := ''/c'', mg_cache := [(''theme'', ''dark'')]\<rparr>"
  let ?f = "\<lparr>df_write = None, df_chmod = None, df_rename = None\<rparr>"
  let ?m2 = "(empty_manager False)\<lparr>mg_cachePath := ''/c''\<rparr>"
  obtain fs' where w: "WriteCache ?f ?m Map.empty = (None, fs')" by (simp add: WriteCache_def Let_def)
  have "\<exists>m3. LoadCache fs' ?m2 = (None, m3) \<and> map_of (mg_cache m3) = map_of (mg_cache ?m2) ++ map_of (mg_cache ?m)"
    using cache_file_roundtrip [OF _ _ _ w, of ?m2] by simp
  then show ?thesis using w by (auto simp: settings_Get_def)
qed

text \<open>
  A load that breaks off leaves stale values behind: the rows it delivered before
  the error count as seen, the fallback to the file then overwrites their values,
  and no later poll reads those rows again, so the old value of the file is served
  until the row is next changed.
\<close>

lemma partial_load_goes_stale:
  assumes "mg_db m" and "mg_cachePath m \<noteq> []" and "fs (mg_cachePath m) = Some data"
    and "decode_string_map data = Some loaded" and "map_of (rev loaded) k = Some old"
    and "settings_Start (Rows (map Inr rs) (Some err)) fs m = (m', wk)"
    and "\<And>r. r \<in> set tbl \<Longrightarrow> sr_key r = k \<Longrightarrow> r \<in> set rs"
  shows "settings_Get m' k = old \<and>
         settings_Get (snd (snd (settings_pollOnce (select_since tbl) m'))) k = old"
proof -
  obtain ns l m1 where p: "poll_rows (map Inr rs) (mg_pollLastSeen m) m = (ns, l, m1)" by (metis prod_cases3)
  have path: "mg_cachePath (load_rows qs n) = mg_cachePath n" for qs n
  proof (induction qs arbitrary: n)
    case (Cons x qs)
    then show ?case by (cases x) (simp_all add: Let_def)
  qed simp
  have load: "load_rows (map Inr rs) m = m1\<lparr>mg_pollLastSeen := l\<rparr>" using p by (simp add: load_rows_poll)
  have m': "m' = m1\<lparr>mg_pollLastSeen := l, mg_cache := map_assign loaded (mg_cache m1)\<rparr>"
    using assms(1-4,6) path [of "map Inr rs" m] load by (simp add: settings_Start_def loadFromDB_def LoadCache_def Let_def)
  have get: "map_of (mg_cache m') k = Some old" using m' assms(5) by (simp add: map_of_assign)
  let ?rs = "sort_key sr_updated_at (filter (\<lambda>r. sr_updated_at r > mg_pollLastSeen m') tbl)"
  obtain ns2 l2 m2 where p2: "poll_rows (map Inr ?rs) 0 m' = (ns2, l2, m2)" by (metis prod_cases3)
  have "map_of (mg_cache m2) k = map_of (mg_cache m') k"
  proof (rule poll_rows_other [OF p2])
    fix r assume "r \<in> set ?rs"
    then have "r \<in> set tbl" "\<not> sr_updated_at r \<le> l" using m' by auto
    then show "sr_key r \<noteq> k" using assms(7) poll_rows_seen [OF p] by blast
  qed
  then show ?thesis
    using get p2 by (simp add: settings_pollOnce_def select_since_def Let_def settings_Get_def)
qed

lemma partial_load_goes_stale_witness:
  "settings_Get (fst (settings_Start (Rows (map Inr [demo_row]) (Some ''conn reset'')) [''/c'' \<mapsto> marshal_string_map [(''theme'', ''light'')]]
     ((empty_manager True)\<lparr>mg_cachePath := ''/c''\<rparr>))) ''theme'' = ''light''"
proof -
  let ?m = "(empty_manager True)\<lparr>mg_cachePath := ''/c''\<rparr>"
  let ?fs = "[''/c'' \<mapsto> marshal_string_map [(''theme'', ''light'')]]"
  let ?st = "settings_Start (Rows (map Inr [demo_row]) (Some ''conn reset'')) ?fs ?m"
  obtain ms where ms: "decode_string_map (marshal_string_map [(''theme'', ''light'')]) = Some ms"
      "map_of (rev ms) = map_of [(''theme'', ''light'')]"
    using string_map_roundtrip [of "[(''theme'', ''light'')]"] by auto
  have "settings_Get (fst ?st) ''theme'' = ''light'' \<and>
      settings_Get (snd (snd (settings_pollOnce (select_since [demo_row]) (fst ?st)))) ''theme'' = ''light''"
  proof (rule partial_load_goes_stale [of ?m ?fs "marshal_string_map [(''theme'', ''light'')]" ms "''theme''" "''light''" "[demo_row]" "''conn reset''" "fst ?st" "snd ?st"])
  qed (use ms in \<open>simp_all add: empty_manager_def\<close>)
  then show ?thesis by blast
qed

text \<open>
  What polling never picks up: a row that became secret, and a row that appears with a time
  at or before the last one seen, as one whose transaction commits late. As long as the
  table holds nothing else for the key, every poll leaves the old value in place.
\<close>

lemma poll_keeps_key:
  assumes "\<And>r. r \<in> set tbl \<Longrightarrow> sr_key r = k \<Longrightarrow> sr_is_secret r \<or> sr_updated_at r \<le> mg_pollLastSeen m"
    and "m' = snd (snd (settings_pollOnce (select_since tbl) m))"
  shows "settings_Get m' k = settings_Get m k \<and> mg_pollLastSeen m \<le> mg_pollLastSeen m'"
proof -
  let ?rs = "sort_key sr_updated_at (filter (\<lambda>r. sr_updated_at r > mg_pollLastSeen m) tbl)"
  obtain ns l m1 where p: "poll_rows (map Inr ?rs) 0 m = (ns, l, m1)" by (metis prod_cases3)
  have m': "m' = (if l \<noteq> 0 then m1\<lparr>mg_pollLastSeen := l\<rparr> else m1)"
    using assms(2) p by (simp add: settings_pollOnce_def select_since_def Let_def)
  have "map_of (mg_cache m1) k = map_of (mg_cache m) k"
    using assms(1) by (intro poll_rows_other [OF p]) fastforce
  moreover have "l \<noteq> 0 \<Longrightarrow> mg_pollLastSeen m \<le> l" using poll_rows_seen [OF p] by auto
  ultimately show ?thesis using m' poll_rows_seen [OF p] by (auto simp: settings_Get_def)
qed

lemma setting_not_refreshed:
  assumes "\<And>tbl r. tbl \<in> set tbls \<Longrightarrow> r \<in> set tbl \<Longrightarrow> sr_key r = k \<Longrightarrow> sr_is_secret r \<or> sr_updated_at r \<le> mg_pollLastSeen m"
  shows "settings_Get (fold (\<lambda>tbl m. snd (snd (settings_pollOnce (select_since tbl) m))) tbls m) k = settings_Get m k"
  using assms
proof (induction tbls arbitrary: m)
  case (Cons tbl tbls)
  let ?m = "snd (snd (settings_pollOnce (select_since tbl) m))"
  have kept: "settings_Get ?m k = settings_Get m k \<and> mg_pollLastSeen m \<le> mg_pollLastSeen ?m"
    by (rule poll_keeps_key [OF Cons.prems refl]) simp_all
  have "settings_Get (fold (\<lambda>tbl m. snd (snd (settings_pollOnce (select_since tbl) m))) tbls ?m) k = settings_Get ?m k"
    by (rule Cons.IH) (use Cons.prems kept in fastforce)
  with kept show ?case by simp
qed simp

end
