(* ===== verification/Event_Bus.thy ===== *)
theory Event_Bus
  imports Db_Pool
begin

text \<open>
  Package \<^verbatim>\<open>eventbus\<close>, the event and the bus over Postgres (\<^verbatim>\<open>src/eventbus/bus.go\<close>,
  \<^verbatim>\<open>src/eventbus/postgres.go\<close>): events are rows of a table, a subscriber polls it from its
  offset.

  The bus works on the connections of \<^verbatim>\<open>Db_Pool\<close>; the outcome of every statement is a
  parameter and the statements are operations on the two tables. The login role of the
  pool bypasses row security, as the bus requires. A handler acts on a state of the
  subscriber. A poll interval below zero, for which \<^verbatim>\<open>time.NewTicker\<close> panics, is not represented.
\<close>

section \<open>The Postgres bus\<close>

subsection \<open>Tables\<close>

record Event =
  ev_ID :: int
  ev_TenantID :: string
  ev_Topic :: string
  ev_Payload :: string
  ev_CreatedAt :: time

definition NilTenantID :: string where
  "NilTenantID = ''00000000-0000-0000-0000-000000000000''"

text \<open>The committed rows of \<^verbatim>\<open>events\<close>, the next value of its id sequence and \<^verbatim>\<open>event_offsets\<close>.\<close>

record bus_db =
  bd_events :: "Event list"
  bd_next :: int
  bd_offsets :: "string \<times> string \<Rightarrow> int option"

definition insert_event :: "time \<Rightarrow> string \<Rightarrow> string \<Rightarrow> string \<Rightarrow> bus_db \<Rightarrow> bus_db" where
  "insert_event now tid topic payload db =
     db\<lparr>bd_events := bd_events db @ [\<lparr>ev_ID = bd_next db, ev_TenantID = tid, ev_Topic = topic,
          ev_Payload = payload, ev_CreatedAt = now\<rparr>], bd_next := bd_next db + 1\<rparr>"

definition init_offset :: "string \<times> string \<Rightarrow> bus_db \<Rightarrow> bus_db" where
  "init_offset k db =
     (case bd_offsets db k of None \<Rightarrow> db\<lparr>bd_offsets := (bd_offsets db)(k \<mapsto> 0)\<rparr> | Some _ \<Rightarrow> db)"

definition update_offset :: "string \<times> string \<Rightarrow> int \<Rightarrow> bus_db \<Rightarrow> bus_db" where
  "update_offset k i db =
     (case bd_offsets db k of None \<Rightarrow> db | Some _ \<Rightarrow> db\<lparr>bd_offsets := (bd_offsets db)(k \<mapsto> i)\<rparr>)"

definition select_batch :: "bus_db \<Rightarrow> string \<times> string \<Rightarrow> nat \<Rightarrow> Event list" where
  "select_batch db k n =
     (case bd_offsets db k of
        None \<Rightarrow> []
      | Some last_id \<Rightarrow> take n (sort_key ev_ID (filter (\<lambda>e. ev_Topic e = snd k \<and> ev_ID e > last_id) (bd_events db))))"

subsection \<open>Operations\<close>

record PostgresConfig =
  pc_ConsumerName :: string
  pc_PollInterval :: duration
  pc_BatchSize :: int

record postgresBus =
  pb_cfg :: PostgresConfig
  pb_done :: bool

definition NewPostgresBus :: "PostgresConfig \<Rightarrow> postgresBus" where
  "NewPostgresBus cfg =
     (let cfg = (if pc_PollInterval cfg = 0 then cfg\<lparr>pc_PollInterval := 5 * second\<rparr> else cfg);
          cfg = (if pc_BatchSize cfg = 0 then cfg\<lparr>pc_BatchSize := 100\<rparr> else cfg)
      in \<lparr>pb_cfg = cfg, pb_done = False\<rparr>)"

text \<open>
  \<open>ex n\<close> is the outcome of the n-th round trip: \<^verbatim>\<open>BEGIN\<close>, \<^verbatim>\<open>RESET ROLE\<close>, \<^verbatim>\<open>SET LOCAL
  row_security\<close>, and \<^verbatim>\<open>COMMIT\<close> as number 3; the statement of the callback has its own.
\<close>

definition withBusRole :: "(nat \<Rightarrow> go_error) \<Rightarrow> 'db callback \<Rightarrow> 'db conn \<Rightarrow> go_error \<times> 'db conn" where
  "withBusRole ex fn c =
     (case ex 0 of
        Some err \<Rightarrow> (Some err, c)
      | None \<Rightarrow>
          (let t = pg_begin c in
           case ex 1 of
             Some err \<Rightarrow> (Some err, pg_rollback t)
           | None \<Rightarrow>
               (let t = set_role [] t in
                case ex 2 of
                  Some err \<Rightarrow> (Some err, pg_rollback t)
                | None \<Rightarrow> run_commit (ex 3) fn t)))"

text \<open>A callback that sends one statement: its error, or its effect.\<close>

definition exec :: "go_error \<Rightarrow> ('db \<Rightarrow> 'db) \<Rightarrow> 'db callback" where
  "exec err f = (\<lambda>st db. case err of Some e \<Rightarrow> (Some e, db) | None \<Rightarrow> (None, f db))"

definition bus_Publish ::
  "(nat \<Rightarrow> go_error) \<Rightarrow> go_error \<Rightarrow> time \<Rightarrow> string \<Rightarrow> string \<Rightarrow> bus_db conn \<Rightarrow> go_error \<times> bus_db conn" where
  "bus_Publish ex err now topic payload =
     withBusRole ex (exec err (insert_event now NilTenantID topic payload))"

definition bus_PublishTenant ::
  "(nat \<Rightarrow> go_error) \<Rightarrow> go_error \<Rightarrow> time \<Rightarrow> string \<Rightarrow> string \<Rightarrow> string \<Rightarrow> bus_db conn \<Rightarrow> go_error \<times> bus_db conn" where
  "bus_PublishTenant ex err now tenantID topic payload =
     (if tenantID = [] then bus_Publish ex err now topic payload
      else withBusRole ex (exec err (insert_event now tenantID topic payload)))"

type_synonym 's ev_handler = "Event \<Rightarrow> 's \<Rightarrow> go_error \<times> 's"

fun deliver :: "'s ev_handler \<Rightarrow> Event list \<Rightarrow> int \<Rightarrow> 's \<Rightarrow> go_error \<times> int \<times> 's" where
  "deliver h [] lastID s = (None, lastID, s)"
| "deliver h (e # es) lastID s =
     (case h e s of
        (Some err, s) \<Rightarrow> (Some err, lastID, s)
      | (None, s) \<Rightarrow> deliver h es (ev_ID e) s)"

text \<open>
  The outcomes of one poll: those of the query, of scanning its rows and of the update.
  Postgres refuses a negative \<^verbatim>\<open>LIMIT\<close>.
\<close>

definition limit_error :: "int \<Rightarrow> go_error" where
  "limit_error n = (if n < 0 then Some ''ERROR: LIMIT must not be negative (SQLSTATE 2201W)'' else None)"

record poll_faults =
  pf_query :: "nat \<Rightarrow> go_error"
  pf_rows :: go_error
  pf_update :: "nat \<Rightarrow> go_error"
  pf_stmt :: go_error

definition bus_pollOnce ::
  "poll_faults \<Rightarrow> postgresBus \<Rightarrow> string \<Rightarrow> 's ev_handler \<Rightarrow> bus_db conn \<times> 's \<Rightarrow> go_error \<times> bus_db conn \<times> 's" where
  "bus_pollOnce f b topic h = (\<lambda>(c, s).
     (let k = (pc_ConsumerName (pb_cfg b), topic) in
      case withBusRole (pf_query f)
             (exec (case limit_error (pc_BatchSize (pb_cfg b)) of Some e \<Rightarrow> Some e | None \<Rightarrow> pf_rows f) (\<lambda>db. db)) c of
        (Some err, c') \<Rightarrow> (Some err, c', s)
      | (None, c') \<Rightarrow>
          (case deliver h (select_batch (cn_db c) k (nat (pc_BatchSize (pb_cfg b)))) 0 s of
             (Some err, lastID, s) \<Rightarrow> (Some err, c', s)
           | (None, lastID, s) \<Rightarrow>
               if lastID > 0 then
                 (case withBusRole (pf_update f) (exec (pf_stmt f) (update_offset k lastID)) c' of
                    (err, c') \<Rightarrow> (err, c', s))
               else (None, c', s))))"

datatype bus_tick = BusTick poll_faults | BusCtxDone | BusClosed

fun bus_loop ::
  "postgresBus \<Rightarrow> string \<Rightarrow> 's ev_handler \<Rightarrow> bus_tick list \<Rightarrow> bus_db conn \<times> 's \<Rightarrow> go_error \<times> bus_db conn \<times> 's" where
  "bus_loop b topic h [] cs = (None, cs)"
| "bus_loop b topic h (BusCtxDone # ts) cs = (Some ''context canceled'', cs)"
| "bus_loop b topic h (BusClosed # ts) cs = (None, cs)"
| "bus_loop b topic h (BusTick f # ts) cs = bus_loop b topic h ts (snd (bus_pollOnce f b topic h cs))"

definition bus_Subscribe ::
  "(nat \<Rightarrow> go_error) \<Rightarrow> go_error \<Rightarrow> poll_faults \<Rightarrow> bus_tick list \<Rightarrow> postgresBus \<Rightarrow> string \<Rightarrow> 's ev_handler
   \<Rightarrow> bus_db conn \<times> 's \<Rightarrow> go_error \<times> bus_db conn \<times> 's" where
  "bus_Subscribe ex err f ts b topic h = (\<lambda>(c, s).
     (case withBusRole ex (exec err (init_offset (pc_ConsumerName (pb_cfg b), topic))) c of
        (Some e, c) \<Rightarrow> (Some e, c, s)
      | (None, c) \<Rightarrow> bus_loop b topic h ts (snd (bus_pollOnce f b topic h (c, s)))))"

definition bus_Close :: "postgresBus \<Rightarrow> postgresBus" where
  "bus_Close b = b\<lparr>pb_done := True\<rparr>"

section \<open>Lemmas\<close>

lemma withBusRole_ok:
  assumes "\<And>n. ex n = None" and "err = None"
  shows "withBusRole ex (exec err f) c =
           (None, \<lparr>cn_cur = (cn_cur c)\<lparr>st_role := []\<rparr>, cn_db = f (cn_db c)\<rparr>)"
  using assms
  by (simp add: withBusRole_def exec_def run_commit_def run_callback_def pg_commit_def pg_begin_def set_role_def)

lemma withBusRole_read: "withBusRole ex (exec err (\<lambda>db. db)) c = (r, c') \<Longrightarrow> cn_db c' = cn_db c"
  by (auto simp: withBusRole_def exec_def run_commit_def run_callback_def pg_rollback_def pg_commit_def pg_begin_def
      set_role_def Let_def split: option.splits)

lemma withBusRole_done: "withBusRole ex (exec err f) c = (None, c') \<Longrightarrow> cn_db c' = f (cn_db c)"
  by (auto simp: withBusRole_def exec_def run_commit_def run_callback_def pg_commit_def pg_begin_def set_role_def Let_def
      split: option.splits)

lemma withBusRole_failed:
  "withBusRole ex (exec err f) c = (Some e, c') \<Longrightarrow> c' = c"
  by (auto simp: withBusRole_def exec_def run_commit_def run_callback_def pg_rollback_def pg_begin_def set_role_def Let_def
      split: option.splits)

text \<open>The bus leaves the pooled connection under the login role whenever it succeeds.\<close>

lemma withBusRole_leaks_role:
  "withBusRole ex (exec err f) c = (None, c') \<Longrightarrow> st_role (cn_cur c') = []"
  by (auto simp: withBusRole_def exec_def run_commit_def run_callback_def pg_commit_def pg_begin_def set_role_def Let_def
      split: option.splits)

subsection \<open>Batches\<close>

definition topic_events :: "bus_db \<Rightarrow> string \<Rightarrow> Event list" where
  "topic_events db topic = filter (\<lambda>e. ev_Topic e = topic) (bd_events db)"

text \<open>
  The rows are in the order of their ids, which are positive and below the sequence; so are
  the offsets, which start with 0.
\<close>

definition bus_db_wf :: "bus_db \<Rightarrow> bool" where
  "bus_db_wf db \<longleftrightarrow> sorted_wrt (\<lambda>a b. ev_ID a < ev_ID b) (bd_events db) \<and>
     (\<forall>e \<in> set (bd_events db). 0 < ev_ID e \<and> ev_ID e < bd_next db) \<and> 0 < bd_next db \<and>
     (\<forall>k off. bd_offsets db k = Some off \<longrightarrow> 0 \<le> off \<and> off < bd_next db)"

text \<open>The events of its topic that a consumer has still to see; without an offset, all of them.\<close>

definition unread :: "bus_db \<Rightarrow> string \<times> string \<Rightarrow> Event list" where
  "unread db k =
     filter (\<lambda>e. ev_ID e > (case bd_offsets db k of None \<Rightarrow> 0 | Some off \<Rightarrow> off)) (topic_events db (snd k))"

lemma wf_insert: "bus_db_wf db \<Longrightarrow> bus_db_wf (insert_event now tid topic payload db)"
  by (fastforce simp: bus_db_wf_def insert_event_def sorted_wrt_append)

lemma unread_insert:
  "bus_db_wf db \<Longrightarrow> unread (insert_event now tid topic payload db) k =
     unread db k @ (if topic = snd k then [\<lparr>ev_ID = bd_next db, ev_TenantID = tid, ev_Topic = topic,
          ev_Payload = payload, ev_CreatedAt = now\<rparr>] else [])"
  by (cases k) (auto simp: bus_db_wf_def unread_def insert_event_def topic_events_def split: option.splits)

lemma wf_init: "bus_db_wf db \<Longrightarrow> bus_db_wf (init_offset k db)"
  by (auto simp: bus_db_wf_def init_offset_def split: option.splits)

lemma unread_init: "unread (init_offset k db) k' = unread db k'"
  by (auto simp: unread_def init_offset_def topic_events_def split: option.splits)

lemma topic_events_sorted: "bus_db_wf db \<Longrightarrow> sorted_wrt (\<lambda>a b. ev_ID a < ev_ID b) (topic_events db topic)"
  by (simp add: bus_db_wf_def topic_events_def sorted_wrt_filter)

lemma sort_sorted: "sorted_wrt (\<lambda>a b. ev_ID a < ev_ID b) es \<Longrightarrow> sort_key ev_ID es = es"
proof -
  assume "sorted_wrt (\<lambda>a b. ev_ID a < ev_ID b) es"
  then have "sorted (map ev_ID es)" by (induction es) (auto simp: less_imp_le)
  then show ?thesis by (rule sort_key_id_if_sorted)
qed

lemma select_batch_unread:
  assumes "bus_db_wf db" and "bd_offsets db k = Some off"
  shows "select_batch db k n = take n (unread db k)"
proof -
  have f: "filter (\<lambda>e. ev_Topic e = snd k \<and> ev_ID e > off) (bd_events db) = unread db k"
    using assms(2) by (simp add: unread_def topic_events_def conj_commute)
  have "sorted_wrt (\<lambda>a b. ev_ID a < ev_ID b) (unread db k)"
    using topic_events_sorted [OF assms(1)] by (simp add: unread_def sorted_wrt_filter)
  then show ?thesis using assms(2) f by (simp add: select_batch_def sort_sorted)
qed

lemma filter_beyond_prefix:
  assumes "sorted_wrt (\<lambda>a b. ev_ID a < ev_ID b) (xs @ ys)" and "xs \<noteq> []"
  shows "filter (\<lambda>e. ev_ID e > ev_ID (last xs)) (xs @ ys) = ys"
proof -
  have "sorted_wrt (\<lambda>a b. ev_ID a < ev_ID b) (butlast xs @ [last xs] @ ys)"
    using assms by (metis append_assoc append_butlast_last_id)
  then have "\<forall>e \<in> set (butlast xs @ [last xs]). \<not> ev_ID e > ev_ID (last xs)" "\<forall>e \<in> set ys. ev_ID e > ev_ID (last xs)"
    by (auto simp: sorted_wrt_append)
  then show ?thesis using assms(2) by (simp add: filter_empty_conv)
qed

text \<open>Saving the id of the last event of a batch leaves exactly the events after it.\<close>

lemma unread_update:
  assumes "bus_db_wf db" and "bd_offsets db k = Some off" and "take n (unread db k) \<noteq> []"
  defines "l \<equiv> ev_ID (last (take n (unread db k)))"
  shows "0 < l" and "bus_db_wf (update_offset k l db)"
    and "unread (update_offset k l db) k' = (if k' = k then drop n (unread db k) else unread db k')"
proof -
  let ?L = "topic_events db (snd k)" and ?batch = "take n (unread db k)"
  have u: "unread db k = filter (\<lambda>e. ev_ID e > off) ?L" using assms(2) by (simp add: unread_def)
  have "last ?batch \<in> set ?L" using assms(3) unfolding u by (meson in_set_takeD last_in_set filter_is_subset subsetD)
  then have l: "0 < l" "l < bd_next db" using assms(1) by (auto simp: l_def bus_db_wf_def topic_events_def)
  then show "0 < l" "bus_db_wf (update_offset k l db)"
    using assms(1,2) by (auto simp: bus_db_wf_def update_offset_def)
  have "last ?batch \<in> set (unread db k)" by (rule in_set_takeD [OF last_in_set [OF assms(3)]])
  then have "off < l" by (simp add: l_def u)
  then have "filter (\<lambda>e. ev_ID e > l) ?L = filter (\<lambda>e. ev_ID e > l) (unread db k)"
    unfolding u by (auto intro: filter_cong)
  also have "\<dots> = drop n (unread db k)"
    using filter_beyond_prefix [of ?batch "drop n (unread db k)"] assms(3) topic_events_sorted [OF assms(1), of "snd k"]
    by (simp add: l_def u sorted_wrt_filter)
  finally show "unread (update_offset k l db) k' = (if k' = k then drop n (unread db k) else unread db k')"
    using assms(2) by (simp add: unread_def update_offset_def topic_events_def)
qed

subsection \<open>Runs of publishers and one subscriber\<close>

definition log_handler :: "Event list ev_handler" where
  "log_handler e s = (None, s @ [e])"

definition no_faults :: poll_faults where
  "no_faults = \<lparr>pf_query = (\<lambda>_. None), pf_rows = None, pf_update = (\<lambda>_. None), pf_stmt = None\<rparr>"

lemma deliver_log: "deliver log_handler es l s = (None, if es = [] then l else ev_ID (last es), s @ es)"
  by (induction es arbitrary: l s) (auto simp: log_handler_def)

text \<open>
  A poll whose update does not fail hands over the first unread events and saves that: it
  skips none and repeats none, and nothing else in the tables changes.
\<close>

lemma poll_handed:
  fixes b topic
  defines "k \<equiv> (pc_ConsumerName (pb_cfg b), topic)"
  assumes "bus_db_wf (cn_db c)" and "bd_offsets (cn_db c) k = Some off" and "\<And>n. pf_update f n = None" "pf_stmt f = None"
    and "bus_pollOnce f b topic log_handler (c, s) = (r, c', s')"
  shows "\<exists>n. s' = s @ take n (unread (cn_db c) k) \<and> bus_db_wf (cn_db c') \<and>
     (\<forall>k'. unread (cn_db c') k' = (if k' = k then drop n (unread (cn_db c) k) else unread (cn_db c) k')) \<and>
     bd_events (cn_db c') = bd_events (cn_db c) \<and> bd_offsets (cn_db c') k \<noteq> None \<and>
     (r = None \<longrightarrow> n = nat (pc_BatchSize (pb_cfg b)))"
proof -
  let ?db = "cn_db c" and ?n = "nat (pc_BatchSize (pb_cfg b))"
  obtain e c1 where q: "withBusRole (pf_query f)
      (exec (case limit_error (pc_BatchSize (pb_cfg b)) of Some e \<Rightarrow> Some e | None \<Rightarrow> pf_rows f) (\<lambda>db. db)) c = (e, c1)"
    by fastforce
  have db1: "cn_db c1 = ?db" using withBusRole_read [OF q] .
  have sel: "select_batch ?db k ?n = take ?n (unread ?db k)" by (rule select_batch_unread [OF assms(2,3)])
  have run: "(r, c', s') =
      (case e of
         Some err \<Rightarrow> (Some err, c1, s)
       | None \<Rightarrow>
           if take ?n (unread ?db k) = [] then (None, c1, s)
           else if ev_ID (last (take ?n (unread ?db k))) > 0 then
             (None, snd (withBusRole (pf_update f) (exec (pf_stmt f)
                 (update_offset k (ev_ID (last (take ?n (unread ?db k)))))) c1), s @ take ?n (unread ?db k))
           else (None, c1, s @ take ?n (unread ?db k)))"
    using assms(6) unfolding bus_pollOnce_def
    by (auto simp: q sel [unfolded k_def] k_def deliver_log withBusRole_ok assms(4,5) Let_def split: option.splits simp del: take_eq_Nil)
  consider (failed) "e \<noteq> None" | (empty) "e = None" "take ?n (unread ?db k) = []" | (some) "e = None" "take ?n (unread ?db k) \<noteq> []"
    by blast
  then show ?thesis
  proof cases
    case failed
    then have "c' = c1" "s' = s" "r \<noteq> None" using run by auto
    then show ?thesis using db1 assms(2,3) by (intro exI [of _ 0]) auto
  next
    case empty
    then have "c' = c1" "s' = s" using run by auto
    then show ?thesis using db1 assms(2,3) empty(2) by (intro exI [of _ ?n]) auto
  next
    case some
    let ?l = "ev_ID (last (take ?n (unread ?db k)))"
    note upd = unread_update [OF assms(2,3) some(2)]
    have "cn_db c' = update_offset k ?l ?db" "s' = s @ take ?n (unread ?db k)"
      using run some upd(1) db1 assms(4,5) by (auto simp: withBusRole_ok)
    then show ?thesis using upd(2,3) assms(3) by (intro exI [of _ ?n]) (simp add: update_offset_def)
  qed
qed

lemma publish_db:
  "cn_db (snd (bus_PublishTenant (\<lambda>_. None) None now tid tp payload c)) =
     insert_event now (if tid = [] then NilTenantID else tid) tp payload (cn_db c)"
  by (simp add: bus_PublishTenant_def bus_Publish_def withBusRole_ok)

section \<open>Concurrent publishers\<close>

text \<open>
  A publisher takes the id of its event with \<^verbatim>\<open>INSERT\<close> and shows the row with \<^verbatim>\<open>COMMIT\<close>; a poll
  reads a batch and hands it over, and then saves the offset. Taken apart, the publishers
  interleave with each other and with the two halves of a poll.
\<close>

definition new_event :: "time \<Rightarrow> string \<Rightarrow> string \<Rightarrow> string \<Rightarrow> bus_db \<Rightarrow> Event" where
  "new_event now tid topic payload db =
     \<lparr>ev_ID = bd_next db, ev_TenantID = tid, ev_Topic = topic, ev_Payload = payload, ev_CreatedAt = now\<rparr>"

definition take_id :: "bus_db \<Rightarrow> bus_db" where
  "take_id db = db\<lparr>bd_next := bd_next db + 1\<rparr>"

definition show_event :: "Event \<Rightarrow> bus_db \<Rightarrow> bus_db" where
  "show_event e db = db\<lparr>bd_events := bd_events db @ [e]\<rparr>"

definition poll_read :: "poll_faults \<Rightarrow> postgresBus \<Rightarrow> string \<Rightarrow> bus_db conn \<Rightarrow> (string + Event list) \<times> bus_db conn" where
  "poll_read f b topic c =
     (case withBusRole (pf_query f)
             (exec (case limit_error (pc_BatchSize (pb_cfg b)) of Some e \<Rightarrow> Some e | None \<Rightarrow> pf_rows f) (\<lambda>db. db)) c of
        (Some err, c') \<Rightarrow> (Inl err, c')
      | (None, c') \<Rightarrow>
          (Inr (select_batch (cn_db c) (pc_ConsumerName (pb_cfg b), topic) (nat (pc_BatchSize (pb_cfg b)))), c'))"

definition poll_save :: "poll_faults \<Rightarrow> postgresBus \<Rightarrow> string \<Rightarrow> int \<Rightarrow> bus_db conn \<Rightarrow> go_error \<times> bus_db conn" where
  "poll_save f b topic lastID c =
     (if lastID > 0
      then withBusRole (pf_update f) (exec (pf_stmt f) (update_offset (pc_ConsumerName (pb_cfg b), topic) lastID)) c
      else (None, c))"

text \<open>The halves make up the operations.\<close>

lemma publish_halves:
  "cn_db (snd (bus_PublishTenant (\<lambda>_. None) None now tid tp payload c)) =
     show_event (new_event now (if tid = [] then NilTenantID else tid) tp payload (cn_db c)) (take_id (cn_db c))"
  by (simp add: publish_db insert_event_def show_event_def new_event_def take_id_def)

lemma pollOnce_halves:
  "bus_pollOnce f b topic h (c, s) =
     (case poll_read f b topic c of
        (Inl err, c) \<Rightarrow> (Some err, c, s)
      | (Inr es, c) \<Rightarrow>
          (case deliver h es 0 s of
             (Some err, lastID, s) \<Rightarrow> (Some err, c, s)
           | (None, lastID, s) \<Rightarrow> (case poll_save f b topic lastID c of (err, c) \<Rightarrow> (err, c, s))))"
  by (auto simp: bus_pollOnce_def poll_read_def poll_save_def Let_def split: option.splits prod.splits)
























section \<open>Properties\<close>


definition demo_conn :: "bus_db conn" where
  "demo_conn = \<lparr>cn_cur = \<lparr>st_role = ''omur_app'', st_tenant = []\<rparr>,
     cn_db = \<lparr>bd_events = [], bd_next = 1, bd_offsets = [(''w'', ''t'') \<mapsto> 0]\<rparr>\<rparr>"

definition demo_bus :: postgresBus where
  "demo_bus = NewPostgresBus \<lparr>pc_ConsumerName = ''w'', pc_PollInterval = 0, pc_BatchSize = 2\<rparr>"




text \<open>
  An event whose handler keeps failing blocks its topic and repeats its
  predecessors: every poll hands over the same batch from its beginning up to the
  failing event, never advances the offset and never reaches the events after it.
\<close>

definition failing_on :: "Event \<Rightarrow> Event list ev_handler" where
  "failing_on x e s = (if e = x then Some ''handler failed'' else None, s @ [e])"

lemma failed_event_repeats_batch:
  assumes "select_batch (cn_db c) (pc_ConsumerName (pb_cfg b), topic) (nat (pc_BatchSize (pb_cfg b))) = pre @ x # post"
    and "x \<notin> set pre" and "0 \<le> pc_BatchSize (pb_cfg b)"
  shows "\<exists>c'. ((\<lambda>cs. snd (bus_pollOnce no_faults b topic (failing_on x) cs)) ^^ m) (c, s) =
             (c', s @ concat (replicate m (pre @ [x]))) \<and> cn_db c' = cn_db c"
proof (induction m)
  case (Suc m)
  then obtain c' where
    c': "((\<lambda>cs. snd (bus_pollOnce no_faults b topic (failing_on x) cs)) ^^ m) (c, s) =
             (c', s @ concat (replicate m (pre @ [x])))" "cn_db c' = cn_db c" by blast
  have deliver: "deliver (failing_on x) (pre @ x # post) l t =
      (Some ''handler failed'', if pre = [] then l else ev_ID (last pre), t @ pre @ [x])" for l t
    using assms(2) by (induction pre arbitrary: l t) (auto simp: failing_on_def)
  have rep: "concat (replicate (Suc m) ys) = concat (replicate m ys) @ ys" for ys :: "Event list"
    by (induction m) simp_all
  show ?case
    using assms(1,3) c' deliver rep [of "pre @ [x]"]
    by (simp add: bus_pollOnce_def no_faults_def limit_error_def withBusRole_ok del: replicate.simps concat.simps)
qed simp

lemma failed_event_repeats_batch_witness:
  "\<exists>c'. ((\<lambda>cs. snd (bus_pollOnce no_faults demo_bus ''t''
       (failing_on \<lparr>ev_ID = 2, ev_TenantID = ''u'', ev_Topic = ''t'', ev_Payload = ''y'', ev_CreatedAt = 6\<rparr>) cs)) ^^ 2)
      (demo_conn\<lparr>cn_db := insert_event 6 ''u'' ''t'' ''y'' (insert_event 5 ''u'' ''t'' ''x'' (cn_db demo_conn))\<rparr>, []) = (c',
     [\<lparr>ev_ID = 1, ev_TenantID = ''u'', ev_Topic = ''t'', ev_Payload = ''x'', ev_CreatedAt = 5\<rparr>,
      \<lparr>ev_ID = 2, ev_TenantID = ''u'', ev_Topic = ''t'', ev_Payload = ''y'', ev_CreatedAt = 6\<rparr>,
      \<lparr>ev_ID = 1, ev_TenantID = ''u'', ev_Topic = ''t'', ev_Payload = ''x'', ev_CreatedAt = 5\<rparr>,
      \<lparr>ev_ID = 2, ev_TenantID = ''u'', ev_Topic = ''t'', ev_Payload = ''y'', ev_CreatedAt = 6\<rparr>])"
proof -
  let ?x = "\<lparr>ev_ID = 1, ev_TenantID = ''u'', ev_Topic = ''t'', ev_Payload = ''x'', ev_CreatedAt = 5\<rparr>"
  let ?y = "\<lparr>ev_ID = 2, ev_TenantID = ''u'', ev_Topic = ''t'', ev_Payload = ''y'', ev_CreatedAt = 6\<rparr>"
  let ?c = "demo_conn\<lparr>cn_db := insert_event 6 ''u'' ''t'' ''y'' (insert_event 5 ''u'' ''t'' ''x'' (cn_db demo_conn))\<rparr>"
  have "select_batch (cn_db ?c) (pc_ConsumerName (pb_cfg demo_bus), ''t'') (nat (pc_BatchSize (pb_cfg demo_bus))) = [?x] @ ?y # []"
    by (simp add: select_batch_def insert_event_def demo_conn_def demo_bus_def NewPostgresBus_def)
  from failed_event_repeats_batch [OF this, of 2 "[]"] show ?thesis
    by (auto simp: numeral_2_eq_2 demo_bus_def NewPostgresBus_def)
qed

text \<open>
  Ids are taken from the sequence before a transaction commits, so a row can appear with
  an id below the offset of a consumer. Whatever the polls after that do, with any
  handler and any failures, they never hand it over: the offset does not go back.
\<close>

lemma deliver_last: "deliver h es l s = (r, l', s') \<Longrightarrow> l' = l \<or> l' \<in> ev_ID ` set es"
  by (induction es arbitrary: l s) (auto split: prod.splits option.splits)

lemma withBusRole_update:
  "withBusRole ex (exec err f) c = (r, c') \<Longrightarrow> cn_db c' = cn_db c \<or> cn_db c' = f (cn_db c)"
  by (cases r) (auto dest: withBusRole_done withBusRole_failed)

lemma poll_offset_mono:
  fixes b topic
  defines "k \<equiv> (pc_ConsumerName (pb_cfg b), topic)"
  assumes "bd_offsets (cn_db c) k = Some off" and "bus_pollOnce f b topic h (c, s) = (r, c', s')"
  shows "\<exists>off'. bd_offsets (cn_db c') k = Some off' \<and> off \<le> off'"
proof -
  obtain e c1 where q: "withBusRole (pf_query f)
      (exec (case limit_error (pc_BatchSize (pb_cfg b)) of Some e \<Rightarrow> Some e | None \<Rightarrow> pf_rows f) (\<lambda>db. db)) c = (e, c1)"
    by fastforce
  obtain x l t where d: "deliver h (select_batch (cn_db c) k (nat (pc_BatchSize (pb_cfg b)))) 0 s = (x, l, t)"
    by (metis prod.exhaust)
  obtain y c2 where u: "withBusRole (pf_update f) (exec (pf_stmt f) (update_offset k l)) c1 = (y, c2)" by fastforce
  have "c' = c1 \<or> (c' = c2 \<and> 0 < l)"
    using assms(3) unfolding bus_pollOnce_def Let_def prod.case k_def [symmetric] q d
    by (cases e; cases x) (auto simp: u split: if_splits)
  moreover have "0 < l \<Longrightarrow> off < l"
    using deliver_last [OF d] assms(2) by (auto simp: select_batch_def dest: in_set_takeD)
  ultimately show ?thesis
    using withBusRole_update [OF u] withBusRole_read [OF q] assms(2) by (auto simp: update_offset_def)
qed

lemma late_event_lost:
  assumes "bd_offsets (cn_db c) (pc_ConsumerName (pb_cfg b), topic) = Some off" and "ev_ID e \<le> off"
    and "fold (\<lambda>f cs. snd (bus_pollOnce f b topic h cs)) fs (c, s) = (c', s')"
  shows "e \<notin> set (select_batch (cn_db c') (pc_ConsumerName (pb_cfg b), topic) n)"
proof -
  let ?k = "(pc_ConsumerName (pb_cfg b), topic)"
  let ?P = "\<lambda>cs. \<exists>off'. bd_offsets (cn_db (fst cs)) ?k = Some off' \<and> off \<le> off'"
  have "?P (fold (\<lambda>f cs. snd (bus_pollOnce f b topic h cs)) fs (c, s))"
  proof (rule fold_inv [of ?P])
    fix f and cs :: "bus_db conn \<times> 'a"
    assume "?P cs"
    then obtain off1 where off1: "bd_offsets (cn_db (fst cs)) ?k = Some off1" "off \<le> off1" by blast
    obtain r c1 s1 where "bus_pollOnce f b topic h (fst cs, snd cs) = (r, c1, s1)" by (metis prod.exhaust)
    with poll_offset_mono [OF off1(1) this] off1(2) show "?P (snd (bus_pollOnce f b topic h cs))" by auto
  qed (use assms(1) in simp)
  then show ?thesis using assms(2,3) by (auto simp: select_batch_def dest: in_set_takeD)
qed

text \<open>A system event reaches the handlers under the nil tenant, not with an empty one.\<close>

lemma system_event_tenant:
  "bus_Publish ex err now topic payload c = (None, c') \<Longrightarrow>
     bd_events (cn_db c') = bd_events (cn_db c) @ [\<lparr>ev_ID = bd_next (cn_db c), ev_TenantID = NilTenantID,
       ev_Topic = topic, ev_Payload = payload, ev_CreatedAt = now\<rparr>]"
  using withBusRole_done [of ex err "insert_event now NilTenantID topic payload" c c']
  by (simp add: bus_Publish_def insert_event_def)

end
