(* ===== verification/Valkey.thy ===== *)
theory Valkey
  imports Prelude
begin

text \<open>
  Packages \<^verbatim>\<open>valkeystream\<close> and \<^verbatim>\<open>valkeysub\<close> (\<^verbatim>\<open>src/valkeystream/\<close>, \<^verbatim>\<open>src/valkeysub/\<close>): the
  wrapper of Redis streams with a consumer group, and the subscriber of a pub/sub channel
  that reconnects.

  The client library with the server behind it is a record of the calls the package makes,
  on a world \<open>'w\<close> that it keeps. The fields of a stream entry are a list of pairs.
\<close>

section \<open>The Redis client\<close>

text \<open>A field of an entry as the client library gives it; only strings are kept.\<close>

datatype xvalue = XString string | XOther

type_synonym xmessage = "string \<times> (string \<times> xvalue) list"

datatype xread_reply = XNil | XError string | XStreams "xmessage list list"

record xpending =
  xp_Count :: int
  xp_Lower :: string
  xp_Higher :: string

text \<open>\<open>rd_Close\<close> closes the client that was made for the stream of the given key.\<close>

record 'w redis =
  rd_Ping :: "'w \<Rightarrow> go_error \<times> 'w"
  rd_XGroupCreateMkStream :: "string \<Rightarrow> string \<Rightarrow> string \<Rightarrow> 'w \<Rightarrow> go_error \<times> 'w"
  rd_XAdd :: "string \<Rightarrow> string \<Rightarrow> (string \<times> string) list \<Rightarrow> 'w \<Rightarrow> (string + string) \<times> 'w"
  rd_XReadGroup :: "string \<Rightarrow> string \<Rightarrow> string list \<Rightarrow> int \<Rightarrow> duration \<Rightarrow> 'w \<Rightarrow> xread_reply \<times> 'w"
  rd_XAck :: "string \<Rightarrow> string \<Rightarrow> string \<Rightarrow> 'w \<Rightarrow> go_error \<times> 'w"
  rd_XDel :: "string \<Rightarrow> string \<Rightarrow> 'w \<Rightarrow> go_error \<times> 'w"
  rd_XLen :: "string \<Rightarrow> 'w \<Rightarrow> (string + int) \<times> 'w"
  rd_XAutoClaim :: "string \<Rightarrow> string \<Rightarrow> string \<Rightarrow> duration \<Rightarrow> string \<Rightarrow> int \<Rightarrow> 'w \<Rightarrow> (string + xmessage list) \<times> 'w"
  rd_XPending :: "string \<Rightarrow> string \<Rightarrow> 'w \<Rightarrow> (string + xpending) \<times> 'w"
  rd_Close :: "string \<Rightarrow> 'w \<Rightarrow> go_error \<times> 'w"

section \<open>Streams (valkeystream)\<close>

record Message =
  ms_ID :: string
  ms_Values :: "(string \<times> string) list"

record Stream =
  sm_streamKey :: string
  sm_group :: string
  sm_consumer :: string

definition stream_New :: "'w redis \<Rightarrow> string \<Rightarrow> string \<Rightarrow> string \<Rightarrow> 'w \<Rightarrow> (string + Stream) \<times> 'w" where
  "stream_New R streamKey grp consumer w =
     (case rd_Ping R w of
        (Some err, w) \<Rightarrow> (Inl err, snd (rd_Close R streamKey w))
      | (None, w) \<Rightarrow>
          (let ok = \<lparr>sm_streamKey = streamKey, sm_group = grp, sm_consumer = consumer\<rparr> in
           case rd_XGroupCreateMkStream R streamKey grp ''0'' w of
             (Some err, w) \<Rightarrow>
               if \<not> Contains err ''BUSYGROUP'' then (Inl err, snd (rd_Close R streamKey w)) else (Inr ok, w)
           | (None, w) \<Rightarrow> (Inr ok, w)))"

definition stream_Add :: "'w redis \<Rightarrow> Stream \<Rightarrow> (string \<times> string) list \<Rightarrow> 'w \<Rightarrow> (string + string) \<times> 'w" where
  "stream_Add R s values = rd_XAdd R (sm_streamKey s) ''*'' values"

fun string_values :: "(string \<times> xvalue) list \<Rightarrow> (string \<times> string) list" where
  "string_values [] = []"
| "string_values ((k, XString v) # vs) = (k, v) # string_values vs"
| "string_values ((k, XOther) # vs) = string_values vs"

definition to_message :: "xmessage \<Rightarrow> Message" where
  "to_message x = \<lparr>ms_ID = fst x, ms_Values = string_values (snd x)\<rparr>"

definition ReadGroup :: "'w redis \<Rightarrow> Stream \<Rightarrow> int \<Rightarrow> duration \<Rightarrow> 'w \<Rightarrow> (string + Message list) \<times> 'w" where
  "ReadGroup R s count timeout w =
     (case rd_XReadGroup R (sm_group s) (sm_consumer s) [sm_streamKey s, ''>''] count timeout w of
        (XNil, w) \<Rightarrow> (Inr [], w)
      | (XError err, w) \<Rightarrow> (Inl err, w)
      | (XStreams ss, w) \<Rightarrow> (Inr (map to_message (concat ss)), w))"

definition stream_Ack :: "'w redis \<Rightarrow> Stream \<Rightarrow> string \<Rightarrow> 'w \<Rightarrow> go_error \<times> 'w" where
  "stream_Ack R s i = rd_XAck R (sm_streamKey s) (sm_group s) i"

definition stream_Delete :: "'w redis \<Rightarrow> Stream \<Rightarrow> string \<Rightarrow> 'w \<Rightarrow> go_error \<times> 'w" where
  "stream_Delete R s i = rd_XDel R (sm_streamKey s) i"

definition stream_Len :: "'w redis \<Rightarrow> Stream \<Rightarrow> 'w \<Rightarrow> (string + int) \<times> 'w" where
  "stream_Len R s = rd_XLen R (sm_streamKey s)"

definition stream_Close :: "'w redis \<Rightarrow> Stream \<Rightarrow> 'w \<Rightarrow> go_error \<times> 'w" where
  "stream_Close R s = rd_Close R (sm_streamKey s)"

definition ClaimStale :: "'w redis \<Rightarrow> Stream \<Rightarrow> duration \<Rightarrow> int \<Rightarrow> 'w \<Rightarrow> (string + Message list) \<times> 'w" where
  "ClaimStale R s minIdle count w =
     (case rd_XAutoClaim R (sm_streamKey s) (sm_group s) (sm_consumer s) minIdle ''0-0'' count w of
        (Inl err, w) \<Rightarrow> (Inl err, w)
      | (Inr xs, w) \<Rightarrow> (Inr (map to_message xs), w))"

definition stream_Pending :: "'w redis \<Rightarrow> Stream \<Rightarrow> 'w \<Rightarrow> (string + xpending) \<times> 'w" where
  "stream_Pending R s = rd_XPending R (sm_streamKey s) (sm_group s)"

section \<open>Pub/sub (valkeysub)\<close>

text \<open>
  One connection of the subscriber: the messages its select takes in order, and how it
  ends, with the cancelled context or with the closed channel followed by a wait
  that ends with the delay or the cancelled context.
\<close>

datatype session_end = CtxDone | ClosedThenDelay | ClosedThenCtxDone

record Subscriber =
  sb_addr :: string
  sb_reconnectDelay :: duration

definition WithReconnectDelay :: "duration \<Rightarrow> Subscriber \<Rightarrow> Subscriber" where
  "WithReconnectDelay d s = s\<lparr>sb_reconnectDelay := d\<rparr>"

definition sub_New :: "string \<Rightarrow> (Subscriber \<Rightarrow> Subscriber) list \<Rightarrow> Subscriber" where
  "sub_New addr opts = fold (\<lambda>f s. f s) opts \<lparr>sb_addr = addr, sb_reconnectDelay = 5 * second\<rparr>"

definition ReconnectDelay :: "Subscriber \<Rightarrow> duration" where
  "ReconnectDelay s = sb_reconnectDelay s"

definition sub_run :: "(string \<Rightarrow> 's \<Rightarrow> 's) \<Rightarrow> string list \<times> session_end \<Rightarrow> 's \<Rightarrow> go_error \<times> 's" where
  "sub_run handler ses s =
     (if snd ses = CtxDone then None else Some ''context deadline exceeded'', fold handler (fst ses) s)"

text \<open>The flag says whether \<^verbatim>\<open>Subscribe\<close> has returned.\<close>

fun Subscribe_channel :: "(string \<Rightarrow> 's \<Rightarrow> 's) \<Rightarrow> (string list \<times> session_end) list \<Rightarrow> 's \<Rightarrow> bool \<times> 's" where
  "Subscribe_channel handler [] s = (False, s)"
| "Subscribe_channel handler (ses # rest) s =
     (case sub_run handler ses s of
        (None, s) \<Rightarrow> (True, s)
      | (Some err, s) \<Rightarrow> if snd ses = ClosedThenCtxDone then (True, s) else Subscribe_channel handler rest s)"

section \<open>Lemmas\<close>

lemma string_values_strings [simp]: "string_values (map (\<lambda>(k, v). (k, XString v)) vs) = vs"
  by (induction vs) auto

text \<open>
  A subscriber returns exactly when a connection or the wait after it ends with the cancelled context, and until
  then it has handed over the messages of every connection up to that one.
\<close>

lemma Subscribe_channel_returns:
  "Subscribe_channel h sess s =
     (list_ex (\<lambda>ses. snd ses \<noteq> ClosedThenDelay) sess,
      fold h (concat (map fst (takeWhile (\<lambda>ses. snd ses = ClosedThenDelay) sess
                               @ take 1 (dropWhile (\<lambda>ses. snd ses = ClosedThenDelay) sess)))) s)"
proof (induction sess arbitrary: s)
  case (Cons ses sess)
  then show ?case by (cases "snd ses") (simp_all add: sub_run_def)
qed simp

end
