(* ===== verification/Redis_Bus.thy ===== *)
theory Redis_Bus
  imports Valkey Event_Bus
begin

text \<open>
  Package \<^verbatim>\<open>eventbus\<close>, the bus over Redis streams, the factory and the interface \<^verbatim>\<open>Bus\<close>
  (\<^verbatim>\<open>src/eventbus/redis.go\<close>, \<^verbatim>\<open>src/eventbus/factory.go\<close>, \<^verbatim>\<open>src/eventbus/bus.go\<close>). The interface is
  the locale \<open>event_bus\<close>: for every topic a bus is a queue, and both backends implement it.
\<close>

section \<open>The Redis bus\<close>

record RedisConfig =
  rc_Addr :: string
  rc_Password :: string
  rc_StreamPrefix :: string
  rc_ConsumerName :: string
  rc_Group :: string

record redisBus =
  rb_cfg :: RedisConfig
  rb_streams :: "string \<Rightarrow> Stream option"

definition NewRedisBus :: "RedisConfig \<Rightarrow> redisBus" where
  "NewRedisBus cfg =
     (let cfg = (if rc_StreamPrefix cfg = [] then cfg\<lparr>rc_StreamPrefix := ''omur:events:''\<rparr> else cfg)
      in \<lparr>rb_cfg = cfg, rb_streams = (\<lambda>_. None)\<rparr>)"

definition streamFor :: "'w redis \<Rightarrow> string \<Rightarrow> redisBus \<times> 'w \<Rightarrow> (string + Stream) \<times> redisBus \<times> 'w" where
  "streamFor R topic = (\<lambda>(b, w).
     (case rb_streams b topic of
        Some s \<Rightarrow> (Inr s, b, w)
      | None \<Rightarrow>
          (case stream_New R (rc_StreamPrefix (rb_cfg b) @ topic) (rc_Group (rb_cfg b)) (rc_ConsumerName (rb_cfg b)) w of
             (Inl err, w) \<Rightarrow> (Inl err, b, w)
           | (Inr s, w) \<Rightarrow> (Inr s, b\<lparr>rb_streams := (rb_streams b)(topic \<mapsto> s)\<rparr>, w))))"

text \<open>What \<^verbatim>\<open>Publish\<close> and \<^verbatim>\<open>PublishTenant\<close> share: the stream of the topic, then one entry.\<close>

definition add_to_topic ::
  "'w redis \<Rightarrow> string \<Rightarrow> (string \<times> string) list \<Rightarrow> redisBus \<times> 'w \<Rightarrow> go_error \<times> redisBus \<times> 'w" where
  "add_to_topic R topic values bw =
     (case streamFor R topic bw of
        (Inl err, b, w) \<Rightarrow> (Some err, b, w)
      | (Inr s, b, w) \<Rightarrow>
          (case stream_Add R s values w of
             (Inl err, w) \<Rightarrow> (Some err, b, w)
           | (Inr i, w) \<Rightarrow> (None, b, w)))"

definition redis_Publish :: "'w redis \<Rightarrow> string \<Rightarrow> string \<Rightarrow> redisBus \<times> 'w \<Rightarrow> go_error \<times> redisBus \<times> 'w" where
  "redis_Publish R topic payload = add_to_topic R topic [(''payload'', payload)]"

definition redis_PublishTenant ::
  "'w redis \<Rightarrow> string \<Rightarrow> string \<Rightarrow> string \<Rightarrow> redisBus \<times> 'w \<Rightarrow> go_error \<times> redisBus \<times> 'w" where
  "redis_PublishTenant R tenantID topic payload =
     add_to_topic R topic [(''tenant_id'', tenantID), (''payload'', payload)]"

definition redis_event :: "time \<Rightarrow> string \<Rightarrow> Message \<Rightarrow> Event" where
  "redis_event now topic m =
     (let val = (\<lambda>k. case map_of (ms_Values m) k of None \<Rightarrow> [] | Some v \<Rightarrow> v)
      in \<lparr>ev_ID = 0, ev_TenantID = val ''tenant_id'', ev_Topic = topic, ev_Payload = val ''payload'', ev_CreatedAt = now\<rparr>)"

text \<open>The messages of one read, each with the time at which it is turned into an event.\<close>

fun handle_msgs ::
  "'w redis \<Rightarrow> Stream \<Rightarrow> string \<Rightarrow> 's ev_handler \<Rightarrow> (nat \<Rightarrow> time) \<Rightarrow> Message list \<Rightarrow> 's \<times> 'w \<Rightarrow> 's \<times> 'w" where
  "handle_msgs R sm topic h now [] sw = sw"
| "handle_msgs R sm topic h now (m # ms) (s, w) =
     (case h (redis_event (now 0) topic m) s of
        (err, s) \<Rightarrow>
          handle_msgs R sm topic h (\<lambda>n. now (Suc n)) ms
            (s, if err = None then snd (stream_Ack R sm (ms_ID m) w) else w))"

text \<open>
  One pass of the loop: the context is done before the read, or not; then the flag says
  whether it is done after a failed read. The result is the error the loop returned, or
  nothing while it runs.
\<close>

datatype redis_pass = PassCtxDone | PassRead bool "nat \<Rightarrow> time"

fun redis_loop ::
  "'w redis \<Rightarrow> Stream \<Rightarrow> string \<Rightarrow> 's ev_handler \<Rightarrow> redis_pass list \<Rightarrow> 's \<times> 'w \<Rightarrow> go_error \<times> 's \<times> 'w" where
  "redis_loop R sm topic h [] sw = (None, sw)"
| "redis_loop R sm topic h (PassCtxDone # ps) sw = (Some ''context canceled'', sw)"
| "redis_loop R sm topic h (PassRead stop now # ps) (s, w) =
     (case ReadGroup R sm 100 (2 * second) w of
        (Inl err, w) \<Rightarrow> if stop then (Some ''context canceled'', s, w) else redis_loop R sm topic h ps (s, w)
      | (Inr msgs, w) \<Rightarrow> redis_loop R sm topic h ps (handle_msgs R sm topic h now msgs (s, w)))"

definition redis_Subscribe ::
  "'w redis \<Rightarrow> redis_pass list \<Rightarrow> string \<Rightarrow> 's ev_handler \<Rightarrow> (redisBus \<times> 'w) \<times> 's
   \<Rightarrow> go_error \<times> (redisBus \<times> 'w) \<times> 's" where
  "redis_Subscribe R ps topic h = (\<lambda>(bw, s).
     (case streamFor R topic bw of
        (Inl err, bw) \<Rightarrow> (Some err, bw, s)
      | (Inr sm, b, w) \<Rightarrow> (case redis_loop R sm topic h ps (s, w) of (e, s, w) \<Rightarrow> (e, (b, w), s))))"

text \<open>\<^verbatim>\<open>Close\<close> visits the streams in the order \<open>ts\<close> of their topics.\<close>

definition redis_Close :: "'w redis \<Rightarrow> string list \<Rightarrow> redisBus \<times> 'w \<Rightarrow> go_error \<times> redisBus \<times> 'w" where
  "redis_Close R ts = (\<lambda>(b, w).
     (None, b, fold (\<lambda>t w. case rb_streams b t of None \<Rightarrow> w | Some s \<Rightarrow> snd (stream_Close R s w)) ts w))"

section \<open>Choosing the backend\<close>

datatype bus_backend = PostgresBackend postgresBus | RedisBackend redisBus

definition bus_BackendFromEnv :: "string \<Rightarrow> string + string" where
  "bus_BackendFromEnv v =
     (if v = [] then Inr ''postgres''
      else if v = ''postgres'' \<or> v = ''redis'' then Inr v
      else Inl (''eventbus: unknown backend '' @ go_quote v))"

definition bus_New :: "(string \<Rightarrow> string) \<Rightarrow> bool \<Rightarrow> string \<Rightarrow> string + bus_backend" where
  "bus_New env pool consumerName =
     (case bus_BackendFromEnv (env ''OMUR_EVENTBUS_BACKEND'') of
        Inl err \<Rightarrow> Inl err
      | Inr b \<Rightarrow>
          if b = ''postgres'' then
            (if \<not> pool then Inl ''eventbus: postgres backend requires non-nil pool''
             else Inr (PostgresBackend (NewPostgresBus
                    \<lparr>pc_ConsumerName = consumerName, pc_PollInterval = 0, pc_BatchSize = 0\<rparr>)))
          else
            (let port = (if env ''VALKEY_PORT'' = [] then ''6379'' else env ''VALKEY_PORT'') in
             Inr (RedisBackend (NewRedisBus \<lparr>rc_Addr = env ''VALKEY_HOST'' @ '':'' @ port,
                    rc_Password = env ''VALKEY_PASSWORD'', rc_StreamPrefix = [], rc_ConsumerName = consumerName,
                    rc_Group = consumerName\<rparr>))))"

section \<open>The interface\<close>

text \<open>
  A bus is a queue for every topic. \<open>backlog\<close> is what the subscriber of a topic has still to
  be handed, as tenants and payloads; \<open>publish\<close> is \<^verbatim>\<open>Publish\<close> (no tenant) or \<^verbatim>\<open>PublishTenant\<close>.
  \<^verbatim>\<open>Subscribe\<close> blocks while publishers run, so it is taken in pieces: \<open>pass\<close> is its part before
  the loop or one pass of the loop, with a handler that accepts every event, and gives the
  events handed over. \<open>shown\<close> is the tenant under which an event appears, \<open>clean\<close> the
  failures under which no event is repeated.
\<close>

abbreviation ev_content :: "Event \<Rightarrow> string \<times> string" where
  "ev_content e \<equiv> (ev_TenantID e, ev_Payload e)"

datatype ('f, 'g) bus_call = CallPublish 'f "string option" string string | CallPass 'g string

text \<open>A run of publishes and passes with what was published successfully and what was handed over.\<close>

fun bus_call_step ::
  "('f \<Rightarrow> string option \<Rightarrow> string \<Rightarrow> string \<Rightarrow> 's \<Rightarrow> go_error \<times> 's) \<Rightarrow> ('g \<Rightarrow> string \<Rightarrow> 's \<Rightarrow> Event list \<times> 's) \<Rightarrow>
   ('f, 'g) bus_call \<Rightarrow> 's \<times> (string \<times> string option \<times> string) list \<times> Event list
   \<Rightarrow> 's \<times> (string \<times> string option \<times> string) list \<times> Event list" where
  "bus_call_step pub sub (CallPublish f who t p) (s, done, evs) =
     (case pub f who t p s of (r, s) \<Rightarrow> (s, if r = None then done @ [(t, who, p)] else done, evs))"
| "bus_call_step pub sub (CallPass g t) (s, done, evs) =
     (case sub g t s of (es, s) \<Rightarrow> (s, done, evs @ es))"

definition on_topic :: "string \<Rightarrow> (string \<times> string option \<times> string) list \<Rightarrow> (string option \<times> string) list" where
  "on_topic t ps = map snd (filter (\<lambda>x. fst x = t) ps)"

definition handed_on :: "string \<Rightarrow> Event list \<Rightarrow> (string \<times> string) list" where
  "handed_on t es = map ev_content (filter (\<lambda>e. ev_Topic e = t) es)"

lemma handed_on_all:
  assumes "\<forall>e \<in> set es. ev_Topic e = t"
  shows "handed_on t' es = (if t' = t then map ev_content es else [])"
proof (cases "t' = t")
  case True
  have "filter (\<lambda>e. ev_Topic e = t) es = es" using assms by simp
  then show ?thesis using True by (simp add: handed_on_def)
next
  case False
  then show ?thesis using assms by (auto simp: handed_on_def filter_empty_conv)
qed

fun clean_call :: "('g \<Rightarrow> bool) \<Rightarrow> ('f, 'g) bus_call \<Rightarrow> bool" where
  "clean_call clean (CallPublish f who t p) = True"
| "clean_call clean (CallPass g t) = clean g"

locale event_bus =
  fixes inv :: "'env \<Rightarrow> 's \<Rightarrow> bool"
    and publish :: "'env \<Rightarrow> 'f \<Rightarrow> string option \<Rightarrow> string \<Rightarrow> string \<Rightarrow> 's \<Rightarrow> go_error \<times> 's"
    and pass :: "'env \<Rightarrow> 'g \<Rightarrow> string \<Rightarrow> 's \<Rightarrow> Event list \<times> 's"
    and clean :: "'g \<Rightarrow> bool"
    and backlog :: "'env \<Rightarrow> string \<Rightarrow> 's \<Rightarrow> (string \<times> string) list"
    and shown :: "string option \<Rightarrow> string"
  assumes publish_law: "inv env s \<Longrightarrow> publish env f who t p s = (r, s') \<Longrightarrow>
      inv env s' \<and> (\<forall>t'. backlog env t' s' = backlog env t' s @ (if r = None \<and> t' = t then [(shown who, p)] else []))"
    and pass_law: "inv env s \<Longrightarrow> clean g \<Longrightarrow> pass env g t s = (es, s') \<Longrightarrow>
      inv env s' \<and> (\<forall>t'. handed_on t' es @ backlog env t' s' = backlog env t' s)"
begin

text \<open>Every event is handed over once, in the order of publication, or still waits.\<close>

lemma fifo:
  assumes "inv env s0" and "list_all (clean_call clean) cs"
    and "fold (bus_call_step (publish env) (pass env)) cs (s0, [], []) = (s, done, evs)"
  shows "handed_on t evs @ backlog env t s =
     backlog env t s0 @ map (\<lambda>(who, p). (shown who, p)) (on_topic t done)"
proof -
  let ?J = "\<lambda>(s, done, evs). inv env s \<and> (\<forall>t. handed_on t evs @ backlog env t s =
      backlog env t s0 @ map (\<lambda>(who, p). (shown who, p)) (on_topic t done))"
  have "?J x \<Longrightarrow> list_all (clean_call clean) cs \<Longrightarrow>
      ?J (fold (bus_call_step (publish env) (pass env)) cs x)" for x
  proof (induction cs arbitrary: x)
    case (Cons c cs)
    obtain s1 d1 e1 where x: "x = (s1, d1, e1)" by (metis prod.exhaust)
    have "?J (bus_call_step (publish env) (pass env) c x)"
    proof (cases c)
      case (CallPublish f who t p)
      obtain r s2 where r: "publish env f who t p s1 = (r, s2)" by fastforce
      show ?thesis
        using Cons.prems(1) publish_law [OF _ r] unfolding x CallPublish
        by (auto simp: r on_topic_def)
    next
      case (CallPass g t)
      obtain es s2 where r: "pass env g t s1 = (es, s2)" by fastforce
      have "clean g" using Cons.prems(2) CallPass by simp
      then show ?thesis
        using Cons.prems(1) pass_law [OF _ _ r] unfolding x CallPass
        by (auto simp: r handed_on_def)
    qed
    then show ?case using Cons by simp
  qed simp
  from this [of "(s0, [], [])"] show ?thesis using assms by (simp add: handed_on_def on_topic_def)
qed

end

section \<open>The Postgres bus as a queue\<close>




lemma bus_Subscribe_passes:
  "bus_Subscribe ex err f ts b t h cs =
     (case bus_Subscribe ex err f [] b t h cs of (Some e, cs) \<Rightarrow> (Some e, cs) | (None, cs) \<Rightarrow> bus_loop b t h ts cs)"
  by (cases cs) (simp add: bus_Subscribe_def split: prod.splits option.splits)

lemma bus_loop_passes:
  "bus_loop b t h (BusTick f # ts) cs = bus_loop b t h ts (snd (bus_loop b t h [BusTick f] cs))"
  by simp











section \<open>The Redis bus as a queue\<close>

text \<open>
  What a server shows: the entries of a stream and, for a consumer group that exists, the
  entries that it has not yet delivered to the group.
\<close>

record 'w redis_view =
  rv_log :: "'w \<Rightarrow> string \<Rightarrow> xmessage list"
  rv_new :: "'w \<Rightarrow> string \<Rightarrow> string \<Rightarrow> xmessage list option"

definition unchanged :: "'w redis_view \<Rightarrow> 'w \<Rightarrow> 'w \<Rightarrow> bool" where
  "unchanged V w w' \<longleftrightarrow> rv_log V w' = rv_log V w \<and> rv_new V w' = rv_new V w"

text \<open>
  The documented behaviour of the commands, for calls that fail without an effect: a group
  created from 0 gets all entries, \<^verbatim>\<open>XADD\<close> appends one entry that is new to every group,
  \<^verbatim>\<open>XREADGROUP\<close> with \<^verbatim>\<open>>\<close> delivers the first new entries, acknowledging delivers nothing.
\<close>

definition redis_laws :: "'w redis \<Rightarrow> 'w redis_view \<Rightarrow> bool" where
  "redis_laws R V \<longleftrightarrow>
     (\<forall>w. unchanged V w (snd (rd_Ping R w))) \<and>
     (\<forall>k w. unchanged V w (snd (rd_Close R k w))) \<and>
     (\<forall>k g i w. unchanged V w (snd (rd_XAck R k g i w))) \<and>
     (\<forall>k g w. case rd_XGroupCreateMkStream R k g ''0'' w of
        (None, w') \<Rightarrow> rv_new V w k g = None \<and> rv_log V w' = rv_log V w \<and>
                       rv_new V w' = (rv_new V w)(k := (rv_new V w k)(g \<mapsto> rv_log V w k))
      | (Some e, w') \<Rightarrow> unchanged V w w' \<and> (Contains e ''BUSYGROUP'' \<longrightarrow> rv_new V w k g \<noteq> None)) \<and>
     (\<forall>k vs w. case rd_XAdd R k ''*'' vs w of
        (Inl e, w') \<Rightarrow> unchanged V w w'
      | (Inr i, w') \<Rightarrow> (let x = (i, map (\<lambda>(f, v). (f, XString v)) vs) in
           rv_log V w' = (rv_log V w)(k := rv_log V w k @ [x]) \<and>
           rv_new V w' = (rv_new V w)(k := \<lambda>g. map_option (\<lambda>xs. xs @ [x]) (rv_new V w k g)))) \<and>
     (\<forall>k g c n t w. case rd_XReadGroup R g c [k, ''>''] n t w of
        (XStreams ss, w') \<Rightarrow> rv_log V w' = rv_log V w \<and>
           (\<exists>xs. rv_new V w k g = Some xs \<and> concat ss = take (nat n) xs \<and>
                 rv_new V w' = (rv_new V w)(k := (rv_new V w k)(g \<mapsto> drop (nat n) xs)))
      | (_, w') \<Rightarrow> unchanged V w w')"

lemma laws_quiet:
  assumes "redis_laws R V"
  shows "unchanged V w (snd (rd_Ping R w))" "unchanged V w (snd (rd_Close R k w))" "unchanged V w (snd (rd_XAck R k g i w))"
  using assms by (simp_all add: redis_laws_def)

lemma laws_XGroupCreate:
  assumes "redis_laws R V" and "rd_XGroupCreateMkStream R k g ''0'' w = (r, w')"
  shows "case r of
       None \<Rightarrow> rv_new V w k g = None \<and> rv_log V w' = rv_log V w \<and>
               rv_new V w' = (rv_new V w)(k := (rv_new V w k)(g \<mapsto> rv_log V w k))
     | Some e \<Rightarrow> unchanged V w w' \<and> (Contains e ''BUSYGROUP'' \<longrightarrow> rv_new V w k g \<noteq> None)"
proof -
  have "case rd_XGroupCreateMkStream R k g ''0'' w of
       (None, w') \<Rightarrow> rv_new V w k g = None \<and> rv_log V w' = rv_log V w \<and>
                      rv_new V w' = (rv_new V w)(k := (rv_new V w k)(g \<mapsto> rv_log V w k))
     | (Some e, w') \<Rightarrow> unchanged V w w' \<and> (Contains e ''BUSYGROUP'' \<longrightarrow> rv_new V w k g \<noteq> None)"
    using assms(1) by (simp only: redis_laws_def)
  with assms(2) show ?thesis by (cases r) auto
qed

lemma laws_XAdd:
  assumes "redis_laws R V" and "rd_XAdd R k ''*'' vs w = (r, w')"
  shows "case r of
       Inl e \<Rightarrow> unchanged V w w'
     | Inr i \<Rightarrow> (let x = (i, map (\<lambda>(f, v). (f, XString v)) vs) in
          rv_log V w' = (rv_log V w)(k := rv_log V w k @ [x]) \<and>
          rv_new V w' = (rv_new V w)(k := \<lambda>g. map_option (\<lambda>xs. xs @ [x]) (rv_new V w k g)))"
proof -
  have "case rd_XAdd R k ''*'' vs w of
       (Inl e, w') \<Rightarrow> unchanged V w w'
     | (Inr i, w') \<Rightarrow> (let x = (i, map (\<lambda>(f, v). (f, XString v)) vs) in
          rv_log V w' = (rv_log V w)(k := rv_log V w k @ [x]) \<and>
          rv_new V w' = (rv_new V w)(k := \<lambda>g. map_option (\<lambda>xs. xs @ [x]) (rv_new V w k g)))"
    using assms(1) by (simp only: redis_laws_def)
  with assms(2) show ?thesis by (cases r) auto
qed

lemma laws_XReadGroup:
  assumes "redis_laws R V" and "rd_XReadGroup R g c [k, ''>''] n t w = (r, w')"
  shows "case r of
       XStreams ss \<Rightarrow> rv_log V w' = rv_log V w \<and>
          (\<exists>xs. rv_new V w k g = Some xs \<and> concat ss = take (nat n) xs \<and>
                rv_new V w' = (rv_new V w)(k := (rv_new V w k)(g \<mapsto> drop (nat n) xs)))
     | _ \<Rightarrow> unchanged V w w'"
proof -
  have "case rd_XReadGroup R g c [k, ''>''] n t w of
       (XStreams ss, w') \<Rightarrow> rv_log V w' = rv_log V w \<and>
          (\<exists>xs. rv_new V w k g = Some xs \<and> concat ss = take (nat n) xs \<and>
                rv_new V w' = (rv_new V w)(k := (rv_new V w k)(g \<mapsto> drop (nat n) xs)))
     | (_, w') \<Rightarrow> unchanged V w w'"
    using assms(1) by (simp only: redis_laws_def)
  with assms(2) show ?thesis by (cases r) auto
qed

type_synonym 'w redis_env = "'w redis \<times> 'w redis_view"

definition topic_key :: "redisBus \<Rightarrow> string \<Rightarrow> string" where
  "topic_key b t = rc_StreamPrefix (rb_cfg b) @ t"

lemma topic_key_inject [simp]: "topic_key b t = topic_key b t' \<longleftrightarrow> t = t'"
  by (simp add: topic_key_def)

definition redis_inv :: "'w redis_env \<Rightarrow> redisBus \<times> 'w \<Rightarrow> bool" where
  "redis_inv = (\<lambda>(R, V) (b, w). redis_laws R V \<and>
     (\<forall>t s. rb_streams b t = Some s \<longrightarrow> sm_streamKey s = topic_key b t \<and> sm_group s = rc_Group (rb_cfg b) \<and>
        rv_new V w (topic_key b t) (rc_Group (rb_cfg b)) \<noteq> None))"

definition redis_waiting :: "'w redis_view \<Rightarrow> redisBus \<times> 'w \<Rightarrow> string \<Rightarrow> xmessage list" where
  "redis_waiting V = (\<lambda>(b, w) t.
     (case rv_new V w (topic_key b t) (rc_Group (rb_cfg b)) of Some xs \<Rightarrow> xs | None \<Rightarrow> rv_log V w (topic_key b t)))"

definition redis_content :: "Message \<Rightarrow> string \<times> string" where
  "redis_content m = ev_content (redis_event 0 [] m)"

definition redis_backlog :: "'w redis_env \<Rightarrow> string \<Rightarrow> redisBus \<times> 'w \<Rightarrow> (string \<times> string) list" where
  "redis_backlog E t bw = map (redis_content \<circ> to_message) (redis_waiting (snd E) bw t)"

definition redis_publish ::
  "'w redis_env \<Rightarrow> unit \<Rightarrow> string option \<Rightarrow> string \<Rightarrow> string \<Rightarrow> redisBus \<times> 'w \<Rightarrow> go_error \<times> redisBus \<times> 'w" where
  "redis_publish E _ who t p =
     (case who of None \<Rightarrow> redis_Publish (fst E) t p | Some tid \<Rightarrow> redis_PublishTenant (fst E) tid t p)"

text \<open>\<^verbatim>\<open>Subscribe\<close> up to its loop, and one pass of the loop on the stream that was opened.\<close>

datatype redis_piece = RdOpen | RdPass redis_pass

fun redis_pass_step :: "'w redis_env \<Rightarrow> redis_piece \<Rightarrow> string \<Rightarrow> redisBus \<times> 'w \<Rightarrow> Event list \<times> redisBus \<times> 'w" where
  "redis_pass_step E RdOpen t bw =
     (case redis_Subscribe (fst E) [] t log_handler (bw, []) of (e, bw, es) \<Rightarrow> (es, bw))"
| "redis_pass_step E (RdPass p) t (b, w) =
     (case rb_streams b t of
        None \<Rightarrow> ([], b, w)
      | Some sm \<Rightarrow> (case redis_loop (fst E) sm t log_handler [p] ([], w) of (e, es, w) \<Rightarrow> (es, b, w)))"

lemma redis_loop_passes:
  "redis_loop R sm t h (p # ps) sw =
     (case redis_loop R sm t h [p] sw of (Some e, sw) \<Rightarrow> (Some e, sw) | (None, sw) \<Rightarrow> redis_loop R sm t h ps sw)"
  by (cases p; cases sw) (auto split: sum.splits prod.splits)

fun redis_shown :: "string option \<Rightarrow> string" where
  "redis_shown None = []"
| "redis_shown (Some tid) = tid"

text \<open>Opening the stream of a topic creates its group with all entries, or finds it.\<close>

lemma stream_New_group:
  assumes "redis_laws R V" and "stream_New R k g con w = (r, w')"
  shows "rv_log V w' = rv_log V w \<and>
     (case r of
        Inl e \<Rightarrow> rv_new V w' = rv_new V w
      | Inr s \<Rightarrow> sm_streamKey s = k \<and> sm_group s = g \<and>
          rv_new V w' = (rv_new V w)(k := (rv_new V w k)(g \<mapsto>
            (case rv_new V w k g of Some xs \<Rightarrow> xs | None \<Rightarrow> rv_log V w k))))"
proof -
  obtain pe w1 where p: "rd_Ping R w = (pe, w1)" by fastforce
  obtain ge w2 where m: "rd_XGroupCreateMkStream R k g ''0'' w1 = (ge, w2)" by fastforce
  have u1: "unchanged V w w1" using laws_quiet(1) [OF assms(1), of w] p by simp
  note u2 = laws_XGroupCreate [OF assms(1) m] and cl = laws_quiet(2) [OF assms(1)]
  show ?thesis
    using assms(2) u1 u2 cl [of w1 k] cl [of w2 k]
    by (auto simp: stream_New_def p m unchanged_def fun_upd_idem split: option.splits if_splits)
qed

lemma streamFor_waiting:
  assumes "redis_inv (R, V) bw" and "streamFor R t bw = (r, bw')"
  shows "redis_inv (R, V) bw' \<and> (\<forall>t'. redis_waiting V bw' t' = redis_waiting V bw t') \<and> rb_cfg (fst bw') = rb_cfg (fst bw) \<and>
     (case r of Inl e \<Rightarrow> True | Inr s \<Rightarrow> rb_streams (fst bw') t = Some s)"
proof -
  obtain b w where bw: "bw = (b, w)" by fastforce
  show ?thesis
  proof (cases "rb_streams b t")
    case (Some s)
    then show ?thesis using assms by (auto simp: bw streamFor_def)
  next
    case None
    let ?k = "topic_key b t" and ?g = "rc_Group (rb_cfg b)"
    obtain x w1 where n: "stream_New R ?k ?g (rc_ConsumerName (rb_cfg b)) w = (x, w1)" by fastforce
    have laws: "redis_laws R V" using assms(1) by (simp add: redis_inv_def bw)
    note grp = stream_New_group [OF laws n]
    have key: "topic_key b' t' = topic_key b'' t \<longleftrightarrow> t' = t" if "rb_cfg b' = rb_cfg b''" for b' b'' t'
      using that by (simp add: topic_key_def)
    show ?thesis
    proof (cases x)
      case (Inl e)
      then show ?thesis
        using assms grp None n by (auto simp: bw streamFor_def topic_key_def redis_inv_def redis_waiting_def split: option.split)
    next
      case (Inr s)
      have bw': "r = Inr s" "bw' = (b\<lparr>rb_streams := (rb_streams b)(t \<mapsto> s)\<rparr>, w1)"
        using assms(2) None n Inr by (simp_all add: bw streamFor_def topic_key_def)
      show ?thesis
        using assms(1) grp Inr unfolding bw bw'
        by (auto simp: redis_inv_def redis_waiting_def topic_key_def split: option.splits if_splits)
    qed
  qed
qed

lemma redis_event_sel [simp]:
  "ev_Topic (redis_event now t m) = t" "ev_content (redis_event now t m) = redis_content m"
  by (simp_all add: redis_event_def redis_content_def Let_def)

lemma add_waiting:
  assumes "redis_inv (R, V) bw" and "add_to_topic R t vs bw = (r, bw')"
  shows "redis_inv (R, V) bw' \<and> (\<exists>i. \<forall>t'. redis_waiting V bw' t' =
     redis_waiting V bw t' @ (if r = None \<and> t' = t then [(i, map (\<lambda>(f, v). (f, XString v)) vs)] else []))"
proof -
  obtain x b w where sf: "streamFor R t bw = (x, b, w)" by (metis prod.exhaust)
  note got = streamFor_waiting [OF assms(1) sf]
  show ?thesis
  proof (cases x)
    case (Inl e)
    then show ?thesis using got assms(2) sf by (auto simp: add_to_topic_def)
  next
    case (Inr sm)
    have sm: "sm_streamKey sm = topic_key b t" "rb_streams b t = Some sm"
      "rv_new V w (topic_key b t) (rc_Group (rb_cfg b)) \<noteq> None" and laws: "redis_laws R V"
      using got Inr by (auto simp: redis_inv_def)
    obtain y w1 where add: "rd_XAdd R (topic_key b t) ''*'' vs w = (y, w1)" by fastforce
    have bw': "bw' = (b, w1)" "r = (case y of Inl e \<Rightarrow> Some e | Inr i \<Rightarrow> None)"
      using assms(2) sf Inr add sm(1) by (auto simp: add_to_topic_def stream_Add_def split: sum.splits)
    note law = laws_XAdd [OF laws add]
    have inv: "redis_inv (R, V) (b, w1)"
      using got law by (cases y) (auto simp: redis_inv_def unchanged_def Let_def)
    have "\<exists>i. \<forall>t'. redis_waiting V (b, w1) t' =
        redis_waiting V (b, w) t' @ (if r = None \<and> t' = t then [(i, map (\<lambda>(f, v). (f, XString v)) vs)] else [])"
      using law sm(3) bw'(2)
      by (cases y) (auto simp: redis_waiting_def unchanged_def topic_key_def Let_def split: option.splits)
    then show ?thesis using inv got bw'(1) by simp
  qed
qed

text \<open>One read, and then the loop, move entries from the backlog to the log.\<close>

definition redis_moved ::
  "'w redis_env \<Rightarrow> redisBus \<Rightarrow> string \<Rightarrow> Event list \<times> 'w \<Rightarrow> Event list \<times> 'w \<Rightarrow> bool" where
  "redis_moved E b t = (\<lambda>(s, w) (s', w'). redis_inv E (b, w') \<and>
     (\<exists>es. s' = s @ es \<and> (\<forall>e \<in> set es. ev_Topic e = t) \<and>
        (\<forall>t'. (if t' = t then map ev_content es else []) @ redis_backlog E t' (b, w') = redis_backlog E t' (b, w))))"

lemma redis_moved_trans:
  assumes "redis_moved E b t (s, w) (s1, w1)" and "redis_moved E b t (s1, w1) (s2, w2)"
  shows "redis_moved E b t (s, w) (s2, w2)"
proof -
  obtain es where es: "s1 = s @ es" "\<forall>e \<in> set es. ev_Topic e = t"
      "\<forall>t'. (if t' = t then map ev_content es else []) @ redis_backlog E t' (b, w1) = redis_backlog E t' (b, w)"
    using assms(1) by (auto simp: redis_moved_def)
  obtain fs where fs: "s2 = s1 @ fs" "\<forall>e \<in> set fs. ev_Topic e = t" "redis_inv E (b, w2)"
      "\<forall>t'. (if t' = t then map ev_content fs else []) @ redis_backlog E t' (b, w2) = redis_backlog E t' (b, w1)"
    using assms(2) by (auto simp: redis_moved_def)
  have "(if t' = t then map ev_content (es @ fs) else []) @ redis_backlog E t' (b, w2) = redis_backlog E t' (b, w)" for t'
    using es(3) [rule_format, of t'] fs(4) [rule_format, of t'] by (auto split: if_splits)
  then show ?thesis using es(1,2) fs(1-3) unfolding redis_moved_def prod.case by (intro conjI exI [of _ "es @ fs"]) auto
qed

text \<open>A handler that logs every event and answers as \<open>h\<close> says.\<close>

definition log_with :: "(Event \<Rightarrow> go_error) \<Rightarrow> Event list ev_handler" where
  "log_with h e s = (h e, s @ [e])"

lemma log_handler_with: "log_handler = log_with (\<lambda>_. None)"
  by (simp add: fun_eq_iff log_handler_def log_with_def)

lemma handle_log:
  assumes "redis_laws R V" and "handle_msgs R sm t (log_with h) now ms (s, w) = (s', w')"
  shows "unchanged V w w' \<and> (\<exists>es. s' = s @ es \<and> (\<forall>e \<in> set es. ev_Topic e = t) \<and> map ev_content es = map redis_content ms)"
  using assms(2)
proof (induction ms arbitrary: now s w)
  case Nil
  then show ?case by (simp add: unchanged_def)
next
  case (Cons m ms)
  let ?w = "if h (redis_event (now 0) t m) = None then snd (stream_Ack R sm (ms_ID m) w) else w"
  have ack: "unchanged V w ?w" using laws_quiet(3) [OF assms(1)] by (simp add: stream_Ack_def unchanged_def)
  have "handle_msgs R sm t (log_with h) (\<lambda>n. now (Suc n)) ms (s @ [redis_event (now 0) t m], ?w) = (s', w')"
    using Cons.prems by (simp add: log_with_def [of h "redis_event (now 0) t m"])
  from Cons.IH [OF this] obtain es where es: "unchanged V ?w w'" "s' = s @ redis_event (now 0) t m # es"
      "\<forall>e \<in> set es. ev_Topic e = t" "map ev_content es = map redis_content ms"
    by auto
  have "unchanged V w w'" using ack es(1) by (simp add: unchanged_def)
  moreover have "\<forall>e \<in> set (redis_event (now 0) t m # es). ev_Topic e = t"
    "map ev_content (redis_event (now 0) t m # es) = map redis_content (m # ms)"
    using es(3,4) by simp_all
  ultimately show ?case using es(2) by blast
qed

lemma read_moved:
  assumes "redis_inv (R, V) (b, w)" and "rb_streams b t = Some sm" and "ReadGroup R sm 100 (2 * second) w = (r, w1)"
  shows "case r of Inl e \<Rightarrow> redis_moved (R, V) b t (s, w) (s, w1)
     | Inr ms \<Rightarrow> redis_moved (R, V) b t (s, w) (handle_msgs R sm t (log_with h) now ms (s, w1))"
proof -
  let ?k = "topic_key b t" and ?g = "rc_Group (rb_cfg b)"
  have sm: "sm_streamKey sm = ?k" "sm_group sm = ?g" and laws: "redis_laws R V"
    using assms(1,2) by (auto simp: redis_inv_def)
  obtain y where rd: "rd_XReadGroup R ?g (sm_consumer sm) [?k, ''>''] 100 (2 * second) w = (y, w1)"
    and r: "r = (case y of XNil \<Rightarrow> Inr [] | XError e \<Rightarrow> Inl e | XStreams ss \<Rightarrow> Inr (map to_message (concat ss)))"
    using assms(3) by (auto simp: ReadGroup_def sm split: prod.splits xread_reply.splits)
  note law = laws_XReadGroup [OF laws rd]
  have idle: "redis_moved (R, V) b t (s, w) (s, w1)" if "unchanged V w w1"
    using that assms(1)
    by (auto simp: redis_moved_def redis_inv_def redis_backlog_def redis_waiting_def unchanged_def split: option.split)
  show ?thesis
  proof (cases y)
    case (XStreams ss)
    obtain s2 w2 where h: "handle_msgs R sm t (log_with h) now (map to_message (concat ss)) (s, w1) = (s2, w2)" by fastforce
    from handle_log [OF laws h] obtain es where es: "unchanged V w1 w2" "s2 = s @ es" "\<forall>e \<in> set es. ev_Topic e = t"
        "map ev_content es = map redis_content (map to_message (concat ss))" by blast
    obtain xs where xs: "rv_log V w1 = rv_log V w" "rv_new V w ?k ?g = Some xs" "concat ss = take 100 xs"
        "rv_new V w1 = (rv_new V w)(?k := (rv_new V w ?k)(?g \<mapsto> drop 100 xs))"
      using law XStreams by auto
    have w2: "redis_waiting V (b, w2) t' = (if t' = t then drop 100 xs else redis_waiting V (b, w) t')"
        "redis_waiting V (b, w) t = xs" for t'
      using es(1) xs by (auto simp: redis_waiting_def unchanged_def split: option.split)
    have "redis_inv (R, V) (b, w2)" using assms(1) es(1) xs by (auto simp: redis_inv_def unchanged_def)
    moreover have "map ev_content es @ map (redis_content \<circ> to_message) (drop 100 xs) = map (redis_content \<circ> to_message) xs"
      unfolding es(4) xs(3) by (metis append_take_drop_id list.map_comp map_append)
    ultimately show ?thesis using es(2,3) w2 XStreams r h by (auto simp: redis_moved_def redis_backlog_def)
  qed (use idle law r in auto)
qed

lemma redis_loop_moved:
  assumes "redis_moved (R, V) b t (s0, w0) (s, w)" and "rb_streams b t = Some sm"
    and "redis_loop R sm t (log_with h) ps (s, w) = (r, s', w')"
  shows "redis_moved (R, V) b t (s0, w0) (s', w')"
  using assms(1,3)
proof (induction ps arbitrary: s w)
  case (Cons p ps)
  show ?case
  proof (cases p)
    case PassCtxDone
    then show ?thesis using Cons.prems by simp
  next
    case (PassRead stop now)
    obtain r1 w1 where rd: "ReadGroup R sm 100 (2 * second) w = (r1, w1)" by fastforce
    have inv: "redis_inv (R, V) (b, w)" using Cons.prems(1) by (simp add: redis_moved_def)
    note moved = read_moved [OF inv assms(2) rd, where s = s and now = now and h = h]
    show ?thesis
    proof (cases r1)
      case (Inl e)
      then have m: "redis_moved (R, V) b t (s0, w0) (s, w1)" using redis_moved_trans [OF Cons.prems(1)] moved by simp
      show ?thesis using Cons.prems(2) Cons.IH [OF m] PassRead rd Inl m by (auto split: if_splits)
    next
      case (Inr ms)
      obtain s2 w2 where h: "handle_msgs R sm t (log_with h) now ms (s, w1) = (s2, w2)" by fastforce
      have m: "redis_moved (R, V) b t (s0, w0) (s2, w2)" using redis_moved_trans [OF Cons.prems(1)] moved h Inr by simp
      show ?thesis using Cons.prems(2) Cons.IH [OF m] PassRead rd Inr h by simp
    qed
  qed
qed simp

lemma redis_moved_refl: "redis_inv E (b, w) \<Longrightarrow> redis_moved E b t (s, w) (s, w)"
  by (simp add: redis_moved_def)

interpretation redis: event_bus redis_inv redis_publish redis_pass_step "\<lambda>_. True" redis_backlog redis_shown
proof unfold_locales
  fix E :: "'w redis_env" and bw f who t p r bw'
  assume inv: "redis_inv E bw" and run: "redis_publish E f who t p bw = (r, bw')"
  obtain R V where E: "E = (R, V)" by fastforce
  obtain vs where vs: "add_to_topic R t vs bw = (r, bw')"
      "redis_content (to_message (i, map (\<lambda>(f, v). (f, XString v)) vs)) = (redis_shown who, p)" for i
    using run by (cases who) (auto simp: E redis_publish_def redis_Publish_def redis_PublishTenant_def
        redis_content_def redis_event_def to_message_def Let_def)
  show "redis_inv E bw' \<and> (\<forall>t'. redis_backlog E t' bw' =
      redis_backlog E t' bw @ (if r = None \<and> t' = t then [(redis_shown who, p)] else []))"
    using add_waiting [OF inv [unfolded E] vs(1)] vs(2) by (auto simp: E redis_backlog_def)
next
  fix E :: "'w redis_env" and bw g t es bw'
  assume inv: "redis_inv E bw" and run: "redis_pass_step E g t bw = (es, bw')"
  obtain R V b w where E: "E = (R, V)" and bw: "bw = (b, w)" by (metis prod.exhaust)
  show "redis_inv E bw' \<and> (\<forall>t'. handed_on t' es @ redis_backlog E t' bw' = redis_backlog E t' bw)"
  proof (cases g)
    case RdOpen
    obtain x b1 w1 where sf: "streamFor R t bw = (x, b1, w1)" by (metis prod.exhaust)
    show ?thesis
      using streamFor_waiting [OF inv [unfolded E] sf] run RdOpen sf
      by (cases x) (auto simp: E redis_Subscribe_def redis_backlog_def handed_on_def)
  next
    case (RdPass p)
    show ?thesis
    proof (cases "rb_streams b t")
      case None
      then show ?thesis using inv run RdPass bw by (auto simp: handed_on_def)
    next
      case (Some sm)
      obtain e s1 w1 where l: "redis_loop R sm t log_handler [p] ([], w) = (e, s1, w1)" by (metis prod.exhaust)
      have bw': "bw' = (b, w1)" "es = s1" using run l Some RdPass bw by (simp_all add: E del: redis_loop.simps)
      have "redis_moved (R, V) b t ([], w) (s1, w1)"
        using redis_loop_moved [OF redis_moved_refl _ l [unfolded log_handler_with]] inv Some bw E by simp
      then show ?thesis unfolding bw' bw E by (auto simp: redis_moved_def handed_on_all [of s1 t])
    qed
  qed
qed

section \<open>Properties\<close>












text \<open>
  The Redis bus hands every entry over once whatever its handler answers: an entry whose
  handler failed has left the entries that the loop reads, and is not handed over again.
\<close>

lemma redis_failed_not_retried:
  assumes "redis_inv (R, V) (b, w)" and "rb_streams b t = Some sm"
    and "redis_loop R sm t (log_with h) ps ([], w) = (r, es, w')"
  shows "map ev_content es @ redis_backlog (R, V) t (b, w') = redis_backlog (R, V) t (b, w)"
  using redis_loop_moved [OF redis_moved_refl [OF assms(1)] assms(2,3)]
  by (auto simp: redis_moved_def dest!: spec [of _ t])

end
