(* ===== verification/Sessions.thy ===== *)
theory Sessions
  imports Db_Pool Json
begin

text \<open>
  Package \<^verbatim>\<open>sessions\<close> (\<^verbatim>\<open>src/sessions/\<close>): session stores over the table \<^verbatim>\<open>sessions\<close> and over
  Redis, and the factory that chooses between them.

  The Postgres store works on the connections of \<^verbatim>\<open>Db_Pool\<close>; \<open>ex n\<close> is the outcome of the
  n-th statement of an operation and \<open>vis\<close> says which tenants' rows row security shows
  a session with given settings. What the columns make of the values is a parameter too:
  the cast to \<^verbatim>\<open>uuid\<close> and back to text, which fails on other text, the precision of time
  stamps and the normal form of the payload. \<open>now\<close> is the clock of the database or of the process.
  Redis is a record of operations on its own state; the RFC 3339 text of times is a
  parameter. A payload is a JSON value, whose bytes are those \<^verbatim>\<open>json.Marshal\<close> writes.
\<close>

section \<open>Model\<close>

record Session =
  ss_Token :: string
  ss_TenantID :: string
  ss_Payload :: json
  ss_CreatedAt :: time
  ss_ExpiresAt :: time

datatype session_error = SessionNotFound | SessionError string

subsection \<open>The Postgres store\<close>

type_synonym session_db = "Session list"
type_synonym row_security = "settings \<Rightarrow> string \<Rightarrow> bool"

record session_types =
  ty_uuid :: "string \<Rightarrow> string option"
  ty_time :: "time \<Rightarrow> time"
  ty_payload :: "json \<Rightarrow> json"

definition uuid_error :: "session_types \<Rightarrow> string \<Rightarrow> go_error" where
  "uuid_error T tid =
     (case ty_uuid T tid of
        None \<Rightarrow> Some ''ERROR: invalid input syntax for type uuid (SQLSTATE 22P02)''
      | Some u \<Rightarrow> None)"

text \<open>The row that the values of a session become.\<close>

definition stored :: "session_types \<Rightarrow> Session \<Rightarrow> Session" where
  "stored T sess =
     sess\<lparr>ss_TenantID := (case ty_uuid T (ss_TenantID sess) of Some u \<Rightarrow> u | None \<Rightarrow> ss_TenantID sess),
          ss_Payload := ty_payload T (ss_Payload sess), ss_ExpiresAt := ty_time T (ss_ExpiresAt sess)\<rparr>"

definition select_session :: "row_security \<Rightarrow> time \<Rightarrow> settings \<Rightarrow> string \<Rightarrow> session_db \<Rightarrow> Session option" where
  "select_session vis now st token db =
     find (\<lambda>r. vis st (ss_TenantID r) \<and> ss_Token r = token \<and> ss_ExpiresAt r > now) db"

definition pg_get ::
  "row_security \<Rightarrow> go_error \<Rightarrow> time \<Rightarrow> string \<Rightarrow> string \<Rightarrow> session_db conn \<Rightarrow> session_error + Session" where
  "pg_get vis err now token expectedTenant c =
     (case err of
        Some e \<Rightarrow> Inl (SessionError e)
      | None \<Rightarrow>
          (case select_session vis now (cn_cur c) token (cn_db c) of
             None \<Rightarrow> Inl SessionNotFound
           | Some sess \<Rightarrow>
               if expectedTenant \<noteq> [] \<and> ss_TenantID sess \<noteq> expectedTenant then Inl SessionNotFound
               else Inr sess))"

definition pg_Get :: "row_security \<Rightarrow> go_error \<Rightarrow> time \<Rightarrow> string \<Rightarrow> session_db conn \<Rightarrow> session_error + Session" where
  "pg_Get vis err now token c = pg_get vis err now token [] c"

definition GetForTenant ::
  "row_security \<Rightarrow> go_error \<Rightarrow> time \<Rightarrow> string \<Rightarrow> string \<Rightarrow> session_db conn \<Rightarrow> session_error + Session" where
  "GetForTenant vis err now token tenantID c = pg_get vis err now token tenantID c"

text \<open>\<^verbatim>\<open>INSERT ... ON CONFLICT (token) DO UPDATE\<close>: the update sets payload and expiry only.\<close>

fun upsert_session :: "time \<Rightarrow> Session \<Rightarrow> session_db \<Rightarrow> session_db" where
  "upsert_session now sess [] = [sess\<lparr>ss_CreatedAt := now\<rparr>]"
| "upsert_session now sess (r # db) =
     (if ss_Token r = ss_Token sess
      then r\<lparr>ss_Payload := ss_Payload sess, ss_ExpiresAt := ss_ExpiresAt sess\<rparr> # db
      else r # upsert_session now sess db)"

text \<open>
  A transaction with the tenant set for its duration, as in \<^verbatim>\<open>Put\<close>, \<^verbatim>\<open>DeleteForTenant\<close> and
  \<^verbatim>\<open>List\<close>: \<open>ex 0\<close> is \<^verbatim>\<open>BEGIN\<close>, \<open>ex 1\<close> \<^verbatim>\<open>set_config\<close>, \<open>ex 2\<close> the statement, \<open>ex 3\<close> \<^verbatim>\<open>COMMIT\<close>. A cast in
  the statement may fail as well.
\<close>

definition tenant_tx ::
  "(nat \<Rightarrow> go_error) \<Rightarrow> string \<Rightarrow> go_error \<Rightarrow> (settings \<Rightarrow> 'db \<Rightarrow> 'db) \<Rightarrow> 'db conn \<Rightarrow> go_error \<times> 'db conn" where
  "tenant_tx ex tenantID cast f c =
     (case ex 0 of
        Some err \<Rightarrow> (Some err, c)
      | None \<Rightarrow>
          (let t = pg_begin c in
           case ex 1 of
             Some err \<Rightarrow> (Some err, pg_rollback t)
           | None \<Rightarrow>
               run_commit (ex 3)
                 (\<lambda>st db. case (if ex 2 = None then cast else ex 2) of Some err \<Rightarrow> (Some err, db) | None \<Rightarrow> (None, f st db))
                 (set_local_tenant tenantID t)))"

definition pg_Put ::
  "session_types \<Rightarrow> (nat \<Rightarrow> go_error) \<Rightarrow> time \<Rightarrow> Session \<Rightarrow> session_db conn \<Rightarrow> go_error \<times> session_db conn" where
  "pg_Put T ex now sess c =
     tenant_tx ex (ss_TenantID sess) (uuid_error T (ss_TenantID sess)) (\<lambda>st. upsert_session now (stored T sess)) c"

definition pg_Delete :: "row_security \<Rightarrow> go_error \<Rightarrow> string \<Rightarrow> session_db conn \<Rightarrow> go_error \<times> session_db conn" where
  "pg_Delete vis err token c =
     (case err of
        Some e \<Rightarrow> (Some e, c)
      | None \<Rightarrow> (None, c\<lparr>cn_db := filter (\<lambda>r. \<not> (vis (cn_cur c) (ss_TenantID r) \<and> ss_Token r = token)) (cn_db c)\<rparr>))"

definition DeleteForTenant ::
  "session_types \<Rightarrow> row_security \<Rightarrow> (nat \<Rightarrow> go_error) \<Rightarrow> string \<Rightarrow> string \<Rightarrow> session_db conn \<Rightarrow> go_error \<times> session_db conn" where
  "DeleteForTenant T vis ex token tenantID c =
     tenant_tx ex tenantID (uuid_error T tenantID)
       (\<lambda>st. filter (\<lambda>r. \<not> (vis st (ss_TenantID r) \<and> ss_Token r = token \<and> Some (ss_TenantID r) = ty_uuid T tenantID))) c"

text \<open>\<open>rs\<close> is the error of reading the rows.\<close>

definition pg_List ::
  "session_types \<Rightarrow> row_security \<Rightarrow> (nat \<Rightarrow> go_error) \<Rightarrow> go_error \<Rightarrow> time \<Rightarrow> string \<Rightarrow> session_db conn \<Rightarrow> Session list \<times> go_error" where
  "pg_List T vis ex rs now tenantID c =
     (case (ex 0, ex 1, if ex 2 = None then uuid_error T tenantID else ex 2, rs) of
        (None, None, None, None) \<Rightarrow>
          (rev (sort_key ss_CreatedAt (filter (\<lambda>r. vis ((cn_cur c)\<lparr>st_tenant := tenantID\<rparr>) (ss_TenantID r) \<and>
             Some (ss_TenantID r) = ty_uuid T tenantID \<and> ss_ExpiresAt r > now) (cn_db c))), ex 3)
      | (Some e, _) \<Rightarrow> ([], Some e)
      | (None, Some e, _) \<Rightarrow> ([], Some e)
      | (None, None, Some e, _) \<Rightarrow> ([], Some e)
      | (None, None, None, Some e) \<Rightarrow> ([], Some e))"

subsection \<open>The Redis store\<close>

text \<open>
  The commands of the server at a time: \<^verbatim>\<open>GET\<close> (\<open>None\<close> is the nil reply), \<^verbatim>\<open>SET\<close> with an
  expiration, \<^verbatim>\<open>DEL\<close>, and the keys a \<^verbatim>\<open>SCAN\<close> with a prefix pattern yields.
\<close>

record 'w kv =
  kv_Get :: "time \<Rightarrow> string \<Rightarrow> 'w \<Rightarrow> string option"
  kv_Set :: "time \<Rightarrow> string \<Rightarrow> string \<Rightarrow> duration \<Rightarrow> 'w \<Rightarrow> 'w"
  kv_Del :: "string \<Rightarrow> 'w \<Rightarrow> 'w"
  kv_Scan :: "time \<Rightarrow> string \<Rightarrow> 'w \<Rightarrow> string list"

record time_text =
  tt_format :: "time \<Rightarrow> string"
  tt_parse :: "string \<Rightarrow> time option"

definition session_json :: "time_text \<Rightarrow> Session \<Rightarrow> json" where
  "session_json T s =
     JObj [(''token'', JStr (ss_Token s)), (''tenant_id'', JStr (ss_TenantID s)), (''payload'', ss_Payload s),
           (''created_at'', JStr (tt_format T (ss_CreatedAt s))), (''expires_at'', JStr (tt_format T (ss_ExpiresAt s)))]"

definition session_fields :: "string list" where
  "session_fields = [''token'', ''tenant_id'', ''payload'', ''created_at'', ''expires_at'']"

fun set_time :: "time_text \<Rightarrow> time \<Rightarrow> json list \<Rightarrow> time option" where
  "set_time T cur [] = Some cur"
| "set_time T cur (JNull # vs) = set_time T cur vs"
| "set_time T cur (JStr s # vs) = (case tt_parse T s of None \<Rightarrow> None | Some t \<Rightarrow> set_time T t vs)"
| "set_time T cur (v # vs) = None"

definition decode_session :: "time_text \<Rightarrow> string \<Rightarrow> Session option" where
  "decode_session T b =
     (case parse_object b of
        None \<Rightarrow> None
      | Some ms \<Rightarrow>
          (let vals = (\<lambda>f. field_values session_fields f (map (\<lambda>(k, raw, v). (k, v)) ms)) in
           case (set_string [] (vals ''token''), set_string [] (vals ''tenant_id''),
                 set_time T 0 (vals ''created_at''), set_time T 0 (vals ''expires_at'')) of
             (Some tok, Some tid, Some ct, Some et) \<Rightarrow>
               Some \<lparr>ss_Token = tok, ss_TenantID = tid,
                     ss_Payload = (if vals ''payload'' = [] then JNull else last (vals ''payload'')),
                     ss_CreatedAt = ct, ss_ExpiresAt = et\<rparr>
           | _ \<Rightarrow> None))"

record redisStore =
  rs_prefix :: string

definition NewRedisStore :: "go_error \<Rightarrow> string \<Rightarrow> string + redisStore" where
  "NewRedisStore ping keyPrefix =
     (case ping of
        Some err \<Rightarrow> Inl err
      | None \<Rightarrow> Inr \<lparr>rs_prefix = (if keyPrefix = [] then ''omur:session:'' else keyPrefix)\<rparr>)"

definition rs_key :: "redisStore \<Rightarrow> string \<Rightarrow> string" where
  "rs_key r token = rs_prefix r @ token"

definition rs_Get :: "time_text \<Rightarrow> 'w kv \<Rightarrow> go_error \<Rightarrow> time \<Rightarrow> redisStore \<Rightarrow> string \<Rightarrow> 'w \<Rightarrow> session_error + Session" where
  "rs_Get T K err now r token w =
     (case err of
        Some e \<Rightarrow> Inl (SessionError e)
      | None \<Rightarrow>
          (case kv_Get K now (rs_key r token) w of
             None \<Rightarrow> Inl SessionNotFound
           | Some b \<Rightarrow>
               (case decode_session T b of
                  None \<Rightarrow> Inl (SessionError ''json'')
                | Some s \<Rightarrow> Inr s)))"

definition session_ttl :: "time \<Rightarrow> Session \<Rightarrow> duration" where
  "session_ttl now s = (let ttl = ss_ExpiresAt s - now in if ttl < 0 then second else ttl)"

definition rs_Put :: "time_text \<Rightarrow> 'w kv \<Rightarrow> go_error \<Rightarrow> time \<Rightarrow> redisStore \<Rightarrow> Session \<Rightarrow> 'w \<Rightarrow> go_error \<times> 'w" where
  "rs_Put T K err now r s w =
     (case err of
        Some e \<Rightarrow> (Some e, w)
      | None \<Rightarrow> (None, kv_Set K now (rs_key r (ss_Token s)) (json_print (session_json T s)) (session_ttl now s) w))"

definition rs_Delete :: "'w kv \<Rightarrow> go_error \<Rightarrow> redisStore \<Rightarrow> string \<Rightarrow> 'w \<Rightarrow> go_error \<times> 'w" where
  "rs_Delete K err r token w = (case err of Some e \<Rightarrow> (Some e, w) | None \<Rightarrow> (None, kv_Del K (rs_key r token) w))"

text \<open>\<open>errs\<close> says which reads of a listed key fail.\<close>

definition rs_List ::
  "time_text \<Rightarrow> 'w kv \<Rightarrow> (string \<Rightarrow> bool) \<Rightarrow> go_error \<Rightarrow> time \<Rightarrow> redisStore \<Rightarrow> string \<Rightarrow> 'w \<Rightarrow> Session list \<times> go_error" where
  "rs_List T K errs iter now r tenantID w =
     (filter (\<lambda>s. ss_TenantID s = tenantID)
        (List.map_filter (\<lambda>k. if errs k then None else Option.bind (kv_Get K now k w) (decode_session T))
           (kv_Scan K now (rs_prefix r) w)), iter)"

subsection \<open>The factory\<close>

datatype session_store = PostgresStore | RedisStore redisStore

definition sessions_BackendFromEnv :: "string \<Rightarrow> string + string" where
  "sessions_BackendFromEnv v =
     (if v = [] then Inr ''postgres''
      else if v = ''postgres'' \<or> v = ''redis'' then Inr v
      else Inl (''sessions: unknown backend '' @ go_quote v))"

definition sessions_envOr :: "(string \<Rightarrow> string) \<Rightarrow> string \<Rightarrow> string \<Rightarrow> string" where
  "sessions_envOr env k def = (if env k \<noteq> [] then env k else def)"

text \<open>\<open>ping\<close> is the answer of the server at an address with a password.\<close>

definition sessions_New ::
  "(string \<Rightarrow> string) \<Rightarrow> (string \<Rightarrow> string \<Rightarrow> go_error) \<Rightarrow> bool \<Rightarrow> string + session_store" where
  "sessions_New env ping pool =
     (case sessions_BackendFromEnv (env ''OMUR_SESSION_BACKEND'') of
        Inl err \<Rightarrow> Inl err
      | Inr b \<Rightarrow>
          if b = ''postgres'' then
            (if pool then Inr PostgresStore else Inl ''sessions: postgres backend requires non-nil pool'')
          else
            (case NewRedisStore (ping (env ''VALKEY_HOST'' @ '':'' @ sessions_envOr env ''VALKEY_PORT'' ''6379'')
                    (env ''VALKEY_PASSWORD'')) [] of
               Inl err \<Rightarrow> Inl err
             | Inr r \<Rightarrow> Inr (RedisStore r)))"

section \<open>The contract of a store\<close>

definition same_session :: "Session \<Rightarrow> Session \<Rightarrow> bool" where
  "same_session s s' \<longleftrightarrow> ss_Token s' = ss_Token s \<and> ss_TenantID s' = ss_TenantID s \<and>
     ss_Payload s' = ss_Payload s \<and> ss_ExpiresAt s' = ss_ExpiresAt s"

datatype store_op = OpPut time Session | OpRemove string

fun op_token :: "store_op \<Rightarrow> string" where
  "op_token (OpPut t s) = ss_Token s"
| "op_token (OpRemove tok) = tok"

fun store_apply :: "(time \<Rightarrow> Session \<Rightarrow> 'w \<Rightarrow> 'w) \<Rightarrow> (string \<Rightarrow> 'w \<Rightarrow> 'w) \<Rightarrow> store_op \<Rightarrow> 'w \<Rightarrow> 'w" where
  "store_apply put remove (OpPut t s) w = put t s w"
| "store_apply put remove (OpRemove tok) w = remove tok w"

text \<open>
  What callers rely on: a session stored before its expiry under a token that was not in use
  is found until it expires and not afterwards, a removed one is not, and other tokens
  are left alone. \<open>norm\<close> is what the store makes of the values of a session.
\<close>

locale token_store =
  fixes inv :: "'w \<Rightarrow> bool"
    and fresh :: "string \<Rightarrow> 'w \<Rightarrow> bool"
    and fits :: "Session \<Rightarrow> bool"
    and norm :: "Session \<Rightarrow> Session"
    and lookup :: "time \<Rightarrow> string \<Rightarrow> 'w \<Rightarrow> Session option"
    and put :: "time \<Rightarrow> Session \<Rightarrow> 'w \<Rightarrow> 'w"
    and remove :: "string \<Rightarrow> 'w \<Rightarrow> 'w"
  assumes put_inv: "inv w \<Longrightarrow> inv (put t s w)"
    and remove_inv: "inv w \<Longrightarrow> inv (remove tok w)"
    and lookup_put: "\<lbrakk>inv w; fits s; fresh (ss_Token s) w; t0 \<le> t; t < ss_ExpiresAt (norm s)\<rbrakk> \<Longrightarrow>
        \<exists>s'. lookup t (ss_Token s) (put t0 s w) = Some s' \<and> same_session (norm s) s'"
    and lookup_expired: "\<lbrakk>inv w; fits s; fresh (ss_Token s) w; t0 < ss_ExpiresAt (norm s); ss_ExpiresAt (norm s) \<le> t\<rbrakk> \<Longrightarrow>
        lookup t (ss_Token s) (put t0 s w) = None"
    and lookup_put_other: "\<lbrakk>inv w; tok \<noteq> ss_Token s\<rbrakk> \<Longrightarrow> lookup t tok (put t0 s w) = lookup t tok w"
    and lookup_remove: "inv w \<Longrightarrow> lookup t tok (remove tok w) = None"
    and lookup_remove_other: "\<lbrakk>inv w; tok \<noteq> tok'\<rbrakk> \<Longrightarrow> lookup t tok (remove tok' w) = lookup t tok w"
begin

lemma ops_other:
  assumes "inv w" and "\<And>p. p \<in> set ops \<Longrightarrow> op_token p \<noteq> tok"
  shows "inv (fold (store_apply put remove) ops w) \<and> lookup t tok (fold (store_apply put remove) ops w) = lookup t tok w"
  using assms
proof (induction ops arbitrary: w)
  case (Cons p ops)
  have "inv (store_apply put remove p w)" using Cons.prems(1) by (cases p) (simp_all add: put_inv remove_inv)
  moreover have "lookup t tok (store_apply put remove p w) = lookup t tok w"
    using Cons.prems(1) Cons.prems(2) [of p] by (cases p) (simp_all add: lookup_put_other lookup_remove_other)
  ultimately show ?case using Cons by simp
qed simp

lemma lifetime:
  assumes "inv w" and "fits s" and "fresh (ss_Token s) w" and "t0 \<le> t" and "t < ss_ExpiresAt (norm s)"
    and "\<And>p. p \<in> set ops \<Longrightarrow> op_token p \<noteq> ss_Token s"
  shows "\<exists>s'. lookup t (ss_Token s) (fold (store_apply put remove) ops (put t0 s w)) = Some s' \<and> same_session (norm s) s'"
  using ops_other [OF put_inv [OF assms(1)] assms(6)] lookup_put [OF assms(1-5)] by metis

lemma expired:
  assumes "inv w" and "fits s" and "fresh (ss_Token s) w" and "t0 < ss_ExpiresAt (norm s)" and "ss_ExpiresAt (norm s) \<le> t"
    and "\<And>p. p \<in> set ops \<Longrightarrow> op_token p \<noteq> ss_Token s"
  shows "lookup t (ss_Token s) (fold (store_apply put remove) ops (put t0 s w)) = None"
  using ops_other [OF put_inv [OF assms(1)] assms(6)] lookup_expired [OF assms(1-5)] by metis

lemma removed:
  assumes "inv w" and "\<And>p. p \<in> set ops \<Longrightarrow> op_token p \<noteq> tok"
  shows "lookup t tok (fold (store_apply put remove) ops (remove tok w)) = None"
  using ops_other [OF remove_inv [OF assms(1)] assms(2)] lookup_remove [OF assms(1)] by metis

end

subsection \<open>The Postgres store keeps it\<close>

text \<open>The pool of the store has no role, so its login role sees every row.\<close>

abbreviation all_rows :: row_security where "all_rows \<equiv> (\<lambda>st tid. True)"
abbreviation no_error :: "nat \<Rightarrow> go_error" where "no_error \<equiv> (\<lambda>_. None)"

definition pg_lookup :: "time \<Rightarrow> string \<Rightarrow> session_db conn \<Rightarrow> Session option" where
  "pg_lookup t tok c = (case pg_Get all_rows None t tok c of Inr s \<Rightarrow> Some s | Inl e \<Rightarrow> None)"

definition pg_inv :: "session_db conn \<Rightarrow> bool" where
  "pg_inv c \<longleftrightarrow> distinct (map ss_Token (cn_db c))"

definition pg_fresh :: "string \<Rightarrow> session_db conn \<Rightarrow> bool" where
  "pg_fresh tok c \<longleftrightarrow> tok \<notin> ss_Token ` set (cn_db c)"

lemma pg_lookup_eq: "pg_lookup t tok c = find (\<lambda>r. ss_Token r = tok \<and> ss_ExpiresAt r > t) (cn_db c)"
  by (simp add: pg_lookup_def pg_Get_def pg_get_def select_session_def split: option.splits)

lemma tenant_tx_ok:
  "cn_db (snd (tenant_tx no_error tid cast f c)) =
     (if cast = None then f ((cn_cur c)\<lparr>st_tenant := tid\<rparr>) (cn_db c) else cn_db c)"
  by (auto simp: tenant_tx_def run_commit_def run_callback_def pg_commit_def pg_begin_def pg_rollback_def set_local_tenant_def)

definition pg_fits :: "session_types \<Rightarrow> Session \<Rightarrow> bool" where
  "pg_fits T s \<longleftrightarrow> ty_uuid T (ss_TenantID s) \<noteq> None"

lemma stored_token [simp]: "ss_Token (stored T s) = ss_Token s"
  by (simp add: stored_def)

lemma pg_Put_db:
  "cn_db (snd (pg_Put T no_error t s c)) = (if pg_fits T s then upsert_session t (stored T s) (cn_db c) else cn_db c)"
  by (auto simp: pg_Put_def tenant_tx_ok uuid_error_def pg_fits_def)

lemma upsert_tokens:
  "map ss_Token (upsert_session t s db) =
     (if ss_Token s \<in> ss_Token ` set db then map ss_Token db else map ss_Token db @ [ss_Token s])"
  by (induction db) auto

lemma upsert_fresh: "ss_Token s \<notin> ss_Token ` set db \<Longrightarrow> upsert_session t s db = db @ [s\<lparr>ss_CreatedAt := t\<rparr>]"
  by (induction db) auto

lemma find_append: "find P (xs @ ys) = (case find P xs of Some x \<Rightarrow> Some x | None \<Rightarrow> find P ys)"
  by (induction xs) auto

lemma find_none: "(\<And>x. x \<in> set xs \<Longrightarrow> \<not> P x) \<Longrightarrow> find P xs = None"
  by (induction xs) auto

lemma upsert_other:
  "tok \<noteq> ss_Token s \<Longrightarrow> find (\<lambda>r. ss_Token r = tok \<and> ss_ExpiresAt r > t) (upsert_session t0 s db) =
     find (\<lambda>r. ss_Token r = tok \<and> ss_ExpiresAt r > t) db"
  by (induction db) auto

lemma find_filter_other:
  "tok \<noteq> tok' \<Longrightarrow> find (\<lambda>r. ss_Token r = tok \<and> ss_ExpiresAt r > t) (filter (\<lambda>r. ss_Token r \<noteq> tok') db) =
     find (\<lambda>r. ss_Token r = tok \<and> ss_ExpiresAt r > t) db"
  by (induction db) auto

lemma distinct_tokens_filter: "distinct (map ss_Token db) \<Longrightarrow> distinct (map ss_Token (filter P db))"
  by (induction db) auto

interpretation pg_store: token_store pg_inv pg_fresh "pg_fits T" "stored T" pg_lookup
    "\<lambda>t s c. snd (pg_Put T no_error t s c)" "\<lambda>tok c. snd (pg_Delete all_rows None tok c)"
proof unfold_locales
  fix w :: "session_db conn" and s :: Session and t t0
  assume fits: "pg_fits T s" and fresh: "pg_fresh (ss_Token s) w"
  have "find (\<lambda>r. ss_Token r = ss_Token s \<and> ss_ExpiresAt r > t) (cn_db w) = None"
    using fresh by (intro find_none) (auto simp: pg_fresh_def image_iff)
  then have look: "pg_lookup t (ss_Token s) (snd (pg_Put T no_error t0 s w)) =
      (if t < ss_ExpiresAt (stored T s) then Some ((stored T s)\<lparr>ss_CreatedAt := t0\<rparr>) else None)"
    using fits fresh by (simp add: pg_lookup_eq pg_Put_db pg_fresh_def upsert_fresh find_append)
  show "\<exists>s'. pg_lookup t (ss_Token s) (snd (pg_Put T no_error t0 s w)) = Some s' \<and> same_session (stored T s) s'"
    if "t < ss_ExpiresAt (stored T s)" using that look by (simp add: same_session_def)
  show "pg_lookup t (ss_Token s) (snd (pg_Put T no_error t0 s w)) = None" if "ss_ExpiresAt (stored T s) \<le> t"
    using that look by simp
qed (auto simp: pg_inv_def pg_lookup_eq pg_Put_db pg_Delete_def upsert_tokens upsert_other find_filter_other
      distinct_tokens_filter intro: find_none)

subsection \<open>The Redis store\<close>

text \<open>
  The documented behaviour of the server: a key set with a positive expiration is there
  until it elapses, one set with expiration 0 until it is deleted or set again.
\<close>

definition kv_laws :: "'w kv \<Rightarrow> bool" where
  "kv_laws K \<longleftrightarrow>
     (\<forall>t0 t k v ttl w. t0 \<le> t \<longrightarrow> kv_Get K t k (kv_Set K t0 k v ttl w) = (if ttl = 0 \<or> t < t0 + ttl then Some v else None)) \<and>
     (\<forall>t0 t k k' v ttl w. k \<noteq> k' \<longrightarrow> kv_Get K t k (kv_Set K t0 k' v ttl w) = kv_Get K t k w) \<and>
     (\<forall>t k w. kv_Get K t k (kv_Del K k w) = None) \<and>
     (\<forall>t k k' w. k \<noteq> k' \<longrightarrow> kv_Get K t k (kv_Del K k' w) = kv_Get K t k w)"

text \<open>Times are written as ASCII text that reads back as the time.\<close>

definition time_laws :: "time_text \<Rightarrow> bool" where
  "time_laws T \<longleftrightarrow> (\<forall>t. tt_parse T (tt_format T t) = Some t \<and> valid_utf8 (tt_format T t))"

lemma session_field [simp]: "f \<in> set session_fields \<Longrightarrow> match_field session_fields f = Some f"
  by (simp add: match_field_def)

lemma session_fields_mem [simp]:
  "''token'' \<in> set session_fields" "''tenant_id'' \<in> set session_fields" "''payload'' \<in> set session_fields"
  "''created_at'' \<in> set session_fields" "''expires_at'' \<in> set session_fields"
  by (simp_all add: session_fields_def)

definition session_fits :: "Session \<Rightarrow> bool" where
  "session_fits s \<longleftrightarrow> valid_utf8 (ss_Token s) \<and> valid_utf8 (ss_TenantID s) \<and> json_wf (ss_Payload s)"

lemma decode_session_json:
  assumes "time_laws T" and "session_fits s"
  shows "decode_session T (json_print (session_json T s)) = Some s"
proof -
  let ?ms = "[(''token'', JStr (ss_Token s)), (''tenant_id'', JStr (ss_TenantID s)), (''payload'', ss_Payload s),
           (''created_at'', JStr (tt_format T (ss_CreatedAt s))), (''expires_at'', JStr (tt_format T (ss_ExpiresAt s)))]"
  have wf: "json_wf (JObj ?ms)" using assms by (simp add: time_laws_def session_fits_def)
  have T: "tt_parse T (tt_format T t) = Some t" for t using assms(1) by (simp add: time_laws_def)
  show ?thesis
    unfolding decode_session_def session_json_def parse_object_print [OF wf]
    by (simp add: with_raw_def field_values_def Let_def T del: json_print.simps)
qed

lemma redis_store_laws:
  assumes "kv_laws K" and "time_laws T"
  shows "token_store (\<lambda>w. True) (\<lambda>tok w. True) session_fits (\<lambda>s. s)
     (\<lambda>t tok w. case rs_Get T K None t r tok w of Inr s \<Rightarrow> Some s | Inl e \<Rightarrow> None)
     (\<lambda>t s w. snd (rs_Put T K None t r s w)) (\<lambda>tok w. snd (rs_Delete K None r tok w))"
proof -
  note L = assms(1) [unfolded kv_laws_def]
  have K: "kv_Get K t k (kv_Set K t0 k v ttl w) = (if ttl = 0 \<or> t < t0 + ttl then Some v else None)" if "t0 \<le> t" for t0 t k v ttl w
    by (rule conjunct1 [OF L, rule_format, OF that])
  have K': "kv_Get K t k (kv_Set K t0 k' v ttl w) = kv_Get K t k w" if "k \<noteq> k'" for t0 t k k' v ttl w
    by (rule conjunct1 [OF conjunct2 [OF L], rule_format, OF that])
  have D: "kv_Get K t k (kv_Del K k w) = None" for t k w
    by (rule conjunct1 [OF conjunct2 [OF conjunct2 [OF L]], rule_format])
  have D': "kv_Get K t k (kv_Del K k' w) = kv_Get K t k w" if "k \<noteq> k'" for t k k' w
    by (rule conjunct2 [OF conjunct2 [OF conjunct2 [OF L]], rule_format, OF that])
  show ?thesis
  proof unfold_locales
    fix w and s :: Session and t t0
    assume "session_fits s" and t: "t0 \<le> t" "t < ss_ExpiresAt s"
    then show "\<exists>s'. (case rs_Get T K None t r (ss_Token s) (snd (rs_Put T K None t0 r s w)) of Inr s \<Rightarrow> Some s | Inl e \<Rightarrow> None) = Some s'
        \<and> same_session s s'"
      using K [OF t(1)] decode_session_json [OF assms(2)]
      by (simp add: rs_Get_def rs_Put_def session_ttl_def Let_def same_session_def del: json_print.simps)
  next
    fix w and s :: Session and t t0
    assume t: "t0 < ss_ExpiresAt s" "ss_ExpiresAt s \<le> t"
    then have "t0 \<le> t" by simp
    from K [OF this] t show "(case rs_Get T K None t r (ss_Token s) (snd (rs_Put T K None t0 r s w)) of
        Inr s \<Rightarrow> Some s | Inl e \<Rightarrow> None) = None"
      by (simp add: rs_Get_def rs_Put_def session_ttl_def Let_def del: json_print.simps)
  qed (simp_all add: rs_Get_def rs_Put_def rs_Delete_def rs_key_def K' D D')
qed

text \<open>A server that keeps its keys with the time they expire at.\<close>

type_synonym kv_map = "string \<Rightarrow> (string \<times> time option) option"

definition map_kv :: "kv_map kv" where
  "map_kv = \<lparr>kv_Get = (\<lambda>t k w. case w k of None \<Rightarrow> None
                | Some (v, e) \<Rightarrow> (case e of None \<Rightarrow> Some v | Some x \<Rightarrow> if t < x then Some v else None)),
     kv_Set = (\<lambda>t k v ttl w. w(k \<mapsto> (v, if ttl = 0 then None else Some (t + ttl)))),
     kv_Del = (\<lambda>k w. w(k := None)), kv_Scan = (\<lambda>t p w. [])\<rparr>"

definition unary_text :: time_text where
  "unary_text = \<lparr>tt_format = (\<lambda>t. (if t < 0 then ''-'' else ''+'') @ replicate (nat \<bar>t\<bar>) CHR ''1''),
     tt_parse = (\<lambda>s. Some ((if hd s = CHR ''-'' then -1 else 1) * int (length (tl s))))\<rparr>"

lemma map_kv_laws: "kv_laws map_kv"
  by (simp add: kv_laws_def map_kv_def)

lemma unary_text_laws: "time_laws unary_text"
  by (auto simp: time_laws_def unary_text_def intro!: ascii_valid)

interpretation redis_store: token_store "\<lambda>w. True" "\<lambda>tok w. True" session_fits "\<lambda>s. s"
    "\<lambda>t tok w. case rs_Get unary_text map_kv None t r tok w of Inr s \<Rightarrow> Some s | Inl e \<Rightarrow> None"
    "\<lambda>t s w. snd (rs_Put unary_text map_kv None t r s w)" "\<lambda>tok w. snd (rs_Delete map_kv None r tok w)"
  by (rule redis_store_laws [OF map_kv_laws unary_text_laws])

section \<open>Properties\<close>

text \<open>
  C19. The life of a session in the Postgres store, on a pool whose role bypasses row security
  and while no statement fails. Stored before its expiry under a token that was not in use,
  for a tenant whose id the column of type \<^verbatim>\<open>uuid\<close> accepts, it is found until it expires,
  as the columns return its tenant, payload and expiry, and from then on it is not found, whatever
  happens to other tokens; once deleted it is not found either. With a tenant id that is not a
  UUID nothing is stored. \<^verbatim>\<open>Put\<close> under a token in use by another tenant changes the payload
  and the expiry but leaves the session with that other tenant.
\<close>

theorem pg_session_lifetime:
  assumes "pg_inv c" and "t0 < ss_ExpiresAt (stored T s)" and "t0 \<le> t"
    and "\<And>p. p \<in> set ops \<Longrightarrow> op_token p \<noteq> ss_Token s"
  shows "let run = fold (store_apply (\<lambda>t s c. snd (pg_Put T no_error t s c)) (\<lambda>tok c. snd (pg_Delete all_rows None tok c))) ops;
             found = (\<lambda>c. pg_Get all_rows None t (ss_Token s) (run c)) in
     (pg_fits T s \<and> pg_fresh (ss_Token s) c \<longrightarrow>
        (if t < ss_ExpiresAt (stored T s)
         then \<exists>s'. found (snd (pg_Put T no_error t0 s c)) = Inr s' \<and> same_session (stored T s) s'
         else found (snd (pg_Put T no_error t0 s c)) = Inl SessionNotFound)) \<and>
     found (snd (pg_Delete all_rows None (ss_Token s) c)) = Inl SessionNotFound \<and>
     (\<not> pg_fits T s \<longrightarrow> fst (pg_Put T no_error t0 s c) \<noteq> None \<and> snd (pg_Put T no_error t0 s c) = c) \<and>
     (\<forall>r. pg_fits T s \<and> r \<in> set (cn_db c) \<and> ss_Token r = ss_Token s \<and> t < ss_ExpiresAt (stored T s) \<longrightarrow>
        pg_Get all_rows None t (ss_Token s) (snd (pg_Put T no_error t0 s c)) =
          Inr (r\<lparr>ss_Payload := ss_Payload (stored T s), ss_ExpiresAt := ss_ExpiresAt (stored T s)\<rparr>))"
proof -
  have get: "pg_Get all_rows None t tok c = (case pg_lookup t tok c of None \<Rightarrow> Inl SessionNotFound | Some s \<Rightarrow> Inr s)" for tok c
    by (simp add: pg_lookup_eq pg_Get_def pg_get_def select_session_def split: option.splits)
  have upd: "find (\<lambda>x. ss_Token x = ss_Token s \<and> ss_ExpiresAt x > t) (upsert_session t0 (stored T s) db) =
      Some (r\<lparr>ss_Payload := ss_Payload (stored T s), ss_ExpiresAt := ss_ExpiresAt (stored T s)\<rparr>)"
    if "r \<in> set db" "ss_Token r = ss_Token s" "distinct (map ss_Token db)" "t < ss_ExpiresAt (stored T s)" for r db
    using that by (induction db) (auto simp: image_iff)
  note life = pg_store.lifetime [where ops = ops, OF assms(1) _ _ assms(3) _ assms(4)]
    and over = pg_store.expired [where ops = ops, OF assms(1) _ _ assms(2) _ assms(4)]
    and gone = pg_store.removed [where ops = ops, OF assms(1) assms(4)]
  show ?thesis
    unfolding Let_def
  proof (intro conjI impI allI)
    assume "pg_fits T s \<and> pg_fresh (ss_Token s) c"
    then show "if t < ss_ExpiresAt (stored T s)
      then \<exists>s'. pg_Get all_rows None t (ss_Token s) (fold (store_apply (\<lambda>t s c. snd (pg_Put T no_error t s c))
          (\<lambda>tok c. snd (pg_Delete all_rows None tok c))) ops (snd (pg_Put T no_error t0 s c))) = Inr s' \<and> same_session (stored T s) s'
      else pg_Get all_rows None t (ss_Token s) (fold (store_apply (\<lambda>t s c. snd (pg_Put T no_error t s c))
          (\<lambda>tok c. snd (pg_Delete all_rows None tok c))) ops (snd (pg_Put T no_error t0 s c))) = Inl SessionNotFound"
      unfolding get using life [of T] over [of t] by (auto simp: not_less)
  next
    show "pg_Get all_rows None t (ss_Token s) (fold (store_apply (\<lambda>t s c. snd (pg_Put T no_error t s c))
        (\<lambda>tok c. snd (pg_Delete all_rows None tok c))) ops (snd (pg_Delete all_rows None (ss_Token s) c))) = Inl SessionNotFound"
      unfolding get using gone by simp
  next
    assume "\<not> pg_fits T s"
    then obtain e where "uuid_error T (ss_TenantID s) = Some e" by (auto simp: pg_fits_def uuid_error_def)
    then have "pg_Put T no_error t0 s c = (Some e, c)"
      by (simp add: pg_Put_def tenant_tx_def run_commit_def run_callback_def pg_rollback_def pg_begin_def set_local_tenant_def)
    then show "fst (pg_Put T no_error t0 s c) \<noteq> None" "snd (pg_Put T no_error t0 s c) = c" by simp_all
  next
    fix r assume "pg_fits T s \<and> r \<in> set (cn_db c) \<and> ss_Token r = ss_Token s \<and> t < ss_ExpiresAt (stored T s)"
    then show "pg_Get all_rows None t (ss_Token s) (snd (pg_Put T no_error t0 s c)) =
        Inr (r\<lparr>ss_Payload := ss_Payload (stored T s), ss_ExpiresAt := ss_ExpiresAt (stored T s)\<rparr>)"
      unfolding get pg_lookup_eq pg_Put_db using upd [of r "cn_db c"] assms(1) by (simp add: pg_inv_def)
  qed
qed

text \<open>Columns that keep a UUID in canonical form, microseconds and the payload.\<close>

definition demo_types :: session_types where
  "demo_types = \<lparr>ty_uuid = (\<lambda>s. if canonical_uuid s then Some s else None), ty_time = (\<lambda>t. t - t mod 1000), ty_payload = (\<lambda>j. j)\<rparr>"

definition demo_session :: Session where
  "demo_session = \<lparr>ss_Token = ''tok'', ss_TenantID = demo_tenant, ss_Payload = JNull, ss_CreatedAt = 0, ss_ExpiresAt = 5700\<rparr>"

theorem pg_session_lifetime_witness:
  "(\<exists>s'. pg_Get all_rows None 4000 ''tok''
      (snd (pg_Put demo_types no_error 10 demo_session \<lparr>cn_cur = \<lparr>st_role = [], st_tenant = []\<rparr>, cn_db = []\<rparr>)) = Inr s' \<and>
    same_session (stored demo_types demo_session) s') \<and>
   pg_Get all_rows None 5000 ''tok''
      (snd (pg_Put demo_types no_error 10 demo_session \<lparr>cn_cur = \<lparr>st_role = [], st_tenant = []\<rparr>, cn_db = []\<rparr>)) = Inl SessionNotFound"
proof -
  let ?c = "\<lparr>cn_cur = \<lparr>st_role = [], st_tenant = []\<rparr>, cn_db = []\<rparr>"
  have s: "pg_fits demo_types demo_session" "ss_ExpiresAt (stored demo_types demo_session) = 5000" "ss_Token demo_session = ''tok''"
    by (simp_all add: pg_fits_def stored_def demo_types_def demo_session_def demo_tenant_canonical)
  show ?thesis
    using pg_session_lifetime [of ?c 10 demo_types demo_session 4000 "[]"] pg_session_lifetime [of ?c 10 demo_types demo_session 5000 "[]"] s
    by (simp add: pg_inv_def pg_fresh_def)
qed

text \<open>
  A session put into Redis before its expiry is found unchanged until it expires and
  not afterwards. Put exactly at its expiry it gets the expiration 0, which means
  none: it is found at every later time.
\<close>

lemma redis_session_expiry:
  assumes "kv_laws K" and "time_laws T" and "session_fits s" and "now \<le> t"
    and "rs_Put T K None now r s w = (None, w')"
  shows "(now < ss_ExpiresAt s \<longrightarrow>
            rs_Get T K None t r (ss_Token s) w' = (if t < ss_ExpiresAt s then Inr s else Inl SessionNotFound)) \<and>
         (now = ss_ExpiresAt s \<longrightarrow> rs_Get T K None t r (ss_Token s) w' = Inr s)"
proof -
  note K = conjunct1 [OF assms(1) [unfolded kv_laws_def], rule_format, OF assms(4)]
  have w': "w' = kv_Set K now (rs_key r (ss_Token s)) (json_print (session_json T s)) (session_ttl now s) w"
    using assms(5) by (simp add: rs_Put_def)
  show ?thesis
    unfolding w' using K decode_session_json [OF assms(2,3)]
    by (auto simp: rs_Get_def session_ttl_def Let_def simp del: json_print.simps)
qed

lemma demo_tenant_utf8: "valid_utf8 demo_tenant"
  by code_simp

lemma redis_session_expiry_witness:
  "rs_Get unary_text map_kv None 9000 \<lparr>rs_prefix = ''p:''\<rparr> ''tok''
     (snd (rs_Put unary_text map_kv None 5700 \<lparr>rs_prefix = ''p:''\<rparr> demo_session (\<lambda>_. None))) = Inr demo_session"
proof -
  let ?w = "snd (rs_Put unary_text map_kv None 5700 \<lparr>rs_prefix = ''p:''\<rparr> demo_session (\<lambda>_. None))"
  have p: "rs_Put unary_text map_kv None 5700 \<lparr>rs_prefix = ''p:''\<rparr> demo_session (\<lambda>_. None) = (None, ?w)"
    by (simp add: rs_Put_def)
  have f: "session_fits demo_session" "ss_Token demo_session = ''tok''" "ss_ExpiresAt demo_session = 5700"
    by (simp_all add: session_fits_def demo_session_def demo_tenant_utf8)
  show ?thesis using redis_session_expiry [OF map_kv_laws unary_text_laws f(1) _ p, of 9000] f(2,3) by simp
qed

end
