(* ===== verification/Services.thy ===== *)
theory Services
  imports Http Go_Maps Request_Id
begin

text \<open>
  The small service packages: \<^verbatim>\<open>config\<close> (environment variables), \<^verbatim>\<open>logging\<close> (level and format
  from the environment, loggers bound to a request), \<^verbatim>\<open>cost\<close> (the unit counter),
  \<^verbatim>\<open>security\<close> (the event row), \<^verbatim>\<open>health\<close> (liveness and readiness handlers) and
  \<^verbatim>\<open>syncnotifier\<close> (the notification request).

  The environment is a function that gives the empty string for a variable that is
  not set, as \<^verbatim>\<open>os.Getenv\<close> does. A probe is its name with the outcome of its check,
  \<open>None\<close> for a nil check function.
\<close>

section \<open>Configuration (config)\<close>

type_synonym env = "string \<Rightarrow> string"

definition envStr :: "env \<Rightarrow> string \<Rightarrow> string \<Rightarrow> string" where
  "envStr env k fallback = (if env k \<noteq> [] then env k else fallback)"

definition envInt :: "env \<Rightarrow> string \<Rightarrow> int \<Rightarrow> int" where
  "envInt env k fallback =
     (if env k \<noteq> [] then (case ParseInt (env k) of Some n \<Rightarrow> n | None \<Rightarrow> fallback) else fallback)"

definition EnvInt64 :: "env \<Rightarrow> string \<Rightarrow> int \<Rightarrow> int" where
  "EnvInt64 env k fallback =
     (if env k \<noteq> [] then (case ParseInt (env k) of Some n \<Rightarrow> n | None \<Rightarrow> fallback) else fallback)"

definition EnvBool :: "env \<Rightarrow> string \<Rightarrow> bool \<Rightarrow> bool" where
  "EnvBool env k fallback =
     (let v = env k in
      if v = [] then fallback
      else if ToLower v \<in> {''true'', ''1'', ''yes''} then True
      else if ToLower v \<in> {''false'', ''0'', ''no''} then False
      else fallback)"

record Base =
  bc_Mode :: string
  bc_TenantToken :: string
  bc_SettingsKey :: string
  bc_AppVersion :: string
  bc_CORSOrigins :: string
  bc_PostgresHost :: string
  bc_PostgresPort :: int
  bc_PostgresDB :: string
  bc_PostgresUser :: string
  bc_PostgresPassword :: string
  bc_ValkeyHost :: string
  bc_ValkeyPort :: int
  bc_ValkeyPassword :: string
  bc_OllamaHost :: string
  bc_OllamaChatModel :: string

definition config_Load :: "env \<Rightarrow> Base" where
  "config_Load env = \<lparr>
     bc_Mode = envStr env ''RUNTIME_MODE'' ''standalone'',
     bc_TenantToken = envStr env ''TENANT_TOKEN'' [],
     bc_SettingsKey = envStr env ''SETTINGS_KEY'' [],
     bc_AppVersion = envStr env ''APP_VERSION'' ''dev'',
     bc_CORSOrigins = envStr env ''CORS_ORIGINS'' [],
     bc_PostgresHost = envStr env ''POSTGRES_HOST'' ''pgbouncer'',
     bc_PostgresPort = envInt env ''POSTGRES_PORT'' 6432,
     bc_PostgresDB = envStr env ''POSTGRES_DB'' [],
     bc_PostgresUser = envStr env ''POSTGRES_USER'' [],
     bc_PostgresPassword = envStr env ''POSTGRES_PASSWORD'' [],
     bc_ValkeyHost = envStr env ''VALKEY_HOST'' ''valkey'',
     bc_ValkeyPort = envInt env ''VALKEY_PORT'' 6379,
     bc_ValkeyPassword = envStr env ''VALKEY_PASSWORD'' [],
     bc_OllamaHost = envStr env ''OLLAMA_HOST'' ''http://ollama:11434'',
     bc_OllamaChatModel = envStr env ''OLLAMA_CHAT_MODEL'' ''qwen3:8b''\<rparr>"

definition PostgresDSN :: "Base \<Rightarrow> string" where
  "PostgresDSN b = ''postgres://'' @ bc_PostgresUser b @ '':'' @ bc_PostgresPassword b @ ''@'' @ bc_PostgresHost b
     @ '':'' @ Itoa (bc_PostgresPort b) @ ''/'' @ bc_PostgresDB b"

definition ValkeyAddr :: "Base \<Rightarrow> string" where
  "ValkeyAddr b = bc_ValkeyHost b @ '':'' @ Itoa (bc_ValkeyPort b)"

definition CORSOriginsList :: "Base \<Rightarrow> string list" where
  "CORSOriginsList b = (if bc_CORSOrigins b = [] then [] else Split (bc_CORSOrigins b) CHR '','')"

section \<open>Logging (logging)\<close>

datatype log_level = LevelDebug | LevelInfo | LevelWarn | LevelError

definition levelFromEnv :: "env \<Rightarrow> log_level" where
  "levelFromEnv env =
     (let v = ToLower (env ''LOG_LEVEL'') in
      if v = ''debug'' then LevelDebug
      else if v = ''warn'' \<or> v = ''warning'' then LevelWarn
      else if v = ''error'' then LevelError
      else LevelInfo)"

definition formatFromEnv :: "env \<Rightarrow> string" where
  "formatFromEnv env =
     (let v = ToLower (env ''LOG_FORMAT'') in if v = ''text'' \<or> v = ''console'' then ''text'' else ''json'')"

text \<open>A logger is its level, whether it writes text, and its bound attributes in order.\<close>

record logger =
  lg_level :: log_level
  lg_text :: bool
  lg_attrs :: "(string \<times> string) list"

definition log_With :: "string \<Rightarrow> string \<Rightarrow> logger \<Rightarrow> logger" where
  "log_With k v l = l\<lparr>lg_attrs := lg_attrs l @ [(k, v)]\<rparr>"

definition logging_Init :: "env \<Rightarrow> string \<Rightarrow> logger" where
  "logging_Init env service =
     log_With ''service'' service
       \<lparr>lg_level = levelFromEnv env, lg_text = (formatFromEnv env = ''text''), lg_attrs = []\<rparr>"

text \<open>A nil context is \<open>None\<close>; \<open>dflt\<close> is the default logger.\<close>

definition logging_FromContext :: "logger \<Rightarrow> ctx option \<Rightarrow> logger" where
  "logging_FromContext dflt c =
     (case c of
        None \<Rightarrow> dflt
      | Some c \<Rightarrow>
          (let i = requestid_FromContext c in if i \<noteq> [] then log_With ''request_id'' i dflt else dflt))"

text \<open>\<open>fresh\<close> is the new UUID.\<close>

definition WorkerContext :: "logger \<Rightarrow> string \<Rightarrow> ctx option \<Rightarrow> string \<Rightarrow> ctx \<times> logger" where
  "WorkerContext dflt fresh parent name =
     (let c = requestid_NewContext (case parent of None \<Rightarrow> [] | Some p \<Rightarrow> p) fresh
      in (c, log_With ''worker'' name (logging_FromContext dflt (Some c))))"

section \<open>Cost units (cost)\<close>

definition validBuckets :: "string list" where
  "validBuckets = [''system'', ''trial'', ''paid'']"

text \<open>
  The counter vector: a map from label values to totals. \<open>nonpos\<close> is the comparison of
  floating-point numbers with 0 and \<open>add\<close> their addition; adding may fail in the
  client library (\<open>fails\<close>), which the deferred \<^verbatim>\<open>recover\<close> swallows.
\<close>

type_synonym 'f cost_counters = "string list \<Rightarrow> 'f"

definition cost_bucket :: "string \<Rightarrow> string" where
  "cost_bucket tenantBucket = (if tenantBucket \<notin> set validBuckets then ''trial'' else tenantBucket)"

definition RecordCost ::
  "('f \<Rightarrow> bool) \<Rightarrow> ('f \<Rightarrow> 'f \<Rightarrow> 'f) \<Rightarrow> bool \<Rightarrow> string \<Rightarrow> string \<Rightarrow> string \<Rightarrow> 'f \<Rightarrow> string \<Rightarrow> 'f cost_counters \<Rightarrow> 'f cost_counters" where
  "RecordCost nonpos add fails service provider oper units tenantBucket cs =
     (if nonpos units then cs
      else
        (let labels = [service, provider, oper, cost_bucket tenantBucket]
         in if fails then cs else cs(labels := add (cs labels) units)))"

section \<open>Security events (security)\<close>

record SecurityEvent =
  se_TenantID :: string
  se_Kind :: string
  se_Severity :: string
  se_DocID :: "string option"
  se_ChunkID :: "string option"
  se_Evidence :: "(string + json) option"
  se_ClassifierVersion :: "string option"
  se_RequestID :: "string option"

type_synonym security_row =
  "string \<times> string \<times> string \<times> string option \<times> string option \<times> string \<times> string option \<times> string option"

definition WriteSecurityEvent ::
  "bool \<Rightarrow> go_error \<Rightarrow> SecurityEvent \<Rightarrow> security_row list \<Rightarrow> go_error \<times> security_row list" where
  "WriteSecurityEvent pool ex e rows =
     (if \<not> pool then (Some ''security: nil pool'', rows)
      else if se_TenantID e = [] then (Some ''security: tenant_id required'', rows)
      else if se_Kind e = [] then (Some ''security: kind required'', rows)
      else if se_Severity e = [] then (Some ''security: severity required'', rows)
      else
        (case (case se_Evidence e of
                 None \<Rightarrow> Inr ''{}''
               | Some (Inl err) \<Rightarrow> Inl err
               | Some (Inr j) \<Rightarrow> Inr (json_print j)) of
           Inl err \<Rightarrow> (Some (''security: marshal evidence: '' @ err), rows)
         | Inr evidence \<Rightarrow>
             (case ex of
                Some err \<Rightarrow> (Some err, rows)
              | None \<Rightarrow> (None, rows @ [(se_TenantID e, se_Kind e, se_Severity e, se_DocID e, se_ChunkID e,
                                         evidence, se_ClassifierVersion e, se_RequestID e)]))))"

section \<open>Health (health)\<close>

type_synonym probe = "string \<times> go_error option"

definition json_encode :: "json \<Rightarrow> string" where
  "json_encode j = json_print j @ [CHR 0x0A]"

definition health_Handler :: "string \<Rightarrow> string \<Rightarrow> response \<Rightarrow> response" where
  "health_Handler service version w =
     write_body (json_encode (JObj [(''service'', JStr service), (''status'', JStr ''ok''), (''version'', JStr version)]))
       (write_header 200 (set_header ''Content-Type'' ''application/json'' w))"

definition ReadyHandler :: "go_error \<Rightarrow> response \<Rightarrow> response" where
  "ReadyHandler check w =
     (let w = set_header ''Content-Type'' ''application/json'' w in
      case check of
        Some err \<Rightarrow> write_body (json_encode (JObj [(''error'', JStr err), (''status'', JStr ''not_ready'')]))
                      (write_header 503 w)
      | None \<Rightarrow> write_body (json_encode (JObj [(''status'', JStr ''ready'')])) (write_header 200 w))"

fun run_probes :: "probe list \<Rightarrow> (string \<times> string) list \<Rightarrow> string list \<Rightarrow> (string \<times> string) list \<times> string list" where
  "run_probes [] checks failed = (checks, failed)"
| "run_probes ((name, None) # ps) checks failed = run_probes ps checks failed"
| "run_probes ((name, Some (Some err)) # ps) checks failed =
     run_probes ps (AList.update name err checks) (failed @ [name])"
| "run_probes ((name, Some None) # ps) checks failed = run_probes ps (AList.update name ''ok'' checks) failed"

definition ReadyHandlerWithProbes :: "string \<Rightarrow> string \<Rightarrow> probe list \<Rightarrow> response \<Rightarrow> response" where
  "ReadyHandlerWithProbes service version probes w =
     (let w = set_header ''Content-Type'' ''application/json'' w;
          (checks, failed) = run_probes probes [] [];
          checks = JObj (map (\<lambda>(k, v). (k, JStr v)) (sorted_members checks))
      in if failed \<noteq> [] then
           write_body (json_encode (JObj [(''checks'', checks), (''failed'', JStr (Join failed '','')),
             (''service'', JStr service), (''status'', JStr ''not_ready''), (''version'', JStr version)]))
             (write_header 503 w)
         else
           write_body (json_encode (JObj [(''checks'', checks), (''service'', JStr service),
             (''status'', JStr ''ready''), (''version'', JStr version)])) (write_header 200 w))"

text \<open>The routes \<^verbatim>\<open>Mount\<close> registers.\<close>

definition Mount :: "string \<Rightarrow> string \<Rightarrow> probe list \<Rightarrow> (string \<times> (response \<Rightarrow> response)) list" where
  "Mount service version probes =
     (let live = health_Handler service version; ready = ReadyHandlerWithProbes service version probes
      in [(''GET /health'', live), (''GET /healthz'', live), (''GET /ready'', ready), (''GET /readyz'', ready)])"

text \<open>\<open>get\<close> is the HTTP request of the probing process.\<close>

definition LegacyHealthcheckPath :: "(string \<Rightarrow> string + nat) \<Rightarrow> int \<Rightarrow> string \<Rightarrow> go_error" where
  "LegacyHealthcheckPath get port path =
     (if path = [] \<or> hd path \<noteq> CHR ''/''
      then Some (''healthcheck path must start with /, got '' @ go_quote path)
      else (case get (''http://localhost:'' @ Itoa port @ path) of
              Inl err \<Rightarrow> Some err
            | Inr status \<Rightarrow> if status \<noteq> 200 then Some (path @ '' returned '' @ Itoa (int status)) else None))"

definition LegacyHealthcheck :: "(string \<Rightarrow> string + nat) \<Rightarrow> int \<Rightarrow> go_error" where
  "LegacyHealthcheck get port = LegacyHealthcheckPath get port ''/readyz''"

section \<open>Sync notifications (syncnotifier)\<close>

record Notifier =
  nt_baseURL :: string
  nt_token :: string

definition notifier_New :: "string \<Rightarrow> string \<Rightarrow> Notifier" where
  "notifier_New baseURL token = \<lparr>nt_baseURL = baseURL, nt_token = token\<rparr>"

text \<open>The request sent: method, URL, header and body; the warning logged, if any.\<close>

type_synonym sync_request = "string \<times> string \<times> header \<times> string"

definition notifier_send ::
  "go_error \<Rightarrow> (sync_request \<Rightarrow> string + nat) \<Rightarrow> Notifier \<Rightarrow> string \<Rightarrow> string \<Rightarrow> string + json \<Rightarrow> sync_request option \<times> string option" where
  "notifier_send bad_url call n meth path payload =
     (case payload of
        Inl err \<Rightarrow> (None, None)
      | Inr j \<Rightarrow>
          (case bad_url of
             Some err \<Rightarrow> (None, None)
           | None \<Rightarrow>
               (let req = (meth, nt_baseURL n @ path,
                      hset ''X-Service-Token'' (nt_token n) (hset ''Content-Type'' ''application/json'' Map.empty), json_print j)
                in (Some req,
                    case call req of
                      Inl err \<Rightarrow> Some ''sync_notifier.failed''
                    | Inr status \<Rightarrow> if status \<noteq> 202 then Some ''sync_notifier.unexpected_status'' else None))))"

text \<open>\<open>rows\<close> is what marshalling the rows gives.\<close>

definition NotifyMetrics ::
  "go_error \<Rightarrow> (sync_request \<Rightarrow> string + nat) \<Rightarrow> Notifier \<Rightarrow> string \<Rightarrow> string \<Rightarrow> string + json \<Rightarrow> sync_request option \<times> string option" where
  "NotifyMetrics bad_url call n metricName date rows =
     notifier_send bad_url call n ''POST'' ''/sync/metrics''
       (case rows of
          Inl err \<Rightarrow> Inl err
        | Inr j \<Rightarrow> Inr (JObj [(''date'', JStr date), (''metric_name'', JStr metricName), (''rows'', j)]))"

section \<open>Lemmas\<close>

lemma run_probes_failed:
  "snd (run_probes ps checks failed) = failed @ map fst (filter (\<lambda>(n, c). \<exists>err. c = Some (Some err)) ps)"
  by (induction ps checks failed rule: run_probes.induct) auto

lemma run_probes_last:
  "map_of (fst (run_probes ps checks failed)) n =
     (case find (\<lambda>(m, c). m = n \<and> c \<noteq> None) (rev ps) of
        None \<Rightarrow> map_of checks n
      | Some (m, c) \<Rightarrow> Some (case c of Some (Some err) \<Rightarrow> err | _ \<Rightarrow> ''ok''))"
proof -
  have app: "find P (xs @ [y]) = (case find P xs of Some x \<Rightarrow> Some x | None \<Rightarrow> if P y then Some y else None)"
    for P and xs :: "probe list" and y
    by (induction xs) auto
  show ?thesis
    by (induction ps checks failed rule: run_probes.induct) (auto simp: AList.update_conv' app split: option.splits)
qed

section \<open>Properties\<close>

text \<open>
  The readiness handler answers 200 exactly when no probe that is set fails and 503
  otherwise, and the liveness handler always answers 200; a failing probe that
  shares its name with a later passing one makes the answer 503 although the
  reported check of that name is ok.
\<close>

lemma readiness_status:
  assumes "rsp_status w = None"
  shows "rsp_status (ReadyHandlerWithProbes service version probes w) =
           Some (if \<exists>n err. (n, Some (Some err)) \<in> set probes then 503 else 200) \<and>
         rsp_status (health_Handler service version w) = Some 200 \<and>
         ((n, Some (Some err)) \<in> set probes \<and> last probes = (n, Some None) \<longrightarrow>
            map_of (fst (run_probes probes [] [])) n = Some ''ok'' \<and>
            rsp_status (ReadyHandlerWithProbes service version probes w) = Some 503)"
proof -
  have failed: "snd (run_probes probes [] []) \<noteq> [] \<longleftrightarrow> (\<exists>n err. (n, Some (Some err)) \<in> set probes)"
    by (auto simp: run_probes_failed filter_empty_conv)
  have status: "rsp_status (ReadyHandlerWithProbes service version probes w) =
      Some (if \<exists>n err. (n, Some (Some err)) \<in> set probes then 503 else 200)"
    using assms failed by (simp add: ReadyHandlerWithProbes_def Let_def case_prod_beta)
  have ok: "map_of (fst (run_probes probes [] [])) n = Some ''ok''" if "last probes = (n, Some None)" "(n, Some (Some err)) \<in> set probes"
  proof -
    have "probes \<noteq> []" using that(2) by auto
    have "probes = butlast probes @ [(n, Some None)]" using that(1) append_butlast_last_id [of probes] \<open>probes \<noteq> []\<close> by simp
    then obtain qs where "probes = qs @ [(n, Some None)]" by blast
    then show ?thesis by (simp add: run_probes_last)
  qed
  show ?thesis
    using status ok assms by (auto simp: health_Handler_def)
qed

lemma readiness_status_witness:
  "rsp_status (ReadyHandlerWithProbes ''s'' ''1'' [(''db'', Some (Some ''down'')), (''db'', Some None)] new_response) = Some 503"
proof -
  let ?ps = "[(''db'', Some (Some ''down'')), (''db'', Some None)]"
  have "\<exists>n err. (n, Some (Some err)) \<in> set ?ps" by force
  then show ?thesis
    using conjunct1 [OF readiness_status [OF new_response_sel(2), of "''s''" "''1''" ?ps]] by (simp only: if_True)
qed

text \<open>
  The connection string is not escaped: a password with an at sign moves the host, so
  that two different configurations give one string.
\<close>

lemma dsn_ambiguous:
  "PostgresDSN (b\<lparr>bc_PostgresPassword := ''p@evil'', bc_PostgresHost := ''db''\<rparr>) =
   PostgresDSN (b\<lparr>bc_PostgresPassword := ''p'', bc_PostgresHost := ''evil@db''\<rparr>)"
  by (simp add: PostgresDSN_def)

lemma cost_bucket_bounded: "cost_bucket b \<in> set validBuckets"
  by (simp add: cost_bucket_def validBuckets_def)

text \<open>The metric never carries a tenant bucket outside the fixed set.\<close>

lemma RecordCost_labels:
  assumes "RecordCost nonpos add fails service provider oper units tb cs ls \<noteq> cs ls"
  shows "\<exists>b \<in> set validBuckets. ls = [service, provider, oper, b]"
  using assms cost_bucket_bounded [of tb] by (auto simp: RecordCost_def Let_def split: if_splits)

lemma WorkerContext_correlated:
  assumes "fresh \<noteq> []" and "WorkerContext dflt fresh parent name = (c, l)"
  shows "requestid_FromContext c = fresh \<and>
         lg_attrs l = lg_attrs dflt @ [(''request_id'', fresh), (''worker'', name)]"
  using assms by (auto simp: WorkerContext_def logging_FromContext_def log_With_def Let_def)

end
