(* ===== verification/Cleanup.thy ===== *)
theory Cleanup
  imports Prelude
begin

text \<open>
  Package \<^verbatim>\<open>cleanup\<close> (\<^verbatim>\<open>src/cleanup/loop.go\<close>): a task run periodically by every replica of a
  service, guarded by a Postgres advisory lock.

  The server keeps advisory locks per session, with a count, as \<^verbatim>\<open>pg_try_advisory_lock\<close>
  and \<^verbatim>\<open>pg_advisory_unlock\<close> do. A tick has two halves, before and after the task, so
  that the ticks of several replicas interleave: \<open>cl_active\<close> are the replicas between the
  halves, each with the session of the connection it has acquired. A pooled
  connection is owned by one tick at a time. A connection may be lost at any time.
\<close>

section \<open>Model\<close>

record cleanup_config =
  cc_LockKey :: int
  cc_Interval :: duration
  cc_Name :: string

definition NewLoop :: "cleanup_config \<Rightarrow> cleanup_config" where
  "NewLoop cfg =
     (let cfg = (if cc_Interval cfg = 0 then cfg\<lparr>cc_Interval := 60 * second\<rparr> else cfg)
      in if cc_Name cfg = [] then cfg\<lparr>cc_Name := ''cleanup-loop''\<rparr> else cfg)"

type_synonym sess = nat
type_synonym locks = "int \<Rightarrow> (sess \<times> nat) option"

definition try_lock :: "sess \<Rightarrow> int \<Rightarrow> locks \<Rightarrow> bool \<times> locks" where
  "try_lock s k L =
     (case L k of
        None \<Rightarrow> (True, L(k \<mapsto> (s, 1)))
      | Some (h, n) \<Rightarrow> if h = s then (True, L(k \<mapsto> (s, Suc n))) else (False, L))"

definition unlock :: "sess \<Rightarrow> int \<Rightarrow> locks \<Rightarrow> locks" where
  "unlock s k L =
     (case L k of
        None \<Rightarrow> L
      | Some (h, n) \<Rightarrow> if h \<noteq> s then L else if n \<le> 1 then L(k := None) else L(k \<mapsto> (s, n - 1)))"

text \<open>
  The first half: \<^verbatim>\<open>Acquire\<close> (\<open>None\<close> when it fails), then the lock query, which may fail.
  \<open>Some s\<close> says that the task runs, on session \<open>s\<close>.
\<close>

definition tick_begin :: "int \<Rightarrow> sess option \<Rightarrow> go_error \<Rightarrow> locks \<Rightarrow> sess option \<times> locks" where
  "tick_begin k acquired query_err L =
     (case acquired of
        None \<Rightarrow> (None, L)
      | Some s \<Rightarrow>
          (case query_err of
             Some err \<Rightarrow> (None, L)
           | None \<Rightarrow> (case try_lock s k L of (got, L) \<Rightarrow> (if got then Some s else None, L))))"

text \<open>
  The second half, the deferred unlock: it uses the context of the tick, so a
  cancelled context makes the statement fail before it reaches the server.
\<close>

definition tick_end :: "int \<Rightarrow> bool \<Rightarrow> sess \<Rightarrow> locks \<Rightarrow> locks" where
  "tick_end k cancelled s L = (if cancelled then L else unlock s k L)"

text \<open>A whole tick with nothing in between; \<open>task\<close> gives its error and the new state.\<close>

definition cleanup_tick ::
  "int \<Rightarrow> sess option \<Rightarrow> go_error \<Rightarrow> bool \<Rightarrow> ('w \<Rightarrow> go_error \<times> 'w) \<Rightarrow> locks \<times> 'w \<Rightarrow> locks \<times> 'w" where
  "cleanup_tick k acquired query_err cancelled task = (\<lambda>(L, w).
     (case tick_begin k acquired query_err L of
        (None, L) \<Rightarrow> (L, w)
      | (Some s, L) \<Rightarrow> (tick_end k cancelled s L, snd (task w))))"

datatype 'w loop_event = LoopTick "sess option" go_error bool "'w \<Rightarrow> go_error \<times> 'w" | LoopDone

fun cleanup_Run :: "int \<Rightarrow> 'w loop_event list \<Rightarrow> locks \<times> 'w \<Rightarrow> locks \<times> 'w" where
  "cleanup_Run k [] st = st"
| "cleanup_Run k (LoopDone # es) st = st"
| "cleanup_Run k (LoopTick acq err c task # es) st = cleanup_Run k es (cleanup_tick k acq err c task st)"

section \<open>Interleaved replicas\<close>

text \<open>
  A session ends with its connection, and the server then gives its locks back, whatever the
  replica that owns the connection is doing: the task does not use it. \<open>cl_lost\<close> are the
  sessions that have ended; the server does not reuse them.
\<close>

record cl_state =
  cl_locks :: locks
  cl_active :: "(nat \<times> sess) list"
  cl_lost :: "sess list"

definition drop_session :: "sess \<Rightarrow> locks \<Rightarrow> locks" where
  "drop_session s L = (\<lambda>k. case L k of None \<Rightarrow> None | Some (h, n) \<Rightarrow> if h = s then None else Some (h, n))"

inductive cleanup_step :: "int \<Rightarrow> cl_state \<Rightarrow> cl_state \<Rightarrow> bool" for k where
  begin_idle: "\<lbrakk>tick_begin k acq err (cl_locks st) = (None, L)\<rbrakk> \<Longrightarrow> cleanup_step k st (st\<lparr>cl_locks := L\<rparr>)"
| begin_task: "\<lbrakk>tick_begin k (Some s) err (cl_locks st) = (Some s, L); s \<notin> snd ` set (cl_active st); s \<notin> set (cl_lost st)\<rbrakk> \<Longrightarrow>
    cleanup_step k st (st\<lparr>cl_locks := L, cl_active := (r, s) # cl_active st\<rparr>)"
| end_task: "(r, s) \<in> set (cl_active st) \<Longrightarrow>
    cleanup_step k st (st\<lparr>cl_locks := tick_end k c s (cl_locks st), cl_active := removeAll (r, s) (cl_active st)\<rparr>)"
| session_ends: "cleanup_step k st (st\<lparr>cl_locks := drop_session s (cl_locks st), cl_lost := s # cl_lost st\<rparr>)"

definition cl_init :: cl_state where
  "cl_init = \<lparr>cl_locks = (\<lambda>_. None), cl_active = [], cl_lost = []\<rparr>"

text \<open>The replicas inside their task whose session lives hold the lock, so there is at most one.\<close>

definition cl_live :: "cl_state \<Rightarrow> (nat \<times> sess) list" where
  "cl_live st = filter (\<lambda>(r, s). s \<notin> set (cl_lost st)) (cl_active st)"

definition cl_inv :: "int \<Rightarrow> cl_state \<Rightarrow> bool" where
  "cl_inv k st \<longleftrightarrow> (\<forall>rs \<in> set (cl_live st). \<exists>n>0. cl_locks st k = Some (snd rs, n)) \<and> length (cl_live st) \<le> 1"

lemma cl_invE:
  assumes "cl_inv k st"
  obtains (none) "cl_live st = []" | (one) r s n where "cl_live st = [(r, s)]" "cl_locks st k = Some (s, n)" "n > 0"
  using assms by (cases "cl_live st") (auto simp: cl_inv_def)

lemma tick_begin_task:
  assumes "tick_begin k (Some s) err L = (Some s', L')"
  shows "s' = s \<and> (\<exists>n>0. L' k = Some (s, n)) \<and> (L k = None \<or> (\<exists>n. L k = Some (s, n)))"
  using assms by (auto simp: tick_begin_def try_lock_def split: option.splits if_splits prod.splits)

lemma tick_begin_idle: "tick_begin k acq err L = (None, L') \<Longrightarrow> L' = L"
  by (auto simp: tick_begin_def try_lock_def split: option.splits if_splits prod.splits)

lemma tick_end_other: "L k = Some (h, n) \<Longrightarrow> h \<noteq> s \<Longrightarrow> tick_end k c s L = L"
  by (simp add: tick_end_def unlock_def)

lemma drop_session_other: "L k = Some (h, n) \<Longrightarrow> h \<noteq> s \<Longrightarrow> drop_session s L k = Some (h, n)"
  by (simp add: drop_session_def)

lemma cl_live_end: "cl_live (st\<lparr>cl_locks := L, cl_active := removeAll x (cl_active st)\<rparr>) = removeAll x (cl_live st)"
  by (simp add: cl_live_def removeAll_filter_not_eq filter_filter conj_commute)

lemma cl_live_ends: "cl_live (st\<lparr>cl_locks := L, cl_lost := s # cl_lost st\<rparr>) = filter (\<lambda>(r, s'). s' \<noteq> s) (cl_live st)"
  by (auto simp: cl_live_def filter_filter intro!: filter_cong)

lemma cl_step_inv:
  assumes "cleanup_step k st st'" and "cl_inv k st"
  shows "cl_inv k st'"
  using assms(1)
proof (cases rule: cleanup_step.cases)
  case (begin_idle acq err L)
  have "L = cl_locks st" by (rule tick_begin_idle [OF begin_idle(2)])
  then show ?thesis using assms(2) begin_idle(1) by (simp add: cl_inv_def)
next
  case (begin_task s err L r)
  note b = tick_begin_task [OF begin_task(2)]
  from assms(2) have "cl_live st = []"
  proof (cases rule: cl_invE)
    case (one r' s' n)
    then have "(r', s) \<in> set (cl_active st)" using b by (auto simp: cl_live_def filter_eq_Cons_iff)
    then show ?thesis using begin_task(3) by force
  qed
  then have "cl_live st' = [(r, s)]" using begin_task(1,4) by (simp add: cl_live_def)
  then show ?thesis using begin_task(1) b by (auto simp: cl_inv_def)
next
  case (end_task r s c)
  then have live: "cl_live st' = removeAll (r, s) (cl_live st)" and locks: "cl_locks st' = tick_end k c s (cl_locks st)"
    by (simp_all add: cl_live_end)
  from assms(2) show ?thesis
  proof (cases rule: cl_invE)
    case (one r' s' n)
    show ?thesis
    proof (cases "s' = s")
      case True
      then have "(r, s) \<in> set (cl_live st)" using one(1) end_task(2) by (auto simp: cl_live_def filter_eq_Cons_iff)
      then show ?thesis using one(1) live by (simp add: cl_inv_def)
    next
      case False
      then show ?thesis using one live locks tick_end_other [of "cl_locks st" k, OF one(2) False] by (simp add: cl_inv_def)
    qed
  qed (simp add: cl_inv_def live)
next
  case (session_ends s)
  from assms(2) show ?thesis
  proof (cases rule: cl_invE)
    case (one r' s' n)
    then show ?thesis using drop_session_other [of "cl_locks st" k s' n s] session_ends
      by (auto simp: cl_inv_def cl_live_ends)
  qed (use session_ends in \<open>simp add: cl_inv_def cl_live_ends\<close>)
qed

lemma cl_reach_inv:
  assumes "(cleanup_step k)\<^sup>*\<^sup>* cl_init st"
  shows "cl_inv k st"
  using assms
proof (induction rule: rtranclp_induct)
  case base
  show ?case by (simp add: cl_init_def cl_inv_def cl_live_def)
next
  case (step st st')
  then show ?case by (blast intro: cl_step_inv)
qed

section \<open>Properties\<close>

text \<open>
  C10. Of the replicas inside their task at most one is on a session that lives, in every
  reachable state of any number of replicas with failing acquisitions, failing lock
  queries, cancelled ticks and lost connections, and that session holds the advisory lock;
  while no connection is lost, at most one replica is inside its task. The lock
  outlives a tick whose context was cancelled during the task: the deferred unlock
  fails, and no tick on another session runs its task as long as the session lives.
\<close>

theorem cleanup_mutual_exclusion:
  assumes "(cleanup_step k)\<^sup>*\<^sup>* cl_init st"
  shows "length (cl_live st) \<le> 1 \<and>
         (cl_lost st = [] \<longrightarrow> length (cl_active st) \<le> 1) \<and>
         (\<forall>r s. (r, s) \<in> set (cl_live st) \<longrightarrow> (\<exists>n. cl_locks st k = Some (s, n))) \<and>
         (\<forall>r s s' L. (r, s) \<in> set (cl_live st) \<and> s' \<noteq> s \<and> L = tick_end k True s (cl_locks st) \<longrightarrow>
            tick_begin k (Some s') None L = (None, L))"
proof -
  note inv = cl_reach_inv [OF assms]
  have all: "cl_live st = cl_active st" if "cl_lost st = []" using that by (simp add: cl_live_def)
  have held: "\<exists>n. cl_locks st k = Some (s, n)" if "(r, s) \<in> set (cl_live st)" for r s
    using inv that by (auto simp: cl_inv_def)
  have "tick_begin k (Some s') None (tick_end k True s (cl_locks st)) = (None, tick_end k True s (cl_locks st))"
    if "(r, s) \<in> set (cl_live st)" "s' \<noteq> s" for r s s'
    using held [OF that(1)] that(2) by (auto simp: tick_begin_def tick_end_def try_lock_def)
  then show ?thesis using inv held all by (auto simp: cl_inv_def)
qed

theorem cleanup_mutual_exclusion_witness:
  "length (cl_active \<lparr>cl_locks = [7 \<mapsto> (3, 1)], cl_active = [(0, 3)], cl_lost = []\<rparr>) \<le> 1 \<and>
   tick_begin 7 (Some 4) None [7 \<mapsto> (3, 1)] = (None, [7 \<mapsto> (3, 1)])"
proof -
  let ?st = "\<lparr>cl_locks = [7 \<mapsto> (3, 1)], cl_active = [(0, 3)], cl_lost = []\<rparr>"
  have "tick_begin 7 (Some 3) None (cl_locks cl_init) = (Some 3, [7 \<mapsto> (3, 1)])"
    by (simp add: tick_begin_def try_lock_def cl_init_def)
  from cleanup_step.begin_task [OF this, of 0] have "cleanup_step 7 cl_init ?st"
    by (simp add: cl_init_def)
  then have r: "(cleanup_step 7)\<^sup>*\<^sup>* cl_init ?st" by blast
  show ?thesis using cleanup_mutual_exclusion [OF r] by (auto simp: tick_end_def cl_live_def)
qed

text \<open>
  A lost connection does not stop the task that runs under its lock: another replica
  acquires the lock the server gave back, and two are inside their task.
\<close>

lemma lost_session_overlap:
  "\<exists>st. (cleanup_step k)\<^sup>*\<^sup>* cl_init st \<and> cl_active st = [(1, 4), (0, 3)] \<and> cl_locks st k = Some (4, 1)"
proof -
  let ?L = "(\<lambda>s. [k \<mapsto> (s, 1)]) :: sess \<Rightarrow> locks"
  let ?st1 = "\<lparr>cl_locks = ?L 3, cl_active = [(0, 3)], cl_lost = []\<rparr>"
  let ?st2 = "\<lparr>cl_locks = Map.empty, cl_active = [(0, 3)], cl_lost = [3]\<rparr>"
  let ?st3 = "\<lparr>cl_locks = ?L 4, cl_active = [(1, 4), (0, 3)], cl_lost = [3]\<rparr>"
  have b: "tick_begin k (Some s) None Map.empty = (Some s, ?L s)" for s by (simp add: tick_begin_def try_lock_def)
  have "cleanup_step k cl_init ?st1"
    using cleanup_step.begin_task [of k 3 None cl_init "?L 3" 0] b by (simp add: cl_init_def)
  moreover have "drop_session 3 (?L 3) = Map.empty" by (auto simp: drop_session_def)
  then have "cleanup_step k ?st1 ?st2" using cleanup_step.session_ends [of k ?st1 3] by simp
  moreover have "cleanup_step k ?st2 ?st3" using cleanup_step.begin_task [of k 4 None ?st2 "?L 4" 1] b by simp
  ultimately have "(cleanup_step k)\<^sup>*\<^sup>* cl_init ?st3" by (meson converse_rtranclp_into_rtranclp rtranclp.rtrancl_refl)
  then show ?thesis by (intro exI [of _ ?st3]) simp
qed

end
