(* ===== verification/Provider.thy ===== *)
theory Provider
  imports Http_Client Json "HOL-Library.Monad_Syntax"
begin

text \<open>
  The adapters of model services, first part (\<^verbatim>\<open>src/provider/provider.go\<close>): the union type of
  message contents with its JSON form, the requests and responses, the \<^verbatim>\<open>Provider\<close> interface
  as a locale, and the call that each adapter makes. The adapters are in \<^verbatim>\<open>Provider_Adapters\<close>.

  A nil slice that is marshalled is \<open>None\<close>; in results nil and empty slices are the same list.
  Token counts are 64-bit words. The parameters of a call are a record \<open>wire\<close>: the text of a float64
  (or the error for NaN and infinities), the float32 a literal denotes, the verdict of
  \<^verbatim>\<open>http.NewRequest\<close> on a URL, the client that sends the request, and the text of a decoding
  error.
\<close>

section \<open>Message contents (provider.go)\<close>

record ImageURLObj =
  iu_URL :: string

record ContentPart =
  cp_Type :: string
  cp_Text :: string
  cp_ImageURL :: "ImageURLObj option"

record MessageContent =
  mc_Text :: string
  mc_Parts :: "ContentPart list"

definition IsMultimodal :: "MessageContent \<Rightarrow> bool" where
  "IsMultimodal mc \<longleftrightarrow> length (mc_Parts mc) > 0"

definition content_String :: "MessageContent \<Rightarrow> string" where
  "content_String mc =
     (if \<not> IsMultimodal mc then mc_Text mc
      else fold (\<lambda>p sb. if cp_Type p = ''text'' then sb @ cp_Text p else sb) (mc_Parts mc) [])"

definition image_json :: "ImageURLObj \<Rightarrow> json" where
  "image_json u = JObj [(''url'', JStr (iu_URL u))]"

definition part_json :: "ContentPart \<Rightarrow> json" where
  "part_json p =
     JObj ([(''type'', JStr (cp_Type p))]
       @ (if cp_Text p = [] then [] else [(''text'', JStr (cp_Text p))])
       @ (case cp_ImageURL p of None \<Rightarrow> [] | Some u \<Rightarrow> [(''image_url'', image_json u)]))"

definition content_json :: "MessageContent \<Rightarrow> json" where
  "content_json mc = (if IsMultimodal mc then JArr (map part_json (mc_Parts mc)) else JStr (mc_Text mc))"

definition content_MarshalJSON :: "MessageContent \<Rightarrow> string" where
  "content_MarshalJSON mc = json_print (content_json mc)"

definition dec_image :: "ImageURLObj \<Rightarrow> (string \<times> json) list \<Rightarrow> ImageURLObj option" where
  "dec_image u ms =
     do { s \<leftarrow> set_string (iu_URL u) (field_values [''url''] ''url'' ms); Some (u\<lparr>iu_URL := s\<rparr>) }"

text \<open>A pointer field: null makes it nil, an object is decoded into the target, new if it was nil.\<close>

fun set_image :: "ImageURLObj option \<Rightarrow> json list \<Rightarrow> ImageURLObj option option" where
  "set_image cur [] = Some cur"
| "set_image cur (JNull # vs) = set_image None vs"
| "set_image cur (JObj ms # vs) =
     (case dec_image (case cur of None \<Rightarrow> \<lparr>iu_URL = []\<rparr> | Some u \<Rightarrow> u) ms of
        None \<Rightarrow> None
      | Some u \<Rightarrow> set_image (Some u) vs)"
| "set_image cur (v # vs) = None"

definition part_fields :: "string list" where
  "part_fields = [''type'', ''text'', ''image_url'']"

definition dec_part :: "ContentPart \<Rightarrow> (string \<times> json) list \<Rightarrow> ContentPart option" where
  "dec_part p ms =
     do {
       ty \<leftarrow> set_string (cp_Type p) (field_values part_fields ''type'' ms);
       tx \<leftarrow> set_string (cp_Text p) (field_values part_fields ''text'' ms);
       im \<leftarrow> set_image (cp_ImageURL p) (field_values part_fields ''image_url'' ms);
       Some \<lparr>cp_Type = ty, cp_Text = tx, cp_ImageURL = im\<rparr>
     }"

definition zero_part :: ContentPart where
  "zero_part = \<lparr>cp_Type = [], cp_Text = [], cp_ImageURL = None\<rparr>"

definition dec_parts :: "json \<Rightarrow> ContentPart list option" where
  "dec_parts v = map_option slice_list (set_slice (\<lambda>cur e. set_struct dec_part cur [e]) zero_part ([], 0) [v])"

definition content_UnmarshalJSON :: "string \<Rightarrow> MessageContent option" where
  "content_UnmarshalJSON data =
     (let trimmed = TrimSpace data in
      if length trimmed > 0 \<and> trimmed ! 0 = quote_char then
        do { v \<leftarrow> json_parse data; s \<leftarrow> set_string [] [v]; Some \<lparr>mc_Text = s, mc_Parts = []\<rparr> }
      else
        do { v \<leftarrow> json_parse data; parts \<leftarrow> dec_parts v; Some \<lparr>mc_Text = [], mc_Parts = parts\<rparr> })"

text \<open>
  The same on a parsed value, for contents inside a message: the decoder hands
  \<^verbatim>\<open>UnmarshalJSON\<close> the text of the value (lemma \<open>content_UnmarshalJSON_value\<close>), null included.
\<close>

definition content_value :: "json \<Rightarrow> MessageContent option" where
  "content_value v =
     (case v of
        JStr s \<Rightarrow> Some \<lparr>mc_Text = s, mc_Parts = []\<rparr>
      | _ \<Rightarrow> map_option (\<lambda>ps. \<lparr>mc_Text = [], mc_Parts = ps\<rparr>) (dec_parts v))"

fun set_content :: "MessageContent \<Rightarrow> json list \<Rightarrow> MessageContent option" where
  "set_content cur [] = Some cur"
| "set_content cur (v # vs) = (case content_value v of None \<Rightarrow> None | Some mc \<Rightarrow> set_content mc vs)"

record ChatMessage =
  msg_Role :: string
  msg_Content :: MessageContent

definition message_json :: "ChatMessage \<Rightarrow> json" where
  "message_json m = JObj [(''role'', JStr (msg_Role m)), (''content'', content_json (msg_Content m))]"

definition message_fields :: "string list" where
  "message_fields = [''role'', ''content'']"

definition dec_message :: "ChatMessage \<Rightarrow> (string \<times> json) list \<Rightarrow> ChatMessage option" where
  "dec_message m ms =
     do {
       r \<leftarrow> set_string (msg_Role m) (field_values message_fields ''role'' ms);
       c \<leftarrow> set_content (msg_Content m) (field_values message_fields ''content'' ms);
       Some \<lparr>msg_Role = r, msg_Content = c\<rparr>
     }"

definition zero_message :: ChatMessage where
  "zero_message = \<lparr>msg_Role = [], msg_Content = \<lparr>mc_Text = [], mc_Parts = []\<rparr>\<rparr>"

section \<open>Requests and responses (provider.go)\<close>

record ResponseFormat =
  rf_Type :: string

record 'f ChatRequest =
  cr_Model :: string
  cr_Messages :: "ChatMessage list option"
  cr_Temperature :: "'f option"
  cr_MaxTokens :: "int64 option"
  cr_ResponseFormat :: "ResponseFormat option"

record TokenUsage =
  us_PromptTokens :: int64
  us_CompletionTokens :: int64
  us_TotalTokens :: int64

record ChatResponse =
  rs_Content :: string
  rs_Model :: string
  rs_Usage :: TokenUsage
  rs_FinishReason :: string

record EmbedRequest =
  er_Model :: string
  er_Input :: "string list option"

record 'g EmbedResponse =
  es_Embeddings :: "'g list list"
  es_Model :: string
  es_Usage :: TokenUsage

section \<open>The call every adapter makes\<close>

record ('f, 'g) wire =
  wr_float :: "'f \<Rightarrow> string + string"
  wr_parse32 :: "string \<Rightarrow> 'g option"
  wr_zero :: 'g
  wr_build :: "string \<Rightarrow> go_error"
  wr_send :: "request \<times> string \<Rightarrow> string + http_resp"
  wr_decode_error :: "string \<Rightarrow> string"

text \<open>A nil slice is marshalled as null.\<close>

definition slice_json :: "('a \<Rightarrow> json) \<Rightarrow> 'a list option \<Rightarrow> json" where
  "slice_json f xs = (case xs of None \<Rightarrow> JNull | Some xs \<Rightarrow> JArr (map f xs))"

text \<open>The optional temperature as the members it adds, or the error of marshalling it.\<close>

definition temperature_members :: "('f \<Rightarrow> string + string) \<Rightarrow> 'f option \<Rightarrow> string + (string \<times> json) list" where
  "temperature_members fl t =
     (case t of
        None \<Rightarrow> Inr []
      | Some x \<Rightarrow> (case fl x of Inl e \<Rightarrow> Inl e | Inr l \<Rightarrow> Inr [(''temperature'', JNum l)]))"

definition adapter_request :: "ctx \<Rightarrow> string \<Rightarrow> (string \<times> string) list \<Rightarrow> request" where
  "adapter_request cx url hs =
     \<lparr>req_method = ''POST'', req_path = url,
      req_header = fold (\<lambda>(k, v). hset k v) hs Map.empty,
      req_remote = [], req_cookies = [], req_ctx = cx\<rparr>"

text \<open>
  Marshal, build, send, check the status, decode: each step with the error it wraps. \<open>name\<close> is
  the adapter and \<open>what\<close> the word the messages of \<^verbatim>\<open>Embedding\<close> carry.
\<close>

definition post_call ::
  "('f, 'g) wire \<Rightarrow> ctx \<Rightarrow> string \<Rightarrow> string \<Rightarrow> string \<Rightarrow> (string \<times> string) list \<Rightarrow> string + json
     \<Rightarrow> (string \<Rightarrow> 'a option) \<Rightarrow> string + 'a" where
  "post_call wr cx name what url hs body dec =
     (case body of
        Inl e \<Rightarrow> Inl (name @ '': marshal '' @ what @ ''request: '' @ e)
      | Inr j \<Rightarrow>
          (case wr_build wr url of
             Some e \<Rightarrow> Inl (name @ '': build '' @ what @ ''request: '' @ e)
           | None \<Rightarrow>
               (case wr_send wr (adapter_request cx url hs, json_print j) of
                  Inl e \<Rightarrow> Inl (name @ '': do '' @ what @ ''request: '' @ e)
                | Inr resp \<Rightarrow>
                    if hr_status resp \<noteq> 200
                    then Inl (name @ '': unexpected status '' @ Itoa (hr_status resp))
                    else (case dec (hr_body resp) of
                            None \<Rightarrow> Inl (name @ '': decode '' @ what @ ''response: '' @ wr_decode_error wr (hr_body resp))
                          | Some x \<Rightarrow> Inr x))))"

section \<open>Lemmas: white space\<close>

definition space_bytes :: "char set" where
  "space_bytes = \<Union> (set ` set space_runes)"

lemma space_width_le:
  assumes "\<Union> (set ` set rs) \<subseteq> B" and "c \<notin> B"
  shows "space_width rs (xs @ [c]) \<le> length xs"
proof (cases "find (HasPrefix (xs @ [c])) rs")
  case (Some r)
  then have r: "r \<in> set rs" and "HasPrefix (xs @ [c]) r" by (auto simp: find_Some_iff)
  then obtain t where t: "xs @ [c] = r @ t" by (auto simp: HasPrefix_iff)
  have "c \<notin> set r" using r assms by auto
  with t have "t \<noteq> []" by (metis append_Nil2 in_set_conv_decomp)
  with t have "length r \<le> length xs" by (cases t rule: rev_cases) auto
  then show ?thesis using Some by (simp add: space_width_def)
qed (simp add: space_width_def)

lemma trim_left_keeps_last:
  assumes "\<Union> (set ` set rs) \<subseteq> B" and "c \<notin> B"
  shows "\<exists>ys. trim_left rs (xs @ [c]) = ys @ [c]"
proof (induction xs rule: length_induct)
  case (1 xs)
  let ?k = "space_width rs (xs @ [c])"
  have k: "?k \<le> length xs" by (rule space_width_le [OF assms])
  show ?case
  proof (cases "?k = 0")
    case False
    with k have "length (drop ?k xs) < length xs" by (cases xs) auto
    with 1 obtain ys where "trim_left rs (drop ?k xs @ [c]) = ys @ [c]" by blast
    then show ?thesis using False k by (subst trim_left.simps) simp
  qed (subst trim_left.simps, simp)
qed

lemma space_width_ws:
  assumes "is_ws w"
  shows "space_width space_runes (w # s) = 1"
proof -
  obtain rs where rs: "space_runes = [CHR 0x09] # [CHR 0x0A] # [CHR 0x0B] # [CHR 0x0C] # [CHR 0x0D] # [CHR 0x20] # rs"
    unfolding space_runes_def append.simps by blast
  show ?thesis using assms unfolding is_ws_def space_width_def rs
    by (elim disjE) (simp_all add: HasPrefix_def)
qed

lemma trim_left_skips_ws:
  assumes "skip_ws s = c # r" and "c \<notin> space_bytes"
  shows "trim_left space_runes s = c # r"
  using assms(1)
proof (induction s)
  case (Cons w s)
  show ?case
  proof (cases "is_ws w")
    case True
    then have "trim_left space_runes (w # s) = trim_left space_runes s"
      by (subst trim_left.simps) (simp add: space_width_ws)
    then show ?thesis using Cons True by (simp add: skip_ws_def)
  next
    case False
    have "c \<notin> set x" if "x \<in> set space_runes" for x using assms(2) that by (auto simp: space_bytes_def)
    moreover have "[] \<notin> set space_runes" by (auto simp: space_runes_def)
    ultimately have "\<not> HasPrefix (c # s) x" if "x \<in> set space_runes" for x
      using that by (cases x) (force simp: HasPrefix_iff)+
    then have "find (HasPrefix (c # s)) space_runes = None" by (simp add: find_None_iff)
    then have "space_width space_runes (c # s) = 0" by (simp add: space_width_def)
    then show ?thesis using Cons.prems False by (subst trim_left.simps) (simp add: skip_ws_def)
  qed
qed (simp add: skip_ws_def)

lemma TrimSpace_head:
  assumes "skip_ws s = c # r" and "c \<notin> space_bytes"
  shows "\<exists>t. TrimSpace s = c # t"
proof -
  have "\<Union> (set ` set (map rev space_runes)) \<subseteq> space_bytes" by (auto simp: space_bytes_def)
  from trim_left_keeps_last [OF this assms(2)]
  obtain ys where "trim_left (map rev space_runes) (rev r @ [c]) = ys @ [c]" by blast
  then show ?thesis by (simp add: TrimSpace_def trim_left_skips_ws [OF assms])
qed

lemma space_bytes_range: "c \<in> space_bytes \<Longrightarrow> byte c < 33 \<or> 127 < byte c"
proof -
  have "list_all (list_all (\<lambda>c. byte c < 33 \<or> 127 < byte c)) space_runes" by code_simp
  then show "c \<in> space_bytes \<Longrightarrow> byte c < 33 \<or> 127 < byte c" by (auto simp: space_bytes_def list_all_iff)
qed

lemma parse_num_start: "parse_num (c # r) = Some x \<Longrightarrow> c = CHR ''-'' \<or> is_digit c"
  by (auto simp: parse_num_def num_prefix_def int_part_def Let_def is_digit_def split: option.splits if_splits)

lemma parse_value_start:
  assumes "parse_value n s = Some (v, q)"
  obtains c r where "skip_ws s = c # r" and "c \<notin> space_bytes" and "c = quote_char \<longleftrightarrow> (\<exists>x. v = JStr x)"
proof -
  from assms obtain m where n: "n = Suc m" by (cases n) auto
  with assms obtain c r where c: "skip_ws s = c # r" by (cases "skip_ws s") auto
  have start: "c \<in> set [quote_char, CHR ''['', CHR ''{'', CHR ''t'', CHR ''f'', CHR ''n'', CHR ''-''] \<or> is_digit c"
    using assms n c by (auto split: if_splits dest: parse_num_start)
  then have "33 \<le> byte c \<and> byte c \<le> 127" by (auto simp: is_digit_def)
  then have "c \<notin> space_bytes" using space_bytes_range [of c] by auto
  moreover have "c = quote_char \<longleftrightarrow> (\<exists>x. v = JStr x)"
    using assms n c by (auto simp: parse_lit_def parse_num_def split: if_splits option.splits)
  ultimately show thesis using c that by blast
qed

text \<open>
  The decision of \<^verbatim>\<open>UnmarshalJSON\<close> by the first byte after white space agrees with the
  value: JSON texts that are strings give a text and all others are read as parts.
\<close>

lemma content_UnmarshalJSON_value:
  "content_UnmarshalJSON data = Option.bind (json_parse data) content_value"
proof (cases "json_parse data")
  case None
  then show ?thesis by (simp add: content_UnmarshalJSON_def Let_def)
next
  case (Some v)
  then obtain q where "parse_value (parse_fuel data) data = Some (v, q)"
    by (auto simp: json_parse_def split: option.splits if_splits)
  then obtain c r where c: "skip_ws data = c # r" "c \<notin> space_bytes" "c = quote_char \<longleftrightarrow> (\<exists>x. v = JStr x)"
    by (rule parse_value_start)
  from TrimSpace_head [OF c(1,2)] obtain t where "TrimSpace data = c # t" by blast
  then show ?thesis using Some c(3)
    by (cases v) (auto simp: content_UnmarshalJSON_def content_value_def Let_def map_option_case bind_eq_None_conv
        split: option.splits)
qed

section \<open>Lemmas: round trips\<close>

definition part_wf :: "ContentPart \<Rightarrow> bool" where
  "part_wf p \<longleftrightarrow> valid_utf8 (cp_Type p) \<and> valid_utf8 (cp_Text p)
     \<and> (case cp_ImageURL p of None \<Rightarrow> True | Some u \<Rightarrow> valid_utf8 (iu_URL u))"

definition content_wf :: "MessageContent \<Rightarrow> bool" where
  "content_wf mc \<longleftrightarrow> (if IsMultimodal mc then list_all part_wf (mc_Parts mc) else valid_utf8 (mc_Text mc))"

lemma ascii_names [simp]:
  "valid_utf8 ''type''" "valid_utf8 ''text''" "valid_utf8 ''image_url''" "valid_utf8 ''url''"
  "valid_utf8 ''role''" "valid_utf8 ''content''" "valid_utf8 ''images''" "valid_utf8 ''model''"
  "valid_utf8 ''messages''" "valid_utf8 ''stream''" "valid_utf8 ''options''" "valid_utf8 ''temperature''"
  "valid_utf8 ''max_tokens''" "valid_utf8 ''response_format''"
  by (auto intro!: ascii_valid)

lemma part_json_wf: "part_wf p \<Longrightarrow> json_wf (part_json p)"
  by (simp add: part_wf_def part_json_def image_json_def split: option.splits)

lemma content_json_wf: "content_wf mc \<Longrightarrow> json_wf (content_json mc)"
  by (auto simp: content_wf_def content_json_def list_all_iff intro: part_json_wf split: if_splits)

lemma part_roundtrip: "set_struct dec_part zero_part [part_json p] = Some p"
  by (simp add: part_json_def dec_part_def zero_part_def image_json_def dec_image_def field_values_def
      match_field_def part_fields_def split: option.splits)

lemma parts_roundtrip:
  "dec_elems (\<lambda>cur e. set_struct dec_part cur [e]) zero_part [] (map part_json ps) = Some ps"
  by (rule dec_elems_map) (rule part_roundtrip)

definition content_normal :: "MessageContent \<Rightarrow> MessageContent" where
  "content_normal mc = (if IsMultimodal mc then mc\<lparr>mc_Text := []\<rparr> else mc)"

lemma content_value_json: "content_value (content_json mc) = Some (content_normal mc)"
  by (auto simp: content_value_def content_json_def content_normal_def dec_parts_def parts_roundtrip slice_list_def
      IsMultimodal_def)

lemma message_roundtrip:
  "set_struct dec_message z [message_json m] = Some (m\<lparr>msg_Content := content_normal (msg_Content m)\<rparr>)"
  by (simp add: message_json_def dec_message_def field_values_def match_field_def message_fields_def content_value_json)

lemma content_String_normal [simp]: "content_String (content_normal mc) = content_String mc"
  by (simp add: content_String_def content_normal_def IsMultimodal_def)

definition part_texts :: "ContentPart list \<Rightarrow> string list" where
  "part_texts ps = map cp_Text (filter (\<lambda>p. cp_Type p = ''text'') ps)"

lemma content_String_texts:
  "content_String mc = (if mc_Parts mc = [] then mc_Text mc else concat (part_texts (mc_Parts mc)))"
proof -
  have "fold (\<lambda>p sb. if cp_Type p = ''text'' then sb @ cp_Text p else sb) ps acc = acc @ concat (part_texts ps)" for ps acc
    by (induction ps arbitrary: acc) (simp_all add: part_texts_def)
  then show ?thesis by (simp add: content_String_def IsMultimodal_def)
qed

section \<open>Lemmas: the call\<close>

text \<open>How a call ends: with an answer only after a request whose reply had status 200.\<close>

lemma post_call_answered:
  assumes "post_call wr cx name what url hs body dec = Inr x"
  obtains j resp where "body = Inr j" and "wr_send wr (adapter_request cx url hs, json_print j) = Inr resp"
    and "hr_status resp = 200" and "dec (hr_body resp) = Some x"
  using assms by (auto simp: post_call_def split: sum.splits option.splits if_splits)

lemma post_call_error:
  "post_call wr cx name what url hs body dec = Inl e \<Longrightarrow> HasPrefix e name"
  by (auto simp: post_call_def split: sum.splits option.splits if_splits)

lemma post_call_reply:
  assumes "body = Inr j" and "wr_build wr url = None"
    and "wr_send wr (adapter_request cx url hs, json_print j) = Inr \<lparr>hr_status = 200, hr_body = b\<rparr>"
    and "dec b = Some x"
  shows "post_call wr cx name what url hs body dec = Inr x"
  using assms by (simp add: post_call_def)

section \<open>The interface of the adapters\<close>

text \<open>
  The \<^verbatim>\<open>Provider\<close> interface and what its three implementations promise: an answer comes from
  a reply with status 200 to a POST that carries the caller's context, an error starts with the name, and an
  adapter without embeddings never returns any.
\<close>

definition served :: "('f, 'g) wire \<Rightarrow> ctx \<Rightarrow> bool" where
  "served wr cx \<longleftrightarrow>
     (\<exists>q b resp. wr_send wr (q, b) = Inr resp \<and> hr_status resp = 200 \<and> req_method q = ''POST'' \<and> req_ctx q = cx)"

locale model_adapter =
  fixes name :: string
    and supports :: bool
    and chat :: "('f, 'g) wire \<Rightarrow> 'p \<Rightarrow> ctx \<Rightarrow> 'f ChatRequest \<Rightarrow> string + ChatResponse"
    and embed :: "('f, 'g) wire \<Rightarrow> 'p \<Rightarrow> ctx \<Rightarrow> EmbedRequest \<Rightarrow> string + 'g EmbedResponse"
  assumes chat_served: "chat wr p cx req = Inr r \<Longrightarrow> served wr cx"
    and chat_named: "chat wr p cx req = Inl e \<Longrightarrow> HasPrefix e name"
    and embed_served: "embed wr p cx ereq = Inr er \<Longrightarrow> supports \<and> served wr cx"
    and embed_named: "embed wr p cx ereq = Inl e \<Longrightarrow> HasPrefix e name"
begin

lemma chat_refused:
  assumes "\<not> served wr cx"
  shows "\<exists>e. chat wr p cx req = Inl (name @ e)"
proof (cases "chat wr p cx req")
  case (Inl e)
  then show ?thesis using chat_named [OF Inl] by (auto simp: HasPrefix_iff)
next
  case (Inr r)
  then show ?thesis using chat_served [OF Inr] assms by simp
qed

lemma embed_refused:
  assumes "\<not> supports \<or> \<not> served wr cx"
  shows "\<exists>e. embed wr p cx ereq = Inl (name @ e)"
proof (cases "embed wr p cx ereq")
  case (Inl e)
  then show ?thesis using embed_named [OF Inl] by (auto simp: HasPrefix_iff)
next
  case (Inr r)
  then show ?thesis using embed_served [OF Inr] assms by auto
qed

end

section \<open>Properties of message contents\<close>

text \<open>
  C18. A message content survives the wire: what \<^verbatim>\<open>UnmarshalJSON\<close> reads from the text
  \<^verbatim>\<open>MarshalJSON\<close> wrote is the same content, in the form the decoder gives it (parts without
  a text beside them), whenever its strings are valid UTF-8.
\<close>

theorem content_roundtrip:
  assumes "content_wf mc"
  shows "content_UnmarshalJSON (content_MarshalJSON mc) = Some (content_normal mc)"
  by (simp add: content_UnmarshalJSON_value content_MarshalJSON_def parse_print [OF content_json_wf [OF assms]]
      content_value_json)

definition demo_content :: MessageContent where
  "demo_content = \<lparr>mc_Text = [], mc_Parts =
     [\<lparr>cp_Type = ''text'', cp_Text = ''describe'', cp_ImageURL = None\<rparr>,
      \<lparr>cp_Type = ''image_url'', cp_Text = [], cp_ImageURL = Some \<lparr>iu_URL = ''data:image/png;base64,iVBOR==''\<rparr>\<rparr>]\<rparr>"

theorem content_roundtrip_witness:
  "content_wf demo_content \<and> content_UnmarshalJSON (content_MarshalJSON demo_content) = Some demo_content"
proof -
  have wf: "content_wf demo_content" by code_simp
  have n: "content_normal demo_content = demo_content" by (simp add: content_normal_def demo_content_def)
  show ?thesis using content_roundtrip [OF wf] wf by (simp add: n)
qed

text \<open>
  An empty array of parts is read as a content without text and written as an empty string;
  a content that has parts is written without its text.
\<close>

lemma empty_parts_become_text:
  "map_option content_MarshalJSON (content_UnmarshalJSON ''[]'') = Some [quote_char, quote_char]"
  by code_simp

end
