(* ===== verification/Provider_Adapters.thy ===== *)
theory Provider_Adapters
  imports Provider
begin

text \<open>
  The adapters of model services, second part: \<^verbatim>\<open>src/provider/openai.go\<close>, \<^verbatim>\<open>ollama.go\<close> and
  \<^verbatim>\<open>anthropic.go\<close>, each with the body it sends, the reply it decodes and the answer it returns.
  The three are interpretations of the interface of \<^verbatim>\<open>Provider\<close>.

  Decoding follows \<^verbatim>\<open>encoding/json\<close> on repeated members too: a struct is decoded into its
  current value, a slice into its backing array. The decoder of a reply reads one value
  and ignores what follows it.
\<close>

section \<open>OpenAI (openai.go)\<close>

definition defaultOpenAIBaseURL :: string where
  "defaultOpenAIBaseURL = ''https://api.openai.com''"

record OpenAIProvider =
  oa_apiKey :: string
  oa_baseURL :: string

definition WithOpenAIBaseURL :: "string \<Rightarrow> OpenAIProvider \<Rightarrow> OpenAIProvider" where
  "WithOpenAIBaseURL url p = p\<lparr>oa_baseURL := url\<rparr>"

definition NewOpenAIProvider :: "string \<Rightarrow> (OpenAIProvider \<Rightarrow> OpenAIProvider) list \<Rightarrow> OpenAIProvider" where
  "NewOpenAIProvider apiKey opts =
     fold (\<lambda>opt p. opt p) opts \<lparr>oa_apiKey = apiKey, oa_baseURL = defaultOpenAIBaseURL\<rparr>"

definition openai_Name :: string where "openai_Name = ''openai''"
definition openai_SupportsEmbedding :: bool where "openai_SupportsEmbedding \<longleftrightarrow> True"

definition openaiChatRequest :: "('f \<Rightarrow> string + string) \<Rightarrow> 'f ChatRequest \<Rightarrow> string + json" where
  "openaiChatRequest fl req =
     (case temperature_members fl (cr_Temperature req) of
        Inl e \<Rightarrow> Inl e
      | Inr temp \<Rightarrow> Inr (JObj
          ([(''model'', JStr (cr_Model req)), (''messages'', slice_json message_json (cr_Messages req))]
           @ temp
           @ (case cr_MaxTokens req of None \<Rightarrow> [] | Some n \<Rightarrow> [(''max_tokens'', JNum (Itoa (sint n)))])
           @ (case cr_ResponseFormat req of None \<Rightarrow> []
              | Some rf \<Rightarrow> [(''response_format'', JObj [(''type'', JStr (rf_Type rf))])]))))"

record openaiMessage =
  om_Role :: string
  om_Content :: string

record openaiChoice =
  oc_Message :: openaiMessage
  oc_FinishReason :: string

record openaiChatResponse =
  or_ID :: string
  or_Model :: string
  or_Choices :: "openaiChoice slice"
  or_Usage :: TokenUsage

definition dec_openai_message :: "openaiMessage \<Rightarrow> (string \<times> json) list \<Rightarrow> openaiMessage option" where
  "dec_openai_message m ms =
     do {
       r \<leftarrow> set_string (om_Role m) (field_values message_fields ''role'' ms);
       c \<leftarrow> set_string (om_Content m) (field_values message_fields ''content'' ms);
       Some \<lparr>om_Role = r, om_Content = c\<rparr>
     }"

definition choice_fields :: "string list" where
  "choice_fields = [''message'', ''finish_reason'']"

definition dec_openai_choice :: "openaiChoice \<Rightarrow> (string \<times> json) list \<Rightarrow> openaiChoice option" where
  "dec_openai_choice c ms =
     do {
       m \<leftarrow> set_struct dec_openai_message (oc_Message c) (field_values choice_fields ''message'' ms);
       f \<leftarrow> set_string (oc_FinishReason c) (field_values choice_fields ''finish_reason'' ms);
       Some \<lparr>oc_Message = m, oc_FinishReason = f\<rparr>
     }"

definition usage_fields :: "string list" where
  "usage_fields = [''prompt_tokens'', ''completion_tokens'', ''total_tokens'']"

definition dec_openai_usage :: "TokenUsage \<Rightarrow> (string \<times> json) list \<Rightarrow> TokenUsage option" where
  "dec_openai_usage u ms =
     do {
       p \<leftarrow> set_int64 (us_PromptTokens u) (field_values usage_fields ''prompt_tokens'' ms);
       c \<leftarrow> set_int64 (us_CompletionTokens u) (field_values usage_fields ''completion_tokens'' ms);
       t \<leftarrow> set_int64 (us_TotalTokens u) (field_values usage_fields ''total_tokens'' ms);
       Some \<lparr>us_PromptTokens = p, us_CompletionTokens = c, us_TotalTokens = t\<rparr>
     }"

definition openai_fields :: "string list" where
  "openai_fields = [''id'', ''model'', ''choices'', ''usage'']"

definition zero_choice :: openaiChoice where
  "zero_choice = \<lparr>oc_Message = \<lparr>om_Role = [], om_Content = []\<rparr>, oc_FinishReason = []\<rparr>"

definition zero_usage :: TokenUsage where
  "zero_usage = \<lparr>us_PromptTokens = 0, us_CompletionTokens = 0, us_TotalTokens = 0\<rparr>"

definition dec_openai_chat :: "openaiChatResponse \<Rightarrow> (string \<times> json) list \<Rightarrow> openaiChatResponse option" where
  "dec_openai_chat r ms =
     do {
       i \<leftarrow> set_string (or_ID r) (field_values openai_fields ''id'' ms);
       m \<leftarrow> set_string (or_Model r) (field_values openai_fields ''model'' ms);
       c \<leftarrow> set_slice (\<lambda>cur e. set_struct dec_openai_choice cur [e]) zero_choice (or_Choices r)
              (field_values openai_fields ''choices'' ms);
       u \<leftarrow> set_struct dec_openai_usage (or_Usage r) (field_values openai_fields ''usage'' ms);
       Some \<lparr>or_ID = i, or_Model = m, or_Choices = c, or_Usage = u\<rparr>
     }"

definition openai_answer :: "openaiChatResponse \<Rightarrow> ChatResponse" where
  "openai_answer r =
     (let choices = slice_list (or_Choices r);
          content = (if length choices > 0 then om_Content (oc_Message (choices ! 0)) else []);
          finishReason = (if length choices > 0 then oc_FinishReason (choices ! 0) else [])
      in \<lparr>rs_Content = content, rs_Model = or_Model r, rs_Usage = or_Usage r, rs_FinishReason = finishReason\<rparr>)"

definition openai_headers :: "OpenAIProvider \<Rightarrow> (string \<times> string) list" where
  "openai_headers p = [(''Content-Type'', ''application/json''), (''Authorization'', ''Bearer '' @ oa_apiKey p)]"

definition openai_ChatCompletion ::
  "('f, 'g) wire \<Rightarrow> OpenAIProvider \<Rightarrow> ctx \<Rightarrow> 'f ChatRequest \<Rightarrow> string + ChatResponse" where
  "openai_ChatCompletion wr p cx req =
     map_sum id openai_answer
       (post_call wr cx ''openai'' [] (oa_baseURL p @ ''/v1/chat/completions'') (openai_headers p)
         (openaiChatRequest (wr_float wr) req)
         (decode_first dec_openai_chat \<lparr>or_ID = [], or_Model = [], or_Choices = ([], 0), or_Usage = zero_usage\<rparr>))"

definition embed_request_json :: "EmbedRequest \<Rightarrow> json" where
  "embed_request_json req = JObj [(''model'', JStr (er_Model req)), (''input'', slice_json JStr (er_Input req))]"

text \<open>A float32 element: null keeps what is there.\<close>

fun dec_float :: "(string \<Rightarrow> 'g option) \<Rightarrow> 'g \<Rightarrow> json \<Rightarrow> 'g option" where
  "dec_float pf cur JNull = Some cur"
| "dec_float pf cur (JNum l) = pf l"
| "dec_float pf cur _ = None"

record 'g openaiEmbedData =
  ed_Embedding :: "'g slice"
  ed_Index :: int64

record 'g openaiEmbedResponse =
  eo_Model :: string
  eo_Data :: "'g openaiEmbedData slice"
  eo_Usage :: "int64 \<times> int64"

definition embed_data_fields :: "string list" where
  "embed_data_fields = [''embedding'', ''index'']"

definition dec_embed_data ::
  "('f, 'g) wire \<Rightarrow> 'g openaiEmbedData \<Rightarrow> (string \<times> json) list \<Rightarrow> 'g openaiEmbedData option" where
  "dec_embed_data wr d ms =
     do {
       e \<leftarrow> set_slice (dec_float (wr_parse32 wr)) (wr_zero wr) (ed_Embedding d)
              (field_values embed_data_fields ''embedding'' ms);
       i \<leftarrow> set_int64 (ed_Index d) (field_values embed_data_fields ''index'' ms);
       Some \<lparr>ed_Embedding = e, ed_Index = i\<rparr>
     }"

definition embed_usage_fields :: "string list" where
  "embed_usage_fields = [''prompt_tokens'', ''total_tokens'']"

definition dec_embed_usage :: "int64 \<times> int64 \<Rightarrow> (string \<times> json) list \<Rightarrow> (int64 \<times> int64) option" where
  "dec_embed_usage u ms =
     do {
       p \<leftarrow> set_int64 (fst u) (field_values embed_usage_fields ''prompt_tokens'' ms);
       t \<leftarrow> set_int64 (snd u) (field_values embed_usage_fields ''total_tokens'' ms);
       Some (p, t)
     }"

definition embed_fields :: "string list" where
  "embed_fields = [''model'', ''data'', ''usage'']"

definition dec_openai_embed ::
  "('f, 'g) wire \<Rightarrow> 'g openaiEmbedResponse \<Rightarrow> (string \<times> json) list \<Rightarrow> 'g openaiEmbedResponse option" where
  "dec_openai_embed wr r ms =
     do {
       m \<leftarrow> set_string (eo_Model r) (field_values embed_fields ''model'' ms);
       d \<leftarrow> set_slice (\<lambda>cur e. set_struct (dec_embed_data wr) cur [e]) \<lparr>ed_Embedding = ([], 0), ed_Index = 0\<rparr>
              (eo_Data r) (field_values embed_fields ''data'' ms);
       u \<leftarrow> set_struct dec_embed_usage (eo_Usage r) (field_values embed_fields ''usage'' ms);
       Some \<lparr>eo_Model = m, eo_Data = d, eo_Usage = u\<rparr>
     }"

definition openai_embeddings :: "'g openaiEmbedResponse \<Rightarrow> 'g EmbedResponse" where
  "openai_embeddings r =
     \<lparr>es_Embeddings = map (\<lambda>d. slice_list (ed_Embedding d)) (slice_list (eo_Data r)),
      es_Model = eo_Model r,
      es_Usage = \<lparr>us_PromptTokens = fst (eo_Usage r), us_CompletionTokens = 0, us_TotalTokens = snd (eo_Usage r)\<rparr>\<rparr>"

definition openai_Embedding ::
  "('f, 'g) wire \<Rightarrow> OpenAIProvider \<Rightarrow> ctx \<Rightarrow> EmbedRequest \<Rightarrow> string + 'g EmbedResponse" where
  "openai_Embedding wr p cx req =
     map_sum id openai_embeddings
       (post_call wr cx ''openai'' ''embed '' (oa_baseURL p @ ''/v1/embeddings'') (openai_headers p)
         (Inr (embed_request_json req))
         (decode_first (dec_openai_embed wr) \<lparr>eo_Model = [], eo_Data = ([], 0), eo_Usage = (0, 0)\<rparr>))"

section \<open>Ollama (ollama.go)\<close>

record OllamaProvider =
  ol_baseURL :: string

definition NewOllamaProvider :: "string \<Rightarrow> OllamaProvider" where
  "NewOllamaProvider baseURL = \<lparr>ol_baseURL = baseURL\<rparr>"

definition ollama_Name :: string where "ollama_Name = ''ollama''"
definition ollama_SupportsEmbedding :: bool where "ollama_SupportsEmbedding \<longleftrightarrow> True"

record ollamaMessage =
  lm_Role :: string
  lm_Content :: string
  lm_Images :: "string list"

text \<open>One part in the loop of \<^verbatim>\<open>toOllamaMessages\<close>: the text built so far and the images.\<close>

definition strip_data_uri :: "string \<Rightarrow> string" where
  "strip_data_uri url =
     (case Index url '';base64,'' of None \<Rightarrow> url | Some idx \<Rightarrow> drop (idx + length '';base64,'') url)"

definition ollama_part :: "ContentPart \<Rightarrow> string \<times> string list \<Rightarrow> string \<times> string list" where
  "ollama_part part st =
     (case st of (tb, images) \<Rightarrow>
        if cp_Type part = ''text'' then
          ((if length tb > 0 then tb @ [CHR 0x0A] else tb) @ cp_Text part, images)
        else if cp_Type part = ''image_url'' then
          (case cp_ImageURL part of
             None \<Rightarrow> (tb, images)
           | Some u \<Rightarrow> (tb, images @ [strip_data_uri (iu_URL u)]))
        else (tb, images))"

fun toOllamaMessages :: "ChatMessage list \<Rightarrow> ollamaMessage list" where
  "toOllamaMessages [] = []"
| "toOllamaMessages (m # msgs) =
     (if \<not> IsMultimodal (msg_Content m)
      then \<lparr>lm_Role = msg_Role m, lm_Content = mc_Text (msg_Content m), lm_Images = []\<rparr>
      else (case fold ollama_part (mc_Parts (msg_Content m)) ([], []) of
              (tb, images) \<Rightarrow> \<lparr>lm_Role = msg_Role m, lm_Content = tb, lm_Images = images\<rparr>))
     # toOllamaMessages msgs"

definition ollama_message_json :: "ollamaMessage \<Rightarrow> json" where
  "ollama_message_json m =
     JObj ([(''role'', JStr (lm_Role m)), (''content'', JStr (lm_Content m))]
       @ (if lm_Images m = [] then [] else [(''images'', JArr (map JStr (lm_Images m)))]))"

text \<open>The messages are a new slice, never nil; the options are a map with at most one entry.\<close>

definition ollamaChatRequest :: "('f \<Rightarrow> string + string) \<Rightarrow> 'f ChatRequest \<Rightarrow> string + json" where
  "ollamaChatRequest fl req =
     (case temperature_members fl (cr_Temperature req) of
        Inl e \<Rightarrow> Inl e
      | Inr temp \<Rightarrow> Inr (JObj
          ([(''model'', JStr (cr_Model req)),
            (''messages'', JArr (map ollama_message_json
               (toOllamaMessages (case cr_Messages req of None \<Rightarrow> [] | Some ms \<Rightarrow> ms)))),
            (''stream'', JBool False)]
           @ (if temp = [] then [] else [(''options'', JObj temp)]))))"

record ollamaChatResponse =
  lr_Model :: string
  lr_Message :: ChatMessage
  lr_DoneReason :: string
  lr_EvalCount :: int64
  lr_PromptEvalCount :: int64

definition ollama_fields :: "string list" where
  "ollama_fields = [''model'', ''message'', ''done_reason'', ''eval_count'', ''prompt_eval_count'']"

definition dec_ollama_chat :: "ollamaChatResponse \<Rightarrow> (string \<times> json) list \<Rightarrow> ollamaChatResponse option" where
  "dec_ollama_chat r ms =
     do {
       m \<leftarrow> set_string (lr_Model r) (field_values ollama_fields ''model'' ms);
       g \<leftarrow> set_struct dec_message (lr_Message r) (field_values ollama_fields ''message'' ms);
       d \<leftarrow> set_string (lr_DoneReason r) (field_values ollama_fields ''done_reason'' ms);
       e \<leftarrow> set_int64 (lr_EvalCount r) (field_values ollama_fields ''eval_count'' ms);
       p \<leftarrow> set_int64 (lr_PromptEvalCount r) (field_values ollama_fields ''prompt_eval_count'' ms);
       Some \<lparr>lr_Model = m, lr_Message = g, lr_DoneReason = d, lr_EvalCount = e, lr_PromptEvalCount = p\<rparr>
     }"

definition zero_ollama :: ollamaChatResponse where
  "zero_ollama = \<lparr>lr_Model = [], lr_Message = zero_message, lr_DoneReason = [],
     lr_EvalCount = 0, lr_PromptEvalCount = 0\<rparr>"

definition ollama_answer :: "ollamaChatResponse \<Rightarrow> ChatResponse" where
  "ollama_answer r =
     \<lparr>rs_Content = content_String (msg_Content (lr_Message r)), rs_Model = lr_Model r,
      rs_Usage = \<lparr>us_PromptTokens = lr_PromptEvalCount r, us_CompletionTokens = lr_EvalCount r,
                  us_TotalTokens = lr_PromptEvalCount r + lr_EvalCount r\<rparr>,
      rs_FinishReason = lr_DoneReason r\<rparr>"

definition ollama_ChatCompletion ::
  "('f, 'g) wire \<Rightarrow> OllamaProvider \<Rightarrow> ctx \<Rightarrow> 'f ChatRequest \<Rightarrow> string + ChatResponse" where
  "ollama_ChatCompletion wr p cx req =
     map_sum id ollama_answer
       (post_call wr cx ''ollama'' [] (ol_baseURL p @ ''/api/chat'') [(''Content-Type'', ''application/json'')]
         (ollamaChatRequest (wr_float wr) req) (decode_first dec_ollama_chat zero_ollama))"

record 'g ollamaEmbedResponse =
  le_Model :: string
  le_Embeddings :: "'g slice slice"

definition ollama_embed_fields :: "string list" where
  "ollama_embed_fields = [''model'', ''embeddings'']"

definition dec_ollama_embed ::
  "('f, 'g) wire \<Rightarrow> 'g ollamaEmbedResponse \<Rightarrow> (string \<times> json) list \<Rightarrow> 'g ollamaEmbedResponse option" where
  "dec_ollama_embed wr r ms =
     do {
       m \<leftarrow> set_string (le_Model r) (field_values ollama_embed_fields ''model'' ms);
       e \<leftarrow> set_slice (\<lambda>cur v. set_slice (dec_float (wr_parse32 wr)) (wr_zero wr) cur [v]) ([], 0)
              (le_Embeddings r) (field_values ollama_embed_fields ''embeddings'' ms);
       Some \<lparr>le_Model = m, le_Embeddings = e\<rparr>
     }"

definition ollama_embeddings :: "'g ollamaEmbedResponse \<Rightarrow> 'g EmbedResponse" where
  "ollama_embeddings r =
     \<lparr>es_Embeddings = map slice_list (slice_list (le_Embeddings r)), es_Model = le_Model r, es_Usage = zero_usage\<rparr>"

definition ollama_Embedding ::
  "('f, 'g) wire \<Rightarrow> OllamaProvider \<Rightarrow> ctx \<Rightarrow> EmbedRequest \<Rightarrow> string + 'g EmbedResponse" where
  "ollama_Embedding wr p cx req =
     map_sum id ollama_embeddings
       (post_call wr cx ''ollama'' ''embed '' (ol_baseURL p @ ''/api/embed'') [(''Content-Type'', ''application/json'')]
         (Inr (embed_request_json req))
         (decode_first (dec_ollama_embed wr) \<lparr>le_Model = [], le_Embeddings = ([], 0)\<rparr>))"

section \<open>Anthropic (anthropic.go)\<close>

definition defaultAnthropicBaseURL :: string where
  "defaultAnthropicBaseURL = ''https://api.anthropic.com''"

definition defaultAnthropicVersion :: string where
  "defaultAnthropicVersion = ''2023-06-01''"

definition defaultMaxTokens :: int64 where
  "defaultMaxTokens = 4096"

record AnthropicProvider =
  an_apiKey :: string
  an_baseURL :: string

definition WithAnthropicBaseURL :: "string \<Rightarrow> AnthropicProvider \<Rightarrow> AnthropicProvider" where
  "WithAnthropicBaseURL url p = p\<lparr>an_baseURL := url\<rparr>"

definition NewAnthropicProvider :: "string \<Rightarrow> (AnthropicProvider \<Rightarrow> AnthropicProvider) list \<Rightarrow> AnthropicProvider" where
  "NewAnthropicProvider apiKey opts =
     fold (\<lambda>opt p. opt p) opts \<lparr>an_apiKey = apiKey, an_baseURL = defaultAnthropicBaseURL\<rparr>"

definition anthropic_Name :: string where "anthropic_Name = ''anthropic''"
definition anthropic_SupportsEmbedding :: bool where "anthropic_SupportsEmbedding \<longleftrightarrow> False"

definition anthropic_Embedding ::
  "('f, 'g) wire \<Rightarrow> AnthropicProvider \<Rightarrow> ctx \<Rightarrow> EmbedRequest \<Rightarrow> string + 'g EmbedResponse" where
  "anthropic_Embedding wr p cx req = Inl ''anthropic does not support embeddings''"

definition anthropicChatRequest :: "('f \<Rightarrow> string + string) \<Rightarrow> 'f ChatRequest \<Rightarrow> string + json" where
  "anthropicChatRequest fl req =
     (let maxTokens = (case cr_MaxTokens req of None \<Rightarrow> defaultMaxTokens | Some n \<Rightarrow> n) in
      case temperature_members fl (cr_Temperature req) of
        Inl e \<Rightarrow> Inl e
      | Inr temp \<Rightarrow> Inr (JObj
          ([(''model'', JStr (cr_Model req)), (''messages'', slice_json message_json (cr_Messages req)),
            (''max_tokens'', JNum (Itoa (sint maxTokens)))] @ temp)))"

record anthropicContent =
  ac_Type :: string
  ac_Text :: string

record anthropicUsage =
  au_InputTokens :: int64
  au_OutputTokens :: int64

record anthropicChatResponse =
  ar_ID :: string
  ar_Model :: string
  ar_Content :: "anthropicContent slice"
  ar_Usage :: anthropicUsage

definition anthropic_content_fields :: "string list" where
  "anthropic_content_fields = [''type'', ''text'']"

definition dec_anthropic_content :: "anthropicContent \<Rightarrow> (string \<times> json) list \<Rightarrow> anthropicContent option" where
  "dec_anthropic_content c ms =
     do {
       ty \<leftarrow> set_string (ac_Type c) (field_values anthropic_content_fields ''type'' ms);
       tx \<leftarrow> set_string (ac_Text c) (field_values anthropic_content_fields ''text'' ms);
       Some \<lparr>ac_Type = ty, ac_Text = tx\<rparr>
     }"

definition anthropic_usage_fields :: "string list" where
  "anthropic_usage_fields = [''input_tokens'', ''output_tokens'']"

definition dec_anthropic_usage :: "anthropicUsage \<Rightarrow> (string \<times> json) list \<Rightarrow> anthropicUsage option" where
  "dec_anthropic_usage u ms =
     do {
       i \<leftarrow> set_int64 (au_InputTokens u) (field_values anthropic_usage_fields ''input_tokens'' ms);
       out \<leftarrow> set_int64 (au_OutputTokens u) (field_values anthropic_usage_fields ''output_tokens'' ms);
       Some \<lparr>au_InputTokens = i, au_OutputTokens = out\<rparr>
     }"

definition anthropic_fields :: "string list" where
  "anthropic_fields = [''id'', ''model'', ''content'', ''usage'']"

definition dec_anthropic_chat ::
  "anthropicChatResponse \<Rightarrow> (string \<times> json) list \<Rightarrow> anthropicChatResponse option" where
  "dec_anthropic_chat r ms =
     do {
       i \<leftarrow> set_string (ar_ID r) (field_values anthropic_fields ''id'' ms);
       m \<leftarrow> set_string (ar_Model r) (field_values anthropic_fields ''model'' ms);
       c \<leftarrow> set_slice (\<lambda>cur e. set_struct dec_anthropic_content cur [e]) \<lparr>ac_Type = [], ac_Text = []\<rparr>
              (ar_Content r) (field_values anthropic_fields ''content'' ms);
       u \<leftarrow> set_struct dec_anthropic_usage (ar_Usage r) (field_values anthropic_fields ''usage'' ms);
       Some \<lparr>ar_ID = i, ar_Model = m, ar_Content = c, ar_Usage = u\<rparr>
     }"

definition zero_anthropic :: anthropicChatResponse where
  "zero_anthropic = \<lparr>ar_ID = [], ar_Model = [], ar_Content = ([], 0),
     ar_Usage = \<lparr>au_InputTokens = 0, au_OutputTokens = 0\<rparr>\<rparr>"

definition anthropic_answer :: "anthropicChatResponse \<Rightarrow> ChatResponse" where
  "anthropic_answer r =
     (let blocks = slice_list (ar_Content r);
          content = (if length blocks > 0 then ac_Text (blocks ! 0) else []);
          u = ar_Usage r
      in \<lparr>rs_Content = content, rs_Model = ar_Model r,
          rs_Usage = \<lparr>us_PromptTokens = au_InputTokens u, us_CompletionTokens = au_OutputTokens u,
                      us_TotalTokens = au_InputTokens u + au_OutputTokens u\<rparr>,
          rs_FinishReason = []\<rparr>)"

definition anthropic_headers :: "AnthropicProvider \<Rightarrow> (string \<times> string) list" where
  "anthropic_headers p =
     [(''Content-Type'', ''application/json''), (''x-api-key'', an_apiKey p),
      (''anthropic-version'', defaultAnthropicVersion)]"

definition anthropic_ChatCompletion ::
  "('f, 'g) wire \<Rightarrow> AnthropicProvider \<Rightarrow> ctx \<Rightarrow> 'f ChatRequest \<Rightarrow> string + ChatResponse" where
  "anthropic_ChatCompletion wr p cx req =
     map_sum id anthropic_answer
       (post_call wr cx ''anthropic'' [] (an_baseURL p @ ''/v1/messages'') (anthropic_headers p)
         (anthropicChatRequest (wr_float wr) req) (decode_first dec_anthropic_chat zero_anthropic))"

section \<open>Lemmas: the messages of Ollama\<close>

definition part_images :: "ContentPart list \<Rightarrow> string list" where
  "part_images ps =
     concat (map (\<lambda>p. if cp_Type p = ''image_url''
                     then (case cp_ImageURL p of None \<Rightarrow> [] | Some u \<Rightarrow> [strip_data_uri (iu_URL u)])
                     else []) ps)"






lemma Index_Contains: "Index s sub = None \<longleftrightarrow> \<not> Contains s sub"
  by (induction s) auto

lemma strip_data_uri_payload:
  assumes "CHR '';'' \<notin> set pre"
  shows "strip_data_uri (pre @ '';base64,'' @ payload) = payload"
proof -
  have "Index (pre @ '';base64,'' @ payload) '';base64,'' = Some (length pre)"
    using assms by (induction pre) (auto simp: HasPrefix_def)
  then show ?thesis by (simp add: strip_data_uri_def)
qed

lemma strip_data_uri_other: "\<not> Contains url '';base64,'' \<Longrightarrow> strip_data_uri url = url"
  using Index_Contains [of url "'';base64,''"] by (simp add: strip_data_uri_def)

section \<open>The three adapters implement the interface\<close>

lemma post_call_served: "post_call wr cx name what url hs body dec = Inr x \<Longrightarrow> served wr cx"
  by (erule post_call_answered) (force simp: served_def adapter_request_def)

lemma map_sum_id_Inl: "map_sum id f s = Inl e \<longleftrightarrow> s = Inl e"
  by (cases s) simp_all

lemma map_sum_id_Inr: "map_sum id f s = Inr y \<longleftrightarrow> (\<exists>x. s = Inr x \<and> y = f x)"
  by (cases s) auto

lemmas adapter_calls = map_sum_id_Inl map_sum_id_Inr

interpretation openai: model_adapter openai_Name openai_SupportsEmbedding openai_ChatCompletion openai_Embedding
  by unfold_locales
    (auto simp: openai_ChatCompletion_def openai_Embedding_def openai_Name_def openai_SupportsEmbedding_def adapter_calls
      intro: post_call_served post_call_error)

interpretation ollama: model_adapter ollama_Name ollama_SupportsEmbedding ollama_ChatCompletion ollama_Embedding
  by unfold_locales
    (auto simp: ollama_ChatCompletion_def ollama_Embedding_def ollama_Name_def ollama_SupportsEmbedding_def adapter_calls
      intro: post_call_served post_call_error)

lemma anthropic_refusal_named: "HasPrefix ''anthropic does not support embeddings'' ''anthropic''"
  by code_simp

interpretation anthropic: model_adapter anthropic_Name anthropic_SupportsEmbedding
    anthropic_ChatCompletion anthropic_Embedding
  by unfold_locales
    (auto simp: anthropic_ChatCompletion_def anthropic_Embedding_def anthropic_Name_def anthropic_SupportsEmbedding_def
      adapter_calls anthropic_refusal_named intro: post_call_served post_call_error)

section \<open>Properties\<close>


text \<open>
  C25. Without a reply of status 200 every adapter returns an error that starts with its
  name, for chats and for embeddings, whatever the request.
\<close>

theorem adapters_need_service:
  assumes "\<not> served wr cx"
  shows "(\<exists>e. openai_ChatCompletion wr pa cx req = Inl (''openai'' @ e))
    \<and> (\<exists>e. ollama_ChatCompletion wr po cx req = Inl (''ollama'' @ e))
    \<and> (\<exists>e. anthropic_ChatCompletion wr pn cx req = Inl (''anthropic'' @ e))
    \<and> (\<exists>e. openai_Embedding wr pa cx ereq = Inl (''openai'' @ e))
    \<and> (\<exists>e. ollama_Embedding wr po cx ereq = Inl (''ollama'' @ e))"
  using openai.chat_refused [OF assms] ollama.chat_refused [OF assms] anthropic.chat_refused [OF assms]
    openai.embed_refused [OF disjI2, OF assms] ollama.embed_refused [OF disjI2, OF assms]
  by (simp add: openai_Name_def ollama_Name_def anthropic_Name_def)

definition down_wire :: "(nat, nat) wire" where
  "down_wire = \<lparr>wr_float = (\<lambda>n. Inr (Itoa (int n))), wr_parse32 = parse_nat, wr_zero = 0,
     wr_build = (\<lambda>_. None), wr_send = (\<lambda>_. Inr \<lparr>hr_status = 503, hr_body = []\<rparr>),
     wr_decode_error = (\<lambda>_. ''EOF'')\<rparr>"

definition demo_chat :: "nat ChatRequest" where
  "demo_chat = \<lparr>cr_Model = ''m'', cr_Messages = Some [\<lparr>msg_Role = ''user'', msg_Content = demo_content\<rparr>],
     cr_Temperature = Some 1, cr_MaxTokens = Some 256, cr_ResponseFormat = None\<rparr>"

theorem adapters_need_service_witness:
  "\<not> served down_wire []
    \<and> (\<exists>e. openai_ChatCompletion down_wire (NewOpenAIProvider ''k'' []) [] demo_chat = Inl (''openai'' @ e))
    \<and> (\<exists>e. ollama_ChatCompletion down_wire (NewOllamaProvider ''http://o'') [] demo_chat = Inl (''ollama'' @ e))"
proof -
  have "\<not> served down_wire []" by (auto simp: served_def down_wire_def)
  then show ?thesis
    using adapters_need_service [of down_wire "[]" "NewOpenAIProvider ''k'' []" demo_chat
        "NewOllamaProvider ''http://o''" "NewAnthropicProvider ''k'' []" "\<lparr>er_Model = [], er_Input = None\<rparr>"] by blast
qed

definition ollama_reply :: "string \<Rightarrow> ChatMessage \<Rightarrow> string \<Rightarrow> int64 \<Rightarrow> int64 \<Rightarrow> json" where
  "ollama_reply mdl m reason e p =
     JObj [(''model'', JStr mdl), (''message'', message_json m), (''done_reason'', JStr reason),
       (''eval_count'', JNum (Itoa (sint e))), (''prompt_eval_count'', JNum (Itoa (sint p)))]"

lemma reply_names [simp]:
  "valid_utf8 ''done_reason''" "valid_utf8 ''eval_count''" "valid_utf8 ''prompt_eval_count''"
  "valid_utf8 ''id''" "valid_utf8 ''choices''" "valid_utf8 ''usage''" "valid_utf8 ''message''"
  "valid_utf8 ''finish_reason''" "valid_utf8 ''prompt_tokens''" "valid_utf8 ''completion_tokens''"
  "valid_utf8 ''total_tokens''" "valid_utf8 ''input_tokens''" "valid_utf8 ''output_tokens''"
  by (auto intro!: ascii_valid)

text \<open>
  The answer of an Ollama chat is the reply's: its text, model, reason and token counts,
  with the total as their 64-bit sum; text after the reply is ignored.
\<close>

lemma ollama_chat_answer:
  assumes "valid_utf8 mdl" and "valid_utf8 (msg_Role m)" and "content_wf (msg_Content m)" and "valid_utf8 reason"
    and "num_stop junk"
    and "ollamaChatRequest (wr_float wr) req = Inr j" and "wr_build wr (ol_baseURL p @ ''/api/chat'') = None"
    and "wr_send wr (adapter_request cx (ol_baseURL p @ ''/api/chat'') [(''Content-Type'', ''application/json'')], json_print j)
           = Inr \<lparr>hr_status = 200, hr_body = json_print (ollama_reply mdl m reason e n) @ junk\<rparr>"
  shows "ollama_ChatCompletion wr p cx req =
     Inr \<lparr>rs_Content = content_String (msg_Content m), rs_Model = mdl,
          rs_Usage = \<lparr>us_PromptTokens = n, us_CompletionTokens = e, us_TotalTokens = n + e\<rparr>,
          rs_FinishReason = reason\<rparr>"
proof -
  have wf: "json_wf (ollama_reply mdl m reason e n)"
    using assms(1-4) by (simp add: ollama_reply_def message_json_def content_json_wf num_prefix_Itoa)
  have "decode_first dec_ollama_chat zero_ollama (json_print (ollama_reply mdl m reason e n) @ junk)
      = Some \<lparr>lr_Model = mdl, lr_Message = m\<lparr>msg_Content := content_normal (msg_Content m)\<rparr>,
              lr_DoneReason = reason, lr_EvalCount = e, lr_PromptEvalCount = n\<rparr>"
    unfolding decode_first_print [OF wf assms(5)]
    using message_roundtrip [of zero_message m]
    by (simp add: ollama_reply_def dec_ollama_chat_def zero_ollama_def field_values_def match_field_def ollama_fields_def)
  from post_call_reply [where dec = "decode_first dec_ollama_chat zero_ollama", OF assms(6,7,8) this]
  show ?thesis by (simp add: ollama_ChatCompletion_def ollama_answer_def)
qed

definition ollama_wire :: "(nat, nat) wire" where
  "ollama_wire = down_wire\<lparr>wr_send := (\<lambda>_. Inr \<lparr>hr_status = 200, hr_body =
     json_print (ollama_reply ''m'' \<lparr>msg_Role = ''assistant'', msg_Content = demo_content\<rparr> ''stop'' 42 10)\<rparr>)\<rparr>"

lemma ollama_chat_answer_witness:
  "ollama_ChatCompletion ollama_wire (NewOllamaProvider ''http://o'') [] demo_chat =
     Inr \<lparr>rs_Content = ''describe'', rs_Model = ''m'',
          rs_Usage = \<lparr>us_PromptTokens = 10, us_CompletionTokens = 42, us_TotalTokens = 52\<rparr>,
          rs_FinishReason = ''stop''\<rparr>"
proof -
  let ?m = "\<lparr>msg_Role = ''assistant'', msg_Content = demo_content\<rparr>"
  obtain j where j: "ollamaChatRequest (wr_float ollama_wire) demo_chat = Inr j"
    by (simp add: ollamaChatRequest_def temperature_members_def demo_chat_def ollama_wire_def down_wire_def)
  have str: "content_String demo_content = ''describe''" by (simp add: content_String_def demo_content_def IsMultimodal_def)
  have wf: "valid_utf8 ''m''" "valid_utf8 (msg_Role ?m)" "content_wf (msg_Content ?m)" "valid_utf8 ''stop''" "num_stop []"
    by code_simp+
  from ollama_chat_answer [where e = 42 and n = 10 and p = "NewOllamaProvider ''http://o''" and cx = "[]" and junk = "[]",
      OF wf j]
  show ?thesis by (simp add: ollama_wire_def down_wire_def str)
qed

section \<open>Further behaviour of the adapters\<close>

text \<open>The limit on tokens of a request has no effect on an Ollama chat, nor has the response format.\<close>

lemma ollama_ignores_limits:
  "ollama_ChatCompletion wr p cx (req\<lparr>cr_MaxTokens := n, cr_ResponseFormat := rf\<rparr>) = ollama_ChatCompletion wr p cx req"
proof -
  have "ollamaChatRequest fl (req\<lparr>cr_MaxTokens := n, cr_ResponseFormat := rf\<rparr>) = ollamaChatRequest fl req" for fl
    by (simp add: ollamaChatRequest_def split: sum.split)
  then show ?thesis by (simp add: ollama_ChatCompletion_def)
qed

text \<open>The other two adapters send it.\<close>

lemma max_tokens_sent:
  assumes "cr_MaxTokens req = Some n"
  shows "openaiChatRequest fl req = Inr j \<Longrightarrow>
      (\<exists>ms. j = JObj ms \<and> (''max_tokens'', JNum (Itoa (sint n))) \<in> set ms)"
    and "anthropicChatRequest fl req = Inr j \<Longrightarrow>
      (\<exists>ms. j = JObj ms \<and> (''max_tokens'', JNum (Itoa (sint n))) \<in> set ms)"
  using assms by (auto simp: openaiChatRequest_def anthropicChatRequest_def Let_def split: sum.splits)

text \<open>
  The texts of a message are joined by line breaks for Ollama but concatenated by \<^verbatim>\<open>String\<close>: the same
  parts read differently on the two paths.
\<close>

lemma ollama_text_differs:
  "\<exists>m. lm_Content (hd (toOllamaMessages [m])) \<noteq> content_String (msg_Content m)"
proof -
  let ?t = "\<lambda>s. \<lparr>cp_Type = ''text'', cp_Text = s, cp_ImageURL = None\<rparr>"
  let ?m = "\<lparr>msg_Role = ''user'', msg_Content = \<lparr>mc_Text = [], mc_Parts = [?t ''a'', ?t ''b'']\<rparr>\<rparr>"
  have "lm_Content (hd (toOllamaMessages [?m])) \<noteq> content_String (msg_Content ?m)" by code_simp
  then show ?thesis by blast
qed

text \<open>An image that is not a data URI is handed on as it is.\<close>

lemma ollama_image_urls_kept:
  assumes "\<not> Contains url '';base64,''"
  shows "part_images [\<lparr>cp_Type = ''image_url'', cp_Text = t, cp_ImageURL = Some \<lparr>iu_URL = url\<rparr>\<rparr>] = [url]"
  by (simp add: part_images_def strip_data_uri_other [OF assms])

text \<open>The answer of an OpenAI chat is the first choice; without choices it is empty.\<close>

definition choice_json :: "openaiChoice \<Rightarrow> json" where
  "choice_json c =
     JObj [(''message'', JObj [(''role'', JStr (om_Role (oc_Message c))), (''content'', JStr (om_Content (oc_Message c)))]),
           (''finish_reason'', JStr (oc_FinishReason c))]"

definition openai_reply :: "string \<Rightarrow> string \<Rightarrow> openaiChoice list \<Rightarrow> TokenUsage \<Rightarrow> json" where
  "openai_reply i mdl cs u =
     JObj [(''id'', JStr i), (''model'', JStr mdl), (''choices'', JArr (map choice_json cs)),
       (''usage'', JObj [(''prompt_tokens'', JNum (Itoa (sint (us_PromptTokens u)))),
          (''completion_tokens'', JNum (Itoa (sint (us_CompletionTokens u)))),
          (''total_tokens'', JNum (Itoa (sint (us_TotalTokens u))))])]"

definition choice_wf :: "openaiChoice \<Rightarrow> bool" where
  "choice_wf c \<longleftrightarrow> valid_utf8 (om_Role (oc_Message c)) \<and> valid_utf8 (om_Content (oc_Message c))
     \<and> valid_utf8 (oc_FinishReason c)"

lemma choices_roundtrip:
  "dec_elems (\<lambda>cur e. set_struct dec_openai_choice cur [e]) zero_choice [] (map choice_json cs) = Some cs"
  by (rule dec_elems_map)
    (simp add: choice_json_def dec_openai_choice_def dec_openai_message_def zero_choice_def field_values_def
      match_field_def choice_fields_def message_fields_def)

lemma openai_reply_decoded:
  assumes "valid_utf8 i" and "valid_utf8 mdl" and "list_all choice_wf cs" and "num_stop junk"
  shows "map_option openai_answer
     (decode_first dec_openai_chat \<lparr>or_ID = [], or_Model = [], or_Choices = ([], 0), or_Usage = zero_usage\<rparr>
       (json_print (openai_reply i mdl cs u) @ junk)) =
     Some \<lparr>rs_Content = (case cs of [] \<Rightarrow> [] | c # _ \<Rightarrow> om_Content (oc_Message c)), rs_Model = mdl, rs_Usage = u,
           rs_FinishReason = (case cs of [] \<Rightarrow> [] | c # _ \<Rightarrow> oc_FinishReason c)\<rparr>"
proof -
  have wf: "json_wf (openai_reply i mdl cs u)"
    using assms(1-3)
    by (auto simp: openai_reply_def choice_json_def choice_wf_def list_all_iff num_prefix_Itoa)
  show ?thesis
    unfolding decode_first_print [OF wf assms(4)]
    by (cases cs)
      (simp_all add: openai_reply_def dec_openai_chat_def dec_openai_usage_def field_values_def match_field_def
        openai_fields_def usage_fields_def openai_answer_def slice_list_def Let_def
        choices_roundtrip [of "_ # _", simplified])
qed

text \<open>The answer of an Anthropic chat is the text of the first block, with the sum of the counts.\<close>

definition block_json :: "anthropicContent \<Rightarrow> json" where
  "block_json c = JObj [(''type'', JStr (ac_Type c)), (''text'', JStr (ac_Text c))]"

definition anthropic_reply :: "string \<Rightarrow> string \<Rightarrow> anthropicContent list \<Rightarrow> int64 \<Rightarrow> int64 \<Rightarrow> json" where
  "anthropic_reply i mdl bs input output =
     JObj [(''id'', JStr i), (''model'', JStr mdl), (''content'', JArr (map block_json bs)),
       (''usage'', JObj [(''input_tokens'', JNum (Itoa (sint input))), (''output_tokens'', JNum (Itoa (sint output)))])]"

lemma blocks_roundtrip:
  "dec_elems (\<lambda>cur e. set_struct dec_anthropic_content cur [e]) z [] (map block_json bs) = Some bs"
  by (rule dec_elems_map)
    (simp add: block_json_def dec_anthropic_content_def field_values_def match_field_def anthropic_content_fields_def)

lemma anthropic_reply_decoded:
  assumes "valid_utf8 i" and "valid_utf8 mdl"
    and "list_all (\<lambda>b. valid_utf8 (ac_Type b) \<and> valid_utf8 (ac_Text b)) bs" and "num_stop junk"
  shows "map_option anthropic_answer
     (decode_first dec_anthropic_chat zero_anthropic (json_print (anthropic_reply i mdl bs input output) @ junk)) =
     Some \<lparr>rs_Content = (case bs of [] \<Rightarrow> [] | b # _ \<Rightarrow> ac_Text b), rs_Model = mdl,
           rs_Usage = \<lparr>us_PromptTokens = input, us_CompletionTokens = output, us_TotalTokens = input + output\<rparr>,
           rs_FinishReason = []\<rparr>"
proof -
  have wf: "json_wf (anthropic_reply i mdl bs input output)"
    using assms(1-3) by (auto simp: anthropic_reply_def block_json_def list_all_iff num_prefix_Itoa)
  show ?thesis
    unfolding decode_first_print [OF wf assms(4)]
    by (cases bs)
      (simp_all add: anthropic_reply_def dec_anthropic_chat_def dec_anthropic_usage_def field_values_def match_field_def
        anthropic_fields_def anthropic_usage_fields_def anthropic_answer_def zero_anthropic_def slice_list_def Let_def
        blocks_roundtrip [of _ "_ # _", simplified])
qed

text \<open>
  The embeddings of OpenAI keep the order of the reply's list; the index each carries is decoded and
  not used.
\<close>

lemma openai_embeddings_ignore_index:
  assumes "map ed_Embedding (slice_list (eo_Data r)) = map ed_Embedding (slice_list (eo_Data r'))"
    and "eo_Model r = eo_Model r'" and "eo_Usage r = eo_Usage r'"
  shows "openai_embeddings r = openai_embeddings r'"
proof -
  have "map (\<lambda>d. slice_list (ed_Embedding d)) (slice_list (eo_Data r)) = map (\<lambda>d. slice_list (ed_Embedding d)) (slice_list (eo_Data r'))"
    using arg_cong [OF assms(1), of "map slice_list"] by (simp add: comp_def)
  then show ?thesis using assms(2,3) by (simp add: openai_embeddings_def)
qed

section \<open>Bodies\<close>














end
