(* ===== verification/Telemetry.thy ===== *)
theory Telemetry
  imports Middleware
begin

text \<open>
  Packages \<^verbatim>\<open>metrics\<close> (\<^verbatim>\<open>src/metrics/metrics.go\<close>: factories for Prometheus collectors and the HTTP
  middleware that counts requests) and \<^verbatim>\<open>tracing\<close> (\<^verbatim>\<open>src/tracing/tracing.go\<close>: the set-up of
  OpenTelemetry), with \<^verbatim>\<open>src/middleware/trace.go\<close>.

  The client libraries are parameters: \<open>register\<close> adds a collector to the default registry or
  panics (\<open>None\<close>), and \<open>otel_sdk\<close> builds resources and exporters or fails. A counter is the number of its
  increments for each tuple of label values, a histogram the durations observed.
\<close>

section \<open>Collectors\<close>

datatype collector =
    CounterVec string string "string list"
  | HistogramVec string string "string list"
  | GaugeVec string string "string list"

definition metrics_Counter ::
  "(collector \<Rightarrow> 'reg \<Rightarrow> 'reg option) \<Rightarrow> string \<Rightarrow> string \<Rightarrow> string list \<Rightarrow> 'reg \<Rightarrow> (collector \<times> 'reg) option" where
  "metrics_Counter register name help labels reg =
     (let c = CounterVec name help labels in map_option (\<lambda>reg. (c, reg)) (register c reg))"

definition metrics_Histogram ::
  "(collector \<Rightarrow> 'reg \<Rightarrow> 'reg option) \<Rightarrow> string \<Rightarrow> string \<Rightarrow> string list \<Rightarrow> 'reg \<Rightarrow> (collector \<times> 'reg) option" where
  "metrics_Histogram register name help labels reg =
     (let c = HistogramVec name help labels in map_option (\<lambda>reg. (c, reg)) (register c reg))"

definition metrics_Gauge ::
  "(collector \<Rightarrow> 'reg \<Rightarrow> 'reg option) \<Rightarrow> string \<Rightarrow> string \<Rightarrow> string list \<Rightarrow> 'reg \<Rightarrow> (collector \<times> 'reg) option" where
  "metrics_Gauge register name help labels reg =
     (let c = GaugeVec name help labels in map_option (\<lambda>reg. (c, reg)) (register c reg))"

definition httpRequestsTotal :: collector where
  "httpRequestsTotal = CounterVec ''http_requests_total'' ''Total HTTP requests'' [''service'', ''method'', ''code'']"

definition httpRequestDuration :: collector where
  "httpRequestDuration =
     HistogramVec ''http_request_duration_seconds'' ''HTTP request duration in seconds'' [''service'', ''method'']"

section \<open>The middleware\<close>

text \<open>The values of the two collectors, by the values of their labels.\<close>

record http_metrics =
  hm_requests :: "string list \<Rightarrow> nat"
  hm_durations :: "string list \<Rightarrow> duration list"

definition requests_Inc :: "string list \<Rightarrow> http_metrics \<Rightarrow> http_metrics" where
  "requests_Inc ls M = M\<lparr>hm_requests := (hm_requests M)(ls := hm_requests M ls + 1)\<rparr>"

definition duration_Observe :: "string list \<Rightarrow> duration \<Rightarrow> http_metrics \<Rightarrow> http_metrics" where
  "duration_Observe ls d M = M\<lparr>hm_durations := (hm_durations M)(ls := hm_durations M ls @ [d])\<rparr>"

text \<open>
  \<^verbatim>\<open>statusRecorder\<close>: each \<^verbatim>\<open>WriteHeader\<close> the handler calls sets the status, then reaches the response
  writer. \<open>recorded_status\<close> is the field after the handler, which made the calls that \<open>after\<close> has
  and \<open>before\<close> has not.
\<close>

definition recorder_WriteHeader :: "nat \<Rightarrow> nat \<Rightarrow> nat" where
  "recorder_WriteHeader code status = code"

definition recorded_status :: "response \<Rightarrow> response \<Rightarrow> nat" where
  "recorded_status before after =
     fold recorder_WriteHeader (drop (length (rsp_calls before)) (rsp_calls after)) 200"


definition HTTPMiddlewareWithExclusions ::
  "string \<Rightarrow> string list \<Rightarrow> time \<Rightarrow> time \<Rightarrow> 's handler \<Rightarrow> ('s \<times> http_metrics) handler" where
  "HTTPMiddlewareWithExclusions serviceName excludePaths t0 t1 nxt r w st =
     (let (s, M) = st; excl = set excludePaths in
      if req_path r \<in> excl then (let (w', s') = nxt r w s in (w', (s', M)))
      else
        (let (w', s') = nxt r w s;
             M = requests_Inc [serviceName, req_method r, Itoa (int (recorded_status w w'))] M;
             M = duration_Observe [serviceName, req_method r] (t1 - t0) M
         in (w', (s', M))))"

definition HTTPMiddleware :: "string \<Rightarrow> time \<Rightarrow> time \<Rightarrow> 's handler \<Rightarrow> ('s \<times> http_metrics) handler" where
  "HTTPMiddleware serviceName = HTTPMiddlewareWithExclusions serviceName []"

section \<open>Tracing\<close>

record ('res, 'exp) otel_sdk =
  os_resource :: "(string \<times> string) list \<Rightarrow> string + 'res"
  os_exporter :: "string \<Rightarrow> string + 'exp"

datatype propagator = TraceContext | Baggage

text \<open>A tracer provider is its resource and its exporter, if any; the globals are those of the SDK.\<close>

record ('res, 'exp) tracer_provider =
  tp_resource :: 'res
  tp_exporter :: "'exp option"

record ('res, 'exp) otel_globals =
  og_propagators :: "propagator list"
  og_provider :: "('res, 'exp) tracer_provider option"

definition tracing_attrs :: "string \<Rightarrow> string \<Rightarrow> (string \<times> string) list" where
  "tracing_attrs service version =
     [(''service.name'', service)] @ (if version \<noteq> [] then [(''service.version'', version)] else [])"

text \<open>The result is the provider whose \<^verbatim>\<open>Shutdown\<close> is returned.\<close>

definition tracing_Init ::
  "('res, 'exp) otel_sdk \<Rightarrow> (string \<Rightarrow> string) \<Rightarrow> string \<Rightarrow> string \<Rightarrow> ('res, 'exp) otel_globals
     \<Rightarrow> (string + ('res, 'exp) tracer_provider) \<times> ('res, 'exp) otel_globals" where
  "tracing_Init sdk env service version g =
     (let g = g\<lparr>og_propagators := [TraceContext, Baggage]\<rparr> in
      case os_resource sdk (tracing_attrs service version) of
        Inl err \<Rightarrow> (Inl err, g)
      | Inr res \<Rightarrow>
          (let endpoint = env ''OTEL_EXPORTER_OTLP_ENDPOINT'' in
           if endpoint = [] \<or> endpoint = ''disabled'' \<or> endpoint = ''none'' then
             (let tp = \<lparr>tp_resource = res, tp_exporter = None\<rparr> in (Inr tp, g\<lparr>og_provider := Some tp\<rparr>))
           else
             (case os_exporter sdk endpoint of
                Inl err \<Rightarrow> (Inl err, g)
              | Inr exp \<Rightarrow>
                  (let tp = \<lparr>tp_resource = res, tp_exporter = Some exp\<rparr>
                   in (Inr tp, g\<lparr>og_provider := Some tp\<rparr>)))))"

text \<open>\<^verbatim>\<open>middleware.Trace\<close> wraps a handler with the handler of \<^verbatim>\<open>otelhttp\<close>, a parameter.\<close>

definition mw_Trace :: "('h \<Rightarrow> string \<Rightarrow> 'h) \<Rightarrow> string \<Rightarrow> 'h \<Rightarrow> 'h" where
  "mw_Trace newHandler serviceName nxt = newHandler nxt serviceName"

section \<open>Lemmas\<close>






section \<open>Properties\<close>







text \<open>
  The recorder keeps the last code the handler passed to \<^verbatim>\<open>WriteHeader\<close>, the client sees the first: a handler
  that answers 200 and then reports an error is counted under 500.
\<close>

lemma late_header_miscounted:
  "\<exists>w. w = write_header 500 (write_body ''partial'' new_response)
     \<and> rsp_status w = Some 200 \<and> recorded_status new_response w = 500"
  by (simp add: recorded_status_def recorder_WriteHeader_def)

text \<open>
  The propagator is installed in every case; a provider is registered exactly when \<^verbatim>\<open>Init\<close> succeeds, it is
  the one whose shutdown is returned, and it exports exactly when an endpoint is configured.
\<close>

lemma tracing_Init_outcome:
  assumes "tracing_Init sdk env service version g = (res, g')"
  shows "og_propagators g' = [TraceContext, Baggage]"
    and "res = Inl err \<Longrightarrow> og_provider g' = og_provider g"
    and "res = Inr tp \<Longrightarrow> og_provider g' = Some tp
       \<and> (tp_exporter tp = None \<longleftrightarrow> env ''OTEL_EXPORTER_OTLP_ENDPOINT'' \<in> {[], ''disabled'', ''none''})"
  using assms by (auto simp: tracing_Init_def Let_def split: sum.splits if_splits)

end
