(* ===== verification/Golden.thy ===== *)
theory Golden
  imports Job_Queue Crypto Go_Maps
begin

text \<open>
  The fixture script (\<^verbatim>\<open>src/scripts/regen-golden.go\<close>): it finds the root of the repository, builds
  envelopes with \<^verbatim>\<open>jobqueue\<close> and tokens with \<^verbatim>\<open>encryption\<close>, and writes them as indented JSON for the
  other runtimes. The model has the path functions of \<^verbatim>\<open>path/filepath\<close>, the loop of \<^verbatim>\<open>repoRoot\<close>
  as a partial function (not returning is \<open>None\<close>) and the cases it builds.

  Parameters are \<^verbatim>\<open>uuid.Parse\<close>, the cipher, the random bytes of each encryption and the outcomes
  of the operating system. \<^verbatim>\<open>log.Fatalf\<close> is the left side of a sum.
\<close>

section \<open>Paths\<close>

text \<open>\<^verbatim>\<open>filepath.Clean\<close> on the elements of a path; the stack holds them in reverse.\<close>

definition clean_elem :: "bool \<Rightarrow> string \<Rightarrow> string list \<Rightarrow> string list" where
  "clean_elem rooted c st =
     (if c = [] \<or> c = ''.'' then st
      else if c = ''..'' then
        (if st \<noteq> [] \<and> hd st \<noteq> ''..'' then tl st else if rooted then st else c # st)
      else c # st)"

definition path_Clean :: "string \<Rightarrow> string" where
  "path_Clean p =
     (if p = [] then ''.''
      else
        (let rooted = (hd p = CHR ''/'');
             elems = rev (fold (clean_elem rooted) (Split p (CHR ''/'')) [])
         in if rooted then ''/'' @ Join elems ''/''
            else if elems = [] then ''.'' else Join elems ''/''))"

definition path_Dir :: "string \<Rightarrow> string" where
  "path_Dir p = path_Clean (case LastIndexByte p (CHR ''/'') of None \<Rightarrow> [] | Some i \<Rightarrow> take (i + 1) p)"

definition path_Join :: "string list \<Rightarrow> string" where
  "path_Join elems =
     (let es = dropWhile (\<lambda>e. e = []) elems in if es = [] then [] else path_Clean (Join es ''/''))"

section \<open>Finding the repository\<close>

text \<open>\<open>stat\<close> says whether \<^verbatim>\<open>os.Stat\<close> finds a path.\<close>

partial_function (option) repo_walk :: "(string \<Rightarrow> bool) \<Rightarrow> string \<Rightarrow> string \<Rightarrow> (string + string) option" where
  "repo_walk stat wd d =
     (if d = ''/'' then Some (Inl (''go.mod not found above '' @ wd))
      else if stat (path_Join [d, ''go.mod'']) then Some (Inr d)
      else repo_walk stat wd (path_Dir d))"

definition repoRoot :: "string + string \<Rightarrow> (string \<Rightarrow> bool) \<Rightarrow> (string + string) option" where
  "repoRoot getwd stat = (case getwd of Inl err \<Rightarrow> Some (Inl err) | Inr wd \<Rightarrow> repo_walk stat wd wd)"

section \<open>Indented JSON\<close>

text \<open>\<^verbatim>\<open>json.MarshalIndent(v, "", "  ")\<close>.\<close>

definition indent_line :: "nat \<Rightarrow> string" where
  "indent_line d = CHR 0x0A # concat (replicate d ''  '')"

fun json_indent :: "nat \<Rightarrow> json \<Rightarrow> string" where
  "json_indent d (JArr vs) =
     (if vs = [] then ''[]''
      else ''['' @ indent_line (d + 1) @ Join (map (json_indent (d + 1)) vs) ('','' @ indent_line (d + 1))
           @ indent_line d @ '']'')"
| "json_indent d (JObj ms) =
     (if ms = [] then ''{}''
      else ''{'' @ indent_line (d + 1)
           @ Join (map (\<lambda>(k, v). json_quote k @ '': '' @ json_indent (d + 1) v) ms) ('','' @ indent_line (d + 1))
           @ indent_line d @ ''}'')"
| "json_indent d v = json_print v"

section \<open>The cases\<close>

definition tenantA :: string where "tenantA = ''11111111-1111-1111-1111-111111111111''"
definition tenantB :: string where "tenantB = ''22222222-2222-2222-2222-222222222222''"
definition tenantC :: string where "tenantC = ''33333333-3333-3333-3333-333333333333''"

record envelopeCase =
  ec_Name :: string
  ec_TenantID :: string
  ec_RequestID :: string
  ec_Payload :: string
  ec_EnvelopeB64 :: string

record secretCase =
  gs_Name :: string
  gs_KeyB64 :: string
  gs_Token :: string
  gs_Plaintext :: string
  gs_ProducedBy :: string

datatype fatal =
    FatalRepoRoot string
  | FatalMkdir string
  | FatalWrap string job_error
  | FatalReparse string
  | FatalEncrypt enc_error
  | FatalMarshal string
  | FatalWrite string string

text \<open>A payload \<^verbatim>\<open>map[string]any\<close> is marshalled with its members in order of their names.\<close>

definition envelope_inputs :: "(string \<times> string \<times> string \<times> json) list" where
  "envelope_inputs =
     [(''minimal-no-request-id'', tenantA, [], JObj (sorted_members [(''task'', JStr ''ping'')])),
      (''with-request-id'', tenantB, ''req-abcdef0123456789'', JObj (sorted_members [(''task'', JStr ''noop'')])),
      (''sorted-multi-key-payload'', tenantC, ''01HX5Z7N5GZ7QY1Q2Q3Q4Q5Q6Q'',
         JObj (sorted_members [(''a'', JNum (Itoa 1)), (''b'', JStr ''two''), (''c'', JBool True)]))]"

text \<open>The text of the member \<^verbatim>\<open>payload\<close> of an object, the only field of the anonymous struct.\<close>

definition payload_text :: "string \<Rightarrow> string option" where
  "payload_text bytes =
     map_option (\<lambda>ms. (let raws = map (\<lambda>(k, raw, v). raw) (filter (\<lambda>(k, raw, v). match_field [''payload''] k = Some ''payload'') ms)
                       in if raws = [] then [] else last raws)) (parse_object bytes)"

fun build_envelopes :: "(string \<Rightarrow> go_error) \<Rightarrow> (string \<times> string \<times> string \<times> json) list \<Rightarrow> fatal + envelopeCase list" where
  "build_envelopes uuid [] = Inr []"
| "build_envelopes uuid ((name, tenant, requestID, payload) # cs) =
     (case WrapWithRequestID uuid tenant requestID (Inr payload) of
        Inl err \<Rightarrow> Inl (FatalWrap name err)
      | Inr bytes \<Rightarrow>
          (case payload_text bytes of
             None \<Rightarrow> Inl (FatalReparse name)
           | Some p \<Rightarrow>
               (case build_envelopes uuid cs of
                  Inl f \<Rightarrow> Inl f
                | Inr out \<Rightarrow> Inr (\<lparr>ec_Name = name, ec_TenantID = tenant, ec_RequestID = requestID, ec_Payload = p,
                                   ec_EnvelopeB64 = EncodeToString StdEncoding bytes\<rparr> # out))))"

definition buildEnvelopeCases :: "(string \<Rightarrow> go_error) \<Rightarrow> fatal + envelopeCase list" where
  "buildEnvelopeCases uuid = build_envelopes uuid envelope_inputs"

definition repeat32 :: "char \<Rightarrow> string" where
  "repeat32 b = replicate 32 b"

text \<open>One encryption per entry (name, key, plaintext); \<open>rnd i\<close> are the random bytes of the i-th.\<close>

fun encrypt_cases ::
  "aead \<Rightarrow> (nat \<Rightarrow> string + string) \<Rightarrow> nat \<Rightarrow> (string \<times> string \<times> string) list \<Rightarrow> fatal + secretCase list" where
  "encrypt_cases A rnd i [] = Inr []"
| "encrypt_cases A rnd i ((name, k, plain) # es) =
     (case Encrypt A (rnd i) plain k of
        Inl err \<Rightarrow> Inl (FatalEncrypt err)
      | Inr tok \<Rightarrow>
          (case encrypt_cases A rnd (i + 1) es of
             Inl f \<Rightarrow> Inl f
           | Inr out \<Rightarrow> Inr (\<lparr>gs_Name = name, gs_KeyB64 = k, gs_Token = tok, gs_Plaintext = plain,
                              gs_ProducedBy = ''go''\<rparr> # out)))"

definition encryption_inputs :: "(string \<times> string \<times> string) list" where
  "encryption_inputs =
     (let keys = map (\<lambda>b. EncodeToString URLEncoding (repeat32 b)) [CHR 0x01, CHR 0x02, CHR 0x03];
          plain = [''sk-ant-REDACTED'', ''short'', []]
      in map (\<lambda>i. (''case-'' @ Itoa (int i), keys ! i, plain ! i)) [0..<length keys])"

definition buildEncryptionCases :: "aead \<Rightarrow> (nat \<Rightarrow> string + string) \<Rightarrow> fatal + secretCase list" where
  "buildEncryptionCases A rnd = encrypt_cases A rnd 0 encryption_inputs"

definition settings_inputs :: "(string \<times> string \<times> string) list" where
  "settings_inputs =
     (let entries = [(''anthropic_api_key'', ''sk-ant-REDACTED''),
                     (''openai_api_key'', ''sk-proj-YYYYYYYYYYYYYYYYYYYYYYYYYYYYYYYYYYY''),
                     (''openrouter_api_key'', ''sk-or-v1-ZZZZZZZZZZZZZZZZZZZZZZZZZZZZZZZZ'')]
      in map (\<lambda>i. (fst (entries ! i), EncodeToString URLEncoding (repeat32 (char_of (16 + i))), snd (entries ! i)))
           [0..<length entries])"

definition buildSettingsCases :: "aead \<Rightarrow> (nat \<Rightarrow> string + string) \<Rightarrow> fatal + secretCase list" where
  "buildSettingsCases A rnd = encrypt_cases A rnd 0 settings_inputs"

section \<open>The files\<close>

text \<open>A \<^verbatim>\<open>json.RawMessage\<close> is checked and copied; nil is null.\<close>

definition envelope_case_json :: "envelopeCase \<Rightarrow> json option" where
  "envelope_case_json c =
     map_option (\<lambda>p. JObj [(''name'', JStr (ec_Name c)), (''tenant_id'', JStr (ec_TenantID c)),
         (''request_id'', JStr (ec_RequestID c)), (''payload'', p), (''envelope_bytes_b64'', JStr (ec_EnvelopeB64 c))])
       (if ec_Payload c = [] then Some JNull else json_parse (ec_Payload c))"

definition secret_case_json :: "secretCase \<Rightarrow> json" where
  "secret_case_json c =
     JObj [(''name'', JStr (gs_Name c)), (''key_b64'', JStr (gs_KeyB64 c)), (''token'', JStr (gs_Token c)),
       (''plaintext'', JStr (gs_Plaintext c)), (''produced_by'', JStr (gs_ProducedBy c))]"

text \<open>The files written so far are kept; a failure ends the program.\<close>

type_synonym files = "(string \<times> string) list"

definition writeJSON :: "(string \<Rightarrow> go_error) \<Rightarrow> string \<Rightarrow> json list option \<Rightarrow> files \<Rightarrow> (fatal + unit) \<times> files" where
  "writeJSON write path v fs =
     (case v of
        None \<Rightarrow> (Inl (FatalMarshal path), fs)
      | Some js \<Rightarrow>
          (case write path of
             Some err \<Rightarrow> (Inl (FatalWrite path err), fs)
           | None \<Rightarrow> (Inr (), fs @ [(path, json_indent 0 (JArr js) @ [CHR 0x0A])])))"

definition write_cases ::
  "(string \<Rightarrow> go_error) \<Rightarrow> string \<Rightarrow> ('c \<Rightarrow> json option) \<Rightarrow> fatal + 'c list \<Rightarrow> files \<Rightarrow> (fatal + unit) \<times> files" where
  "write_cases write path f cases fs =
     (case cases of
        Inl e \<Rightarrow> (Inl e, fs)
      | Inr cs \<Rightarrow> writeJSON write path (those (map f cs)) fs)"

record golden_env =
  ge_getwd :: "string + string"
  ge_stat :: "string \<Rightarrow> bool"
  ge_mkdir :: "string \<Rightarrow> go_error"
  ge_write :: "string \<Rightarrow> go_error"
  ge_uuid :: "string \<Rightarrow> go_error"
  ge_aead :: aead
  ge_rnd1 :: "nat \<Rightarrow> string + string"
  ge_rnd2 :: "nat \<Rightarrow> string + string"

definition golden_main :: "golden_env \<Rightarrow> ((fatal + unit) \<times> files) option" where
  "golden_main E =
     (case repoRoot (ge_getwd E) (ge_stat E) of
        None \<Rightarrow> None
      | Some (Inl err) \<Rightarrow> Some (Inl (FatalRepoRoot err), [])
      | Some (Inr root) \<Rightarrow> Some
          (let outDir = path_Join [root, ''internal'', ''testdata'', ''golden''] in
           case ge_mkdir E outDir of
             Some err \<Rightarrow> (Inl (FatalMkdir err), [])
           | None \<Rightarrow>
               (case write_cases (ge_write E) (path_Join [outDir, ''envelope.json'']) envelope_case_json
                       (buildEnvelopeCases (ge_uuid E)) [] of
                  (Inl f, fs) \<Rightarrow> (Inl f, fs)
                | (Inr _, fs) \<Rightarrow>
                    (case write_cases (ge_write E) (path_Join [outDir, ''encryption.json''])
                            (\<lambda>c. Some (secret_case_json c)) (buildEncryptionCases (ge_aead E) (ge_rnd1 E)) fs of
                       (Inl f, fs) \<Rightarrow> (Inl f, fs)
                     | (Inr _, fs) \<Rightarrow>
                         write_cases (ge_write E) (path_Join [outDir, ''settings.json''])
                           (\<lambda>c. Some (secret_case_json c)) (buildSettingsCases (ge_aead E) (ge_rnd2 E)) fs))))"

section \<open>Lemmas: the walk ends\<close>

definition weight :: "string list \<Rightarrow> nat" where
  "weight cs = sum_list (map (\<lambda>c. if c = [] then 0 else Suc (length c)) cs)"

lemma weight_simps [simp]:
  "weight [] = 0" "weight (c # cs) = (if c = [] then 0 else Suc (length c)) + weight cs"
  "weight (cs @ ds) = weight cs + weight ds"
  by (simp_all add: weight_def)

lemma Split_not_Nil [simp]: "Split q sep \<noteq> []"
  by (cases q) (auto split: list.splits)

lemma Split_snoc: "Split (q @ [sep]) sep = Split q sep @ [[]]"
proof (induction q)
  case (Cons c q)
  then show ?case by (cases "Split q sep") auto
qed simp

lemma weight_Split_parts: "length (hd (Split q sep)) + weight (tl (Split q sep)) \<le> length q"
proof (induction q)
  case (Cons c q)
  then show ?case by (cases "Split q sep") auto
qed simp

lemma weight_Split: "weight (Split q sep) \<le> Suc (length q)"
  using weight_Split_parts [of q sep] by (cases "Split q sep") auto

lemma weight_fold: "weight (fold (clean_elem rooted) cs st) \<le> weight st + weight cs"
proof (induction cs arbitrary: st)
  case (Cons c cs)
  have "weight (clean_elem rooted c st) \<le> weight st + (if c = [] then 0 else Suc (length c))"
    by (cases st) (auto simp: clean_elem_def)
  with Cons [of "clean_elem rooted c st"] show ?case by simp
qed simp

lemma clean_no_empty: "[] \<notin> set st \<Longrightarrow> [] \<notin> set (fold (clean_elem rooted) cs st)"
proof (induction cs arbitrary: st)
  case (Cons c cs)
  have "[] \<notin> set (clean_elem rooted c st)" using Cons.prems by (cases st) (auto simp: clean_elem_def)
  then show ?case using Cons.IH by simp
qed simp

lemma length_Join_weight: "[] \<notin> set cs \<Longrightarrow> Suc (length (Join cs ''/'')) \<le> max 1 (weight cs)"
  by (induction cs "''/''" rule: Join.induct) auto

lemma weight_rev [simp]: "weight (rev cs) = weight cs"
  by (simp add: weight_def rev_map [symmetric] sum_list_rev)

lemma length_Clean_rooted: "length (path_Clean (CHR ''/'' # q)) \<le> max 1 (weight (Split q (CHR ''/'')))"
proof -
  let ?st = "fold (clean_elem True) (Split q (CHR ''/'')) []"
  have "path_Clean (CHR ''/'' # q) = ''/'' @ Join (rev ?st) ''/''"
    by (simp add: path_Clean_def clean_elem_def)
  moreover have "Suc (length (Join (rev ?st) ''/'')) \<le> max 1 (weight (rev ?st))"
    by (rule length_Join_weight) (simp add: clean_no_empty)
  moreover have "weight ?st \<le> weight (Split q (CHR ''/''))" using weight_fold [of True _ "[]"] by simp
  ultimately show ?thesis by simp
qed

lemma LastIndexByte_Some:
  "LastIndexByte s b = Some i \<Longrightarrow> i < length s \<and> s ! i = b \<and> b \<notin> set (drop (Suc i) s)"
proof (induction s arbitrary: i)
  case (Cons c s)
  show ?case
  proof (cases "LastIndexByte s b")
    case None
    have "b \<notin> set s" if "LastIndexByte s b = None" for s using that by (induction s) (auto split: option.splits if_splits)
    with None show ?thesis using Cons.prems by (auto split: if_splits)
  next
    case (Some k)
    then show ?thesis using Cons by auto
  qed
qed simp

lemma LastIndexByte_None: "LastIndexByte s b = None \<Longrightarrow> b \<notin> set s"
  by (induction s) (auto split: option.splits if_splits)

lemma Dir_shorter:
  assumes "d = CHR ''/'' # r" and "r \<noteq> []"
  shows "length (path_Dir d) < length d \<and> hd (path_Dir d) = CHR ''/'' \<and> path_Dir d \<noteq> []"
proof -
  have "CHR ''/'' \<in> set d" using assms(1) by simp
  then obtain i where i: "LastIndexByte d (CHR ''/'') = Some i"
    using LastIndexByte_None [of d "CHR ''/''"] by (cases "LastIndexByte d (CHR ''/'')") blast+
  from LastIndexByte_Some [OF this] have b: "i < length d" "d ! i = CHR ''/''" by auto
  have "path_Dir d = path_Clean (take (i + 1) d)" by (simp add: path_Dir_def i)
  then have dir: "path_Dir d = path_Clean (CHR ''/'' # take i r)" by (simp add: assms(1))
  have rooted: "hd (path_Dir d) = CHR ''/'' \<and> path_Dir d \<noteq> []" by (simp add: dir path_Clean_def)
  show ?thesis
  proof (cases i)
    case 0
    then have "length (path_Dir d) \<le> 1" using length_Clean_rooted [of "[]"] by (simp add: dir)
    then show ?thesis using assms rooted by (cases r) auto
  next
    case (Suc k)
    then have q: "take i r = take k r @ [CHR ''/'']" "k < length r"
      using b assms(1) by (auto simp: take_Suc_conv_app_nth)
    have "weight (Split (take i r) (CHR ''/'')) \<le> i"
      unfolding q(1) Split_snoc using weight_Split [of "take k r" "CHR ''/''"] q(2) by (simp add: Suc)
    then have "length (path_Dir d) \<le> max 1 i" using length_Clean_rooted [of "take i r"] by (simp add: dir)
    then show ?thesis using b assms rooted Suc by auto
  qed
qed

lemma repo_walk_ends:
  assumes "HasPrefix d ''/''"
  shows "\<exists>res. repo_walk stat wd d = Some res
     \<and> (case res of Inl e \<Rightarrow> e = ''go.mod not found above '' @ wd | Inr root \<Rightarrow> stat (path_Join [root, ''go.mod'']))"
  using assms
proof (induction "length d" arbitrary: d rule: less_induct)
  case less
  then obtain r where d: "d = CHR ''/'' # r" by (auto simp: HasPrefix_iff)
  show ?case
  proof (cases "d = ''/'' \<or> stat (path_Join [d, ''go.mod''])")
    case True
    then show ?thesis by (subst repo_walk.simps) auto
  next
    case False
    then have "length (path_Dir d) < length d" and "HasPrefix (path_Dir d) ''/''"
      using Dir_shorter [OF d] d by (auto simp: HasPrefix_def take_Suc)
    from less(1) [OF this] show ?thesis using False by (subst repo_walk.simps) simp
  qed
qed

lemma repo_walk_relative:
  assumes "\<not> stat ''go.mod''"
  shows "repo_walk stat wd ''.'' = None"
proof -
  have join: "path_Join [''.'', ''go.mod''] = ''go.mod''" and dir: "path_Dir ''.'' = ''.''" by code_simp+
  have "d = ''.'' \<longrightarrow> st ''go.mod''" if "repo_walk st w d = Some res" for st w d res
    using that by (rule repo_walk.raw_induct [rotated]) (fastforce simp: join dir split: if_splits)
  then show ?thesis using assms by (cases "repo_walk stat wd ''.''") auto
qed

section \<open>Lemmas: the cases\<close>

definition unwraps :: "(string \<Rightarrow> go_error) \<Rightarrow> envelopeCase \<Rightarrow> bool" where
  "unwraps uuid c \<longleftrightarrow>
     (case DecodeString StdEncoding (ec_EnvelopeB64 c) of
        None \<Rightarrow> False
      | Some bytes \<Rightarrow> job_Unwrap uuid bytes =
          Inr \<lparr>env_Version = 1, env_TenantID = ec_TenantID c, env_RequestID = ec_RequestID c, env_Payload = ec_Payload c\<rparr>)"

definition decrypts :: "aead \<Rightarrow> secretCase \<Rightarrow> bool" where
  "decrypts A c \<longleftrightarrow> Decrypt A (gs_Token c) (gs_KeyB64 c) = Inr (gs_Plaintext c)"

definition envelope_input_wf :: "string \<times> string \<times> string \<times> json \<Rightarrow> bool" where
  "envelope_input_wf = (\<lambda>(name, tenant, requestID, payload). valid_utf8 tenant \<and> valid_utf8 requestID \<and> json_wf payload)"

lemma payload_text_envelope:
  assumes "valid_utf8 tid" and "valid_utf8 rid" and "json_wf j"
  shows "payload_text (json_print (JObj (envelope_members tid rid j))) = Some (json_print j)"
proof -
  have wf: "json_wf (JObj (envelope_members tid rid j))"
    using assms by (simp add: envelope_members_def num_prefix_Itoa ascii_valid)
  have "match_field [''payload''] ''version'' = None" "match_field [''payload''] ''tenant_id'' = None"
    "match_field [''payload''] ''request_id'' = None" "match_field [''payload''] ''payload'' = Some ''payload''"
    by code_simp+
  then show ?thesis
    unfolding payload_text_def parse_object_print [OF wf]
    by (simp add: with_raw_def envelope_members_def Let_def del: json_print.simps)
qed

lemma build_envelopes_unwrap:
  assumes "list_all envelope_input_wf cs" and "\<And>name t rid j. (name, t, rid, j) \<in> set cs \<Longrightarrow> uuid t = None"
  shows "\<exists>out. build_envelopes uuid cs = Inr out \<and> map ec_Name out = map fst cs \<and> list_all (unwraps uuid) out"
  using assms
proof (induction cs)
  case (Cons q cs)
  obtain name t rid j where q: "q = (name, t, rid, j)" by (cases q)
  have wf: "valid_utf8 t" "valid_utf8 rid" "json_wf j" using Cons.prems(1) q by (simp_all add: envelope_input_wf_def)
  have u: "uuid t = None" using Cons.prems(2) q by auto
  obtain out where out: "build_envelopes uuid cs = Inr out" "map ec_Name out = map fst cs" "list_all (unwraps uuid) out"
    using Cons by fastforce
  have "unwraps uuid \<lparr>ec_Name = name, ec_TenantID = t, ec_RequestID = rid, ec_Payload = json_print j,
      ec_EnvelopeB64 = EncodeToString StdEncoding (json_print (JObj (envelope_members t rid j)))\<rparr>"
    using job_Unwrap_body [of uuid, OF u wf] by (simp add: unwraps_def std64.decode_encode del: json_print.simps)
  then show ?case
    using out payload_text_envelope [OF wf] by (simp add: q WrapWithRequestID_def u del: json_print.simps)
qed simp

lemma encrypt_cases_decrypt:
  assumes "aead_laws A" and "\<And>i. \<exists>n. rnd i = Inr n \<and> length n = 12"
    and "list_all (\<lambda>(name, k, plain). \<exists>b. k = EncodeToString URLEncoding (repeat32 b)) es"
  shows "\<exists>out. encrypt_cases A rnd i es = Inr out \<and> map gs_Name out = map fst es \<and> list_all (decrypts A) out"
  using assms(3)
proof (induction es arbitrary: i)
  case (Cons q es)
  obtain name k plain where q: "q = (name, k, plain)" by (cases q)
  obtain b where k: "k = EncodeToString URLEncoding (repeat32 b)" using Cons.prems q by auto
  have key: "decodeKey k = Inr (repeat32 b)" unfolding k by (rule decodeKey_encode) (simp add: repeat32_def)
  obtain n where n: "rnd i = Inr n" "length n = 12" using assms(2) by blast
  obtain out where out: "encrypt_cases A rnd (Suc i) es = Inr out" "map gs_Name out = map fst es" "list_all (decrypts A) out"
    using Cons by fastforce
  obtain tok where tok: "Encrypt A (Inr n) plain k = Inr tok" using Encrypt_ok [OF key] by blast
  have "decrypts A \<lparr>gs_Name = name, gs_KeyB64 = k, gs_Token = tok, gs_Plaintext = plain, gs_ProducedBy = ''go''\<rparr>"
    using Decrypt_Encrypt [OF assms(1) n(2) tok] by (simp add: decrypts_def)
  then show ?case using out by (simp add: q n(1) tok)
qed simp

lemma encryption_keys:
  "list_all (\<lambda>(name, k, plain). \<exists>b. k = EncodeToString URLEncoding (repeat32 b)) encryption_inputs"
proof -
  have "map f bs ! i = f (bs ! i)" if "i \<in> set [0..<length (map f bs)]" for f :: "char \<Rightarrow> string" and bs i
    using that by (intro nth_map) auto
  then show ?thesis unfolding encryption_inputs_def Let_def list_all_iff set_map by (blast intro: sym)
qed

lemma settings_keys:
  "list_all (\<lambda>(name, k, plain). \<exists>b. k = EncodeToString URLEncoding (repeat32 b)) settings_inputs"
  unfolding settings_inputs_def Let_def list_all_iff set_map by (auto simp only: prod.case)

section \<open>The envelope fixtures\<close>

text \<open>The committed text of \<^verbatim>\<open>internal/testdata/golden/envelope.json\<close>, by lines.\<close>

definition envelope_fixture :: "string list" where
  \<open>envelope_fixture =
    [''['',
     ''  {'',
     ''    "name": "minimal-no-request-id",'',
     ''    "tenant_id": "11111111-1111-1111-1111-111111111111",'',
     ''    "request_id": "",'',
     ''    "payload": {'',
     ''      "task": "ping"'',
     ''    },'',
     ''    "envelope_bytes_b64": "eyJ2ZXJzaW9uIjoxLCJ0ZW5hbnRfaWQiOiIxMTExMTExMS0xMTExLTExMTEtMTExMS0xMTExMTExMTExMTEiLCJwYXlsb2FkIjp7InRhc2siOiJwaW5nIn19"'',
     ''  },'',
     ''  {'',
     ''    "name": "with-request-id",'',
     ''    "tenant_id": "22222222-2222-2222-2222-222222222222",'',
     ''    "request_id": "req-abcdef0123456789",'',
     ''    "payload": {'',
     ''      "task": "noop"'',
     ''    },'',
     ''    "envelope_bytes_b64": "eyJ2ZXJzaW9uIjoxLCJ0ZW5hbnRfaWQiOiIyMjIyMjIyMi0yMjIyLTIyMjItMjIyMi0yMjIyMjIyMjIyMjIiLCJyZXF1ZXN0X2lkIjoicmVxLWFiY2RlZjAxMjM0NTY3ODkiLCJwYXlsb2FkIjp7InRhc2siOiJub29wIn19"'',
     ''  },'',
     ''  {'',
     ''    "name": "sorted-multi-key-payload",'',
     ''    "tenant_id": "33333333-3333-3333-3333-333333333333",'',
     ''    "request_id": "01HX5Z7N5GZ7QY1Q2Q3Q4Q5Q6Q",'',
     ''    "payload": {'',
     ''      "a": 1,'',
     ''      "b": "two",'',
     ''      "c": true'',
     ''    },'',
     ''    "envelope_bytes_b64": "eyJ2ZXJzaW9uIjoxLCJ0ZW5hbnRfaWQiOiIzMzMzMzMzMy0zMzMzLTMzMzMtMzMzMy0zMzMzMzMzMzMzMzMiLCJyZXF1ZXN0X2lkIjoiMDFIWDVaN041R1o3UVkxUTJRM1E0UTVRNlEiLCJwYXlsb2FkIjp7ImEiOjEsImIiOiJ0d28iLCJjIjp0cnVlfX0="'',
     ''  }'',
     '']'',
     '''']\<close>

lemma std_table: "StdEncoding = ''ABCDEFGHIJKLMNOPQRSTUVWXYZabcdefghijklmnopqrstuvwxyz0123456789+/''"
  by code_simp

lemma envelope_A:
  \<open>json_print (JObj (envelope_members tenantA '''' (JObj (sorted_members [(''task'', JStr ''ping'')])))) =
    ''{"version":1,"tenant_id":"11111111-1111-1111-1111-111111111111","payload":{"task":"ping"}}''\<close>
  by code_simp

lemma envelope_A_b64:
  \<open>EncodeToString StdEncoding ''{"version":1,"tenant_id":"11111111-1111-1111-1111-111111111111","payload":{"task":"ping"}}'' =
    ''eyJ2ZXJzaW9uIjoxLCJ0ZW5hbnRfaWQiOiIxMTExMTExMS0xMTExLTExMTEtMTExMS0xMTExMTExMTExMTEiLCJwYXlsb2FkIjp7InRhc2siOiJwaW5nIn19''\<close>
  by (simp add: digit4_def std_table pad_char_def)

lemma envelope_B:
  \<open>json_print (JObj (envelope_members tenantB ''req-abcdef0123456789'' (JObj (sorted_members [(''task'', JStr ''noop'')])))) =
    ''{"version":1,"tenant_id":"22222222-2222-2222-2222-222222222222","request_id":"req-abcdef0123456789","payload":{"task":"noop"}}''\<close>
  by code_simp

lemma envelope_B_b64:
  \<open>EncodeToString StdEncoding ''{"version":1,"tenant_id":"22222222-2222-2222-2222-222222222222","request_id":"req-abcdef0123456789","payload":{"task":"noop"}}'' =
    ''eyJ2ZXJzaW9uIjoxLCJ0ZW5hbnRfaWQiOiIyMjIyMjIyMi0yMjIyLTIyMjItMjIyMi0yMjIyMjIyMjIyMjIiLCJyZXF1ZXN0X2lkIjoicmVxLWFiY2RlZjAxMjM0NTY3ODkiLCJwYXlsb2FkIjp7InRhc2siOiJub29wIn19''\<close>
  by (simp add: digit4_def std_table pad_char_def)

lemma envelope_C:
  \<open>json_print (JObj (envelope_members tenantC ''01HX5Z7N5GZ7QY1Q2Q3Q4Q5Q6Q'' (JObj (sorted_members [(''a'', JNum (Itoa 1)), (''b'', JStr ''two''), (''c'', JBool True)])))) =
    ''{"version":1,"tenant_id":"33333333-3333-3333-3333-333333333333","request_id":"01HX5Z7N5GZ7QY1Q2Q3Q4Q5Q6Q","payload":{"a":1,"b":"two","c":true}}''\<close>
  by code_simp

lemma envelope_C_b64:
  \<open>EncodeToString StdEncoding ''{"version":1,"tenant_id":"33333333-3333-3333-3333-333333333333","request_id":"01HX5Z7N5GZ7QY1Q2Q3Q4Q5Q6Q","payload":{"a":1,"b":"two","c":true}}'' =
    ''eyJ2ZXJzaW9uIjoxLCJ0ZW5hbnRfaWQiOiIzMzMzMzMzMy0zMzMzLTMzMzMtMzMzMy0zMzMzMzMzMzMzMzMiLCJyZXF1ZXN0X2lkIjoiMDFIWDVaN041R1o3UVkxUTJRM1E0UTVRNlEiLCJwYXlsb2FkIjp7ImEiOjEsImIiOiJ0d28iLCJjIjp0cnVlfX0=''\<close>
  by (simp add: digit4_def std_table pad_char_def)

lemma build_envelopes_step:
  assumes "valid_utf8 t" and "valid_utf8 rid" and "json_wf j" and "build_envelopes accept_all cs = Inr out"
  shows "build_envelopes accept_all ((name, t, rid, j) # cs) =
    Inr (\<lparr>ec_Name = name, ec_TenantID = t, ec_RequestID = rid, ec_Payload = json_print j,
          ec_EnvelopeB64 = EncodeToString StdEncoding (json_print (JObj (envelope_members t rid j)))\<rparr> # out)"
  using assms(4) payload_text_envelope [OF assms(1-3)]
  by (simp add: WrapWithRequestID_def accept_all_def del: json_print.simps)

lemma envelope_case_json_ok:
  assumes "json_wf j"
  shows "envelope_case_json \<lparr>ec_Name = n, ec_TenantID = t, ec_RequestID = rid, ec_Payload = json_print j, ec_EnvelopeB64 = b\<rparr> =
    Some (JObj [(''name'', JStr n), (''tenant_id'', JStr t), (''request_id'', JStr rid), (''payload'', j),
      (''envelope_bytes_b64'', JStr b)])"
proof -
  obtain c r where "json_print j = c # r" using json_print_head [OF assms] by metis
  then have "json_print j \<noteq> []" by simp
  then show ?thesis by (simp add: envelope_case_json_def parse_print [OF assms] del: json_print.simps)
qed

text \<open>The script writes exactly the committed envelope fixtures.\<close>

lemma envelope_file_written:
  "write_cases (\<lambda>_. None) path envelope_case_json (buildEnvelopeCases accept_all) [] =
     (Inr (), [(path, Join envelope_fixture [CHR 0x0A])])"
proof -
  let ?A = "JObj (sorted_members [(''task'', JStr ''ping'')])"
    and ?B = "JObj (sorted_members [(''task'', JStr ''noop'')])"
    and ?C = "JObj (sorted_members [(''a'', JNum (Itoa 1)), (''b'', JStr ''two''), (''c'', JBool True)])"
  let ?case = "\<lambda>n t rid j. \<lparr>ec_Name = n, ec_TenantID = t, ec_RequestID = rid, ec_Payload = json_print j,
      ec_EnvelopeB64 = EncodeToString StdEncoding (json_print (JObj (envelope_members t rid j)))\<rparr>"
  have wf: "json_wf ?A" "json_wf ?B" "json_wf ?C" by code_simp+
  have utf: "valid_utf8 tenantA" "valid_utf8 tenantB" "valid_utf8 tenantC" "valid_utf8 []"
      "valid_utf8 ''req-abcdef0123456789''" "valid_utf8 ''01HX5Z7N5GZ7QY1Q2Q3Q4Q5Q6Q''" by code_simp+
  have "buildEnvelopeCases accept_all = Inr [?case ''minimal-no-request-id'' tenantA [] ?A,
      ?case ''with-request-id'' tenantB ''req-abcdef0123456789'' ?B,
      ?case ''sorted-multi-key-payload'' tenantC ''01HX5Z7N5GZ7QY1Q2Q3Q4Q5Q6Q'' ?C]"
    unfolding buildEnvelopeCases_def envelope_inputs_def
    by (intro build_envelopes_step utf wf build_envelopes.simps(1))
  then have "write_cases (\<lambda>_. None) path envelope_case_json (buildEnvelopeCases accept_all) [] =
    (Inr (), [(path, json_indent 0 (JArr
       [JObj [(''name'', JStr ''minimal-no-request-id''), (''tenant_id'', JStr tenantA), (''request_id'', JStr []),
          (''payload'', ?A), (''envelope_bytes_b64'', JStr (EncodeToString StdEncoding (json_print (JObj (envelope_members tenantA [] ?A)))))],
        JObj [(''name'', JStr ''with-request-id''), (''tenant_id'', JStr tenantB), (''request_id'', JStr ''req-abcdef0123456789''),
          (''payload'', ?B), (''envelope_bytes_b64'', JStr (EncodeToString StdEncoding (json_print (JObj (envelope_members tenantB ''req-abcdef0123456789'' ?B)))))],
        JObj [(''name'', JStr ''sorted-multi-key-payload''), (''tenant_id'', JStr tenantC), (''request_id'', JStr ''01HX5Z7N5GZ7QY1Q2Q3Q4Q5Q6Q''),
          (''payload'', ?C), (''envelope_bytes_b64'', JStr (EncodeToString StdEncoding (json_print (JObj (envelope_members tenantC ''01HX5Z7N5GZ7QY1Q2Q3Q4Q5Q6Q'' ?C)))))]])
       @ [CHR 0x0A])])"
    by (simp add: write_cases_def writeJSON_def envelope_case_json_ok [OF wf(1)] envelope_case_json_ok [OF wf(2)]
        envelope_case_json_ok [OF wf(3)] del: json_print.simps json_indent.simps)
  also have "\<dots> = (Inr (), [(path, Join envelope_fixture [CHR 0x0A])])"
    unfolding envelope_A envelope_B envelope_C envelope_A_b64 envelope_B_b64 envelope_C_b64
    unfolding prod.inject list.inject by (intro conjI refl) code_simp
  finally show ?thesis .
qed

section \<open>Properties\<close>

text \<open>
  C30. The fixtures satisfy the contract they are written for: with a working cipher and
  random source all three builds succeed, every envelope decodes to its tenant, request id and
  payload, and every token decrypts to its plaintext under its key.
\<close>

theorem golden_fixtures_verify:
  assumes "aead_laws A" and "\<And>i. \<exists>n. rnd i = Inr n \<and> length n = 12"
    and "uuid tenantA = None" and "uuid tenantB = None" and "uuid tenantC = None"
  shows "\<exists>es cs ss. buildEnvelopeCases uuid = Inr es \<and> buildEncryptionCases A rnd = Inr cs \<and> buildSettingsCases A rnd = Inr ss
    \<and> length es = 3 \<and> length cs = 3 \<and> length ss = 3
    \<and> list_all (unwraps uuid) es \<and> list_all (decrypts A) (cs @ ss)"
proof -
  have "list_all envelope_input_wf envelope_inputs" by code_simp
  moreover have "\<And>name t rid j. (name, t, rid, j) \<in> set envelope_inputs \<Longrightarrow> uuid t = None"
    using assms(3-5) by (auto simp: envelope_inputs_def)
  ultimately obtain es where es: "build_envelopes uuid envelope_inputs = Inr es"
      "map ec_Name es = map fst envelope_inputs" "list_all (unwraps uuid) es"
    using build_envelopes_unwrap by blast
  obtain cs where cs: "encrypt_cases A rnd 0 encryption_inputs = Inr cs"
      "map gs_Name cs = map fst encryption_inputs" "list_all (decrypts A) cs"
    using encrypt_cases_decrypt [where rnd = rnd and i = 0, OF assms(1,2) encryption_keys] by blast
  obtain ss where ss: "encrypt_cases A rnd 0 settings_inputs = Inr ss"
      "map gs_Name ss = map fst settings_inputs" "list_all (decrypts A) ss"
    using encrypt_cases_decrypt [where rnd = rnd and i = 0, OF assms(1,2) settings_keys] by blast
  have "length envelope_inputs = 3" "length encryption_inputs = 3" "length settings_inputs = 3"
    by (simp_all add: envelope_inputs_def encryption_inputs_def settings_inputs_def Let_def)
  then have "length es = 3" "length cs = 3" "length ss = 3"
    using es(2) cs(2) ss(2) map_eq_imp_length_eq by metis+
  then show ?thesis
    using es cs ss by (simp add: buildEnvelopeCases_def buildEncryptionCases_def buildSettingsCases_def)
qed

theorem golden_fixtures_verify_witness:
  "aead_laws toy_aead \<and> (\<exists>es. buildEnvelopeCases accept_all = Inr es \<and> length es = 3 \<and> list_all (unwraps accept_all) es)"
proof -
  have "\<exists>n. (Inr (replicate 12 CHR ''n'') :: string + string) = Inr n \<and> length n = 12" by simp
  then show ?thesis
    using golden_fixtures_verify [OF toy_aead_laws, of "\<lambda>_. Inr (replicate 12 CHR ''n'')" accept_all] toy_aead_laws
    by (auto simp: accept_all_def)
qed

text \<open>
  C39. The search for the repository ends: from every absolute directory the loop of \<^verbatim>\<open>repoRoot\<close> returns,
  with a directory that has a \<^verbatim>\<open>go.mod\<close> or with the error, since every step shortens the path.
\<close>

theorem repo_root_terminates:
  assumes "HasPrefix wd ''/''"
  shows "\<exists>res. repoRoot (Inr wd) stat = Some res
     \<and> (case res of Inl e \<Rightarrow> e = ''go.mod not found above '' @ wd | Inr root \<Rightarrow> stat (path_Join [root, ''go.mod'']))"
  using repo_walk_ends [OF assms] by (simp add: repoRoot_def)

theorem repo_root_terminates_witness:
  "\<exists>res. repoRoot (Inr ''/srv/../home/repo/scripts'') (\<lambda>p. p = ''/home/repo/go.mod'') = Some res"
proof -
  have "HasPrefix ''/srv/../home/repo/scripts'' ''/''" by code_simp
  from repo_root_terminates [OF this] show ?thesis by blast
qed

end
